(* ===== verification/Prelude.thy ===== *)
theory Prelude
  imports Main "HOL-Library.Word" "HOL-Library.Multiset" "HOL-Library.Code_Target_Numeral"
begin

text \<open>
  Shared vocabulary of the development: machine-integer types, the result type of
  fallible operations with its sequencing operator, Rust's \<open>HashMap\<close> as a keyed
  association list with the interface its clients rely on, and sorting by a
  comparison function. Nothing here is specific to the DNS server.
\<close>

unbundle bit_operations_syntax

named_theorems res_simps \<open>sequencing of fallible steps\<close>
named_theorems hm_simps \<open>hash maps\<close>

section \<open>Machine integers\<close>

type_synonym u8 = "8 word"
type_synonym u16 = "16 word"
type_synonym u32 = "32 word"
type_synonym i32 = "32 word"
type_synonym u64 = "64 word"
type_synonym usize = "64 word"
type_synonym bytes = "8 word list"

text \<open>
  \<open>u16::to_be_bytes\<close> and \<open>u16::from_be_bytes\<close>.
\<close>

definition to_be_bytes :: "u16 \<Rightarrow> bytes" where
  "to_be_bytes w = [ucast (drop_bit 8 w), ucast w]"

definition from_be_bytes :: "u8 \<Rightarrow> u8 \<Rightarrow> u16" where
  "from_be_bytes hi lo = push_bit 8 (ucast hi) OR ucast lo"

lemma length_to_be_bytes [simp]: "length (to_be_bytes w) = 2"
  by (simp add: to_be_bytes_def)

lemma from_to_be_bytes [simp]:
  "from_be_bytes (ucast (drop_bit 8 w)) (ucast w) = w"
  unfolding from_be_bytes_def
  by (rule bit_word_eqI)
     (auto simp: bit_or_iff bit_push_bit_iff bit_ucast_iff bit_drop_bit_eq)

section \<open>Results\<close>

text \<open>
  A Rust \<open>Result<T, E>\<close> is a value of \<open>'e + 'a\<close>: \<open>Inl\<close> an error, \<open>Inr\<close> a value.
  \<open>and_then\<close> is the \<open>?\<close> operator: the first error ends the function.
\<close>

fun and_then :: "'e + 'a \<Rightarrow> ('a \<Rightarrow> 'e + 'b) \<Rightarrow> 'e + 'b" where
  "and_then (Inl e) f = Inl e"
| "and_then (Inr x) f = f x"

definition ok_or :: "'e \<Rightarrow> 'a option \<Rightarrow> 'e + 'a" where
  "ok_or e x = (case x of None \<Rightarrow> Inl e | Some v \<Rightarrow> Inr v)"

lemma and_then_Inr_iff [res_simps]:
  "and_then m f = Inr y \<longleftrightarrow> (\<exists>x. m = Inr x \<and> f x = Inr y)"
  by (cases m) auto

lemma and_then_Inl_iff [res_simps]:
  "and_then m f = Inl e \<longleftrightarrow> m = Inl e \<or> (\<exists>x. m = Inr x \<and> f x = Inl e)"
  by (cases m) auto

lemma ok_or_simps [simp, res_simps]:
  "ok_or e None = Inl e"
  "ok_or e (Some v) = Inr v"
  by (simp_all add: ok_or_def)

lemma ok_or_Inr_iff [res_simps]: "ok_or e x = Inr v \<longleftrightarrow> x = Some v"
  by (cases x) auto

lemma ok_or_Inl_iff [res_simps]: "ok_or e x = Inl e' \<longleftrightarrow> x = None \<and> e' = e"
  by (cases x) auto

lemma and_then_cong [fundef_cong]:
  "m = m' \<Longrightarrow> (\<And>x. m' = Inr x \<Longrightarrow> f x = g x) \<Longrightarrow> and_then m f = and_then m' g"
  by (cases m) auto

section \<open>Hash maps\<close>

text \<open>
  \<open>HashMap<K, V>\<close> compares keys with the key type's \<open>Eq\<close> and \<open>Hash\<close>; the model takes the
  canonical form those compare as a function \<open>key\<close> (the identity where \<open>Eq\<close> is structural).
  The list order is the iteration order, which Rust leaves unspecified: what depends on it is
  stated for every permutation. As in Rust, an update of an occupied entry keeps the stored key.
\<close>

type_synonym ('k, 'v) hash_map = "('k \<times> 'v) list"

fun hm_get :: "('k \<Rightarrow> 'h) \<Rightarrow> ('k, 'v) hash_map \<Rightarrow> 'k \<Rightarrow> 'v option" where
  "hm_get key [] k = None"
| "hm_get key ((k', v) # m) k = (if key k' = key k then Some v else hm_get key m k)"

text \<open>\<open>entry(k).or_insert(d)\<close> followed by the mutation \<open>f\<close> of the entry's value.\<close>

fun hm_upsert :: "('k \<Rightarrow> 'h) \<Rightarrow> ('k, 'v) hash_map \<Rightarrow> 'k \<Rightarrow> 'v \<Rightarrow> ('v \<Rightarrow> 'v) \<Rightarrow> ('k, 'v) hash_map" where
  "hm_upsert key [] k d f = [(k, f d)]"
| "hm_upsert key ((k', v) # m) k d f =
     (if key k' = key k then (k', f v) # m else (k', v) # hm_upsert key m k d f)"

definition hm_insert :: "('k \<Rightarrow> 'h) \<Rightarrow> ('k, 'v) hash_map \<Rightarrow> 'k \<Rightarrow> 'v \<Rightarrow> ('k, 'v) hash_map" where
  "hm_insert key m k v = hm_upsert key m k v (\<lambda>_. v)"

definition hm_contains_key :: "('k \<Rightarrow> 'h) \<Rightarrow> ('k, 'v) hash_map \<Rightarrow> 'k \<Rightarrow> bool" where
  "hm_contains_key key m k \<longleftrightarrow> hm_get key m k \<noteq> None"

text \<open>\<open>retain\<close> with a closure that may mutate the value before it decides.\<close>

fun hm_retain :: "('k \<Rightarrow> 'v \<Rightarrow> 'v \<times> bool) \<Rightarrow> ('k, 'v) hash_map \<Rightarrow> ('k, 'v) hash_map" where
  "hm_retain f [] = []"
| "hm_retain f ((k, v) # m) =
     (case f k v of (v', keep) \<Rightarrow> if keep then (k, v') # hm_retain f m else hm_retain f m)"

definition hm_wf :: "('k \<Rightarrow> 'h) \<Rightarrow> ('k, 'v) hash_map \<Rightarrow> bool" where
  "hm_wf key m \<longleftrightarrow> distinct (map (key \<circ> fst) m)"

text \<open>What a client of a map relies on.\<close>

locale keyed_map =
  fixes key :: "'k \<Rightarrow> 'h"
    and empty :: "'m"
    and get :: "'m \<Rightarrow> 'k \<Rightarrow> 'v option"
    and upsert :: "'m \<Rightarrow> 'k \<Rightarrow> 'v \<Rightarrow> ('v \<Rightarrow> 'v) \<Rightarrow> 'm"
    and wf :: "'m \<Rightarrow> bool"
  assumes get_empty: "get empty k = None"
    and get_upsert: "get (upsert m k d f) k' =
      (if key k' = key k
       then Some (f (case get m k of None \<Rightarrow> d | Some v \<Rightarrow> v)) else get m k')"
    and get_cong: "key k = key k' \<Longrightarrow> get m k = get m k'"
    and wf_empty: "wf empty"
    and wf_upsert: "wf m \<Longrightarrow> wf (upsert m k d f)"
begin

lemma fold_upsert_wf: "wf m \<Longrightarrow> wf (fold (\<lambda>x m. upsert m (kf x) d (g x)) xs m)"
  by (induction xs arbitrary: m) (auto simp: wf_upsert)

text \<open>
  Loading a list of items groups them by key: each entry is the fold of the items of its key,
  in the order they were loaded.
\<close>

lemma get_fold_upsert:
  "get (fold (\<lambda>x m. upsert m (kf x) d (g x)) xs m) k =
    (let ys = filter (\<lambda>x. key (kf x) = key k) xs in
     if ys = [] then get m k
     else Some (fold g ys (case get m k of None \<Rightarrow> d | Some v \<Rightarrow> v)))"
proof (induction xs arbitrary: m)
  case (Cons x xs)
  show ?case
  proof (cases "key (kf x) = key k")
    case True
    then have "get m k = get m (kf x)" by (intro get_cong) simp
    with True show ?thesis by (simp add: Cons.IH get_upsert Let_def)
  next
    case False
    then show ?thesis by (simp add: Cons.IH get_upsert Let_def)
  qed
qed simp

lemma get_fold_upsert_empty:
  "get (fold (\<lambda>x m. upsert m (kf x) d (g x)) xs empty) k =
    (let ys = filter (\<lambda>x. key (kf x) = key k) xs in if ys = [] then None else Some (fold g ys d))"
  by (simp add: get_fold_upsert get_empty Let_def)

end

lemma hm_get_upsert [hm_simps]:
  "hm_get key (hm_upsert key m k d f) k' =
    (if key k' = key k
     then Some (f (case hm_get key m k of None \<Rightarrow> d | Some v \<Rightarrow> v)) else hm_get key m k')"
  by (induction m) auto

lemma hm_get_cong: "key k = key k' \<Longrightarrow> hm_get key m k = hm_get key m k'"
  by (induction m) auto

lemma hm_upsert_keys:
  "set (map (key \<circ> fst) (hm_upsert key m k d f)) = insert (key k) (set (map (key \<circ> fst) m))"
proof (induction m)
  case (Cons p m)
  then show ?case by (cases p) (simp add: insert_commute)
qed simp

lemma hm_wf_upsert [hm_simps]: "hm_wf key m \<Longrightarrow> hm_wf key (hm_upsert key m k d f)"
proof (induction m)
  case (Cons p m)
  obtain k' v where p: "p = (k', v)" by (cases p)
  have "key k' \<notin> set (map (key \<circ> fst) (hm_upsert key m k d f))" if "key k' \<noteq> key k"
    unfolding hm_upsert_keys using Cons.prems that by (simp add: hm_wf_def p)
  with Cons p show ?case by (cases "key k' = key k") (simp_all add: hm_wf_def)
qed (simp add: hm_wf_def)

interpretation hm: keyed_map key "[] :: ('k, 'v) hash_map" "hm_get key" "hm_upsert key" "hm_wf key"
  for key :: "'k \<Rightarrow> 'h"
  by unfold_locales (auto simp: hm_get_upsert hm_wf_upsert intro: hm_get_cong, simp add: hm_wf_def)

lemma hm_upsert_nonempty [simp]: "hm_upsert key m k d f \<noteq> []"
  by (cases m) (auto split: if_splits)

lemma hm_upsert_in:
  "(k', v) \<in> set (hm_upsert key m k d f) \<Longrightarrow>
     (k', v) \<in> set m \<or>
     key k' = key k \<and> (k' = k \<and> v = f d \<or> (\<exists>w. (k', w) \<in> set m \<and> v = f w))"
proof (induction m)
  case (Cons p m)
  then show ?case by (cases p) (auto split: if_splits)
qed simp

lemma hm_get_insert [hm_simps]:
  "hm_get key (hm_insert key m k v) k' = (if key k' = key k then Some v else hm_get key m k')"
  by (simp add: hm_insert_def hm_get_upsert)

lemma hm_wf_insert [hm_simps]: "hm_wf key m \<Longrightarrow> hm_wf key (hm_insert key m k v)"
  by (simp add: hm_insert_def hm_wf_upsert)

lemma hm_wf_Nil [simp]: "hm_wf key []"
  by (simp add: hm_wf_def)

lemma hm_get_Some_in: "hm_get key m k = Some v \<Longrightarrow> \<exists>k'. (k', v) \<in> set m \<and> key k' = key k"
  by (induction m) (auto split: if_splits)

lemma hm_get_None_iff: "hm_get key m k = None \<longleftrightarrow> (\<forall>p \<in> set m. key (fst p) \<noteq> key k)"
proof (induction m)
  case (Cons p m)
  then show ?case by (cases p) simp
qed simp

lemma hm_get_in: "hm_wf key m \<Longrightarrow> (k, v) \<in> set m \<Longrightarrow> hm_get key m k = Some v"
proof (induction m)
  case (Cons p m)
  then show ?case by (cases p) (force simp: hm_wf_def)
qed simp

text \<open>A well-formed map answers the same whatever order it is iterated in.\<close>

lemma hm_get_perm:
  assumes "hm_wf key m" and "mset m = mset m'"
  shows "hm_get key m k = hm_get key m' k"
proof -
  have eq: "set m = set m'" using assms(2) by (metis set_mset_mset)
  have wf': "hm_wf key m'"
    using assms by (metis hm_wf_def mset_eq_imp_distinct_iff mset_map)
  show ?thesis
  proof (cases "hm_get key m k")
    case None
    with eq show ?thesis by (metis hm_get_None_iff)
  next
    case (Some v)
    then obtain k' where k': "(k', v) \<in> set m" "key k' = key k" by (blast dest: hm_get_Some_in)
    with eq wf' have "hm_get key m' k' = Some v" by (auto intro: hm_get_in)
    with k' Some show ?thesis by (metis hm_get_cong)
  qed
qed

section \<open>Sorting by a comparison\<close>

text \<open>
  \<open>Vec::sort\<close> is a stable sort by the element type's \<open>Ord\<close>, here the relation \<open>le\<close>.
\<close>

fun insert_by :: "('a \<Rightarrow> 'a \<Rightarrow> bool) \<Rightarrow> 'a \<Rightarrow> 'a list \<Rightarrow> 'a list" where
  "insert_by le x [] = [x]"
| "insert_by le x (y # ys) = (if le x y then x # y # ys else y # insert_by le x ys)"

fun sort_by :: "('a \<Rightarrow> 'a \<Rightarrow> bool) \<Rightarrow> 'a list \<Rightarrow> 'a list" where
  "sort_by le [] = []"
| "sort_by le (x # xs) = insert_by le x (sort_by le xs)"

lemma mset_insert_by [simp]: "mset (insert_by le x xs) = add_mset x (mset xs)"
  by (induction xs) auto

lemma mset_sort_by [simp]: "mset (sort_by le xs) = mset xs"
  by (induction xs) auto

lemma set_insert_by [simp]: "set (insert_by le x xs) = insert x (set xs)"
  by (induction xs) auto

lemma set_sort_by [simp]: "set (sort_by le xs) = set xs"
  by (induction xs) auto

lemma sorted_insert_by:
  assumes "\<And>a b. le a b \<or> le b a" and "\<And>a b c. le a b \<Longrightarrow> le b c \<Longrightarrow> le a c"
  shows "sorted_wrt le xs \<Longrightarrow> sorted_wrt le (insert_by le x xs)"
  by (induction xs) (use assms in auto)

lemma sorted_sort_by:
  assumes "\<And>a b. le a b \<or> le b a" and "\<And>a b c. le a b \<Longrightarrow> le b c \<Longrightarrow> le a c"
  shows "sorted_wrt le (sort_by le xs)"
  by (induction xs) (auto intro: sorted_insert_by [OF assms])

text \<open>
  Visiting the entries of a map in sorted key order visits each entry once.
\<close>

lemma mset_concat_sorted_entries:
  assumes "hm_wf key m"
  shows "mset (concat (map (\<lambda>k. case hm_get key m k of None \<Rightarrow> [] | Some v \<Rightarrow> f k v)
           (sort_by le (map fst m)))) = (\<Sum>(k, v) \<in># mset m. mset (f k v))"
proof -
  let ?g = "\<lambda>k. case hm_get key m k of None \<Rightarrow> [] | Some v \<Rightarrow> f k v"
  have "mset (concat (map ?g (sort_by le (map fst m)))) = (\<Sum>k \<in># mset (map fst m). mset (?g k))"
    by (simp add: mset_concat comp_def flip: sum_mset_sum_list)
  also have "\<dots> = (\<Sum>p \<in># mset m. mset (?g (fst p)))" by (simp add: image_mset.compositionality comp_def)
  also have "\<dots> = (\<Sum>(k, v) \<in># mset m. mset (f k v))"
    using assms by (intro arg_cong [where f = sum_mset] image_mset_cong) (auto simp: hm_get_in)
  finally show ?thesis .
qed

lemma filter_mset_sum_mset:
  "filter_mset P (\<Sum>x \<in># M. f x) = (\<Sum>x \<in># M. filter_mset P (f x))"
  by (induction M) auto

lemma sorted_wrt_concat_map:
  assumes "sorted_wrt Q ks" and "\<And>k. k \<in> set ks \<Longrightarrow> sorted_wrt P (f k)"
    and "\<And>a b x y. a \<in> set ks \<Longrightarrow> b \<in> set ks \<Longrightarrow> Q a b \<Longrightarrow> x \<in> set (f a) \<Longrightarrow> y \<in> set (f b) \<Longrightarrow> P x y"
  shows "sorted_wrt P (concat (map f ks))"
  using assms
proof (induction ks)
  case (Cons k ks)
  have "sorted_wrt P (concat (map f ks))"
    by (rule Cons.IH) (use Cons.prems in \<open>auto intro: Cons.prems(3)\<close>)
  with Cons.prems show ?case by (force simp: sorted_wrt_append)
qed simp

end
