(* ===== verification/Rust_Std.thy ===== *)
theory Rust_Std
  imports Prelude
begin

text \<open>
  The parts of Rust's standard library the zone parser uses: strings (\<open>lines\<close>, \<open>trim\<close>,
  \<open>split_whitespace\<close>, \<open>trim_matches\<close>, \<open>join\<close>), \<open>FromStr\<close> for the integer types and for
  \<open>Ipv4Addr\<close> and \<open>Ipv6Addr\<close>, and the decimal rendering of an integer. A \<open>str\<close> is the list
  of its UTF-8 bytes; the operations that look at whole characters go through \<open>chars\<close>.
\<close>

section \<open>Strings\<close>

abbreviation code :: "char \<Rightarrow> nat" where
  "code c \<equiv> of_char c"

text \<open>
  \<open>chars\<close> groups each byte with the continuation bytes (\<open>10xxxxxx\<close>) that follow it.
\<close>

definition is_continuation :: "char \<Rightarrow> bool" where
  "is_continuation c \<longleftrightarrow> 128 \<le> code c \<and> code c < 192"

fun chars :: "string \<Rightarrow> string list" where
  "chars [] = []"
| "chars (b # bs) =
     (case chars bs of
        [] \<Rightarrow> [[b]]
      | c # cs \<Rightarrow> if is_continuation (hd c) then (b # c) # cs else [b] # c # cs)"

text \<open>The characters with the Unicode property \<open>White_Space\<close>, in UTF-8.\<close>

definition white_space_codes :: "nat list list" where
  "white_space_codes =
     [[9], [10], [11], [12], [13], [32], [194, 133], [194, 160], [225, 154, 128],
      [226, 128, 128], [226, 128, 129], [226, 128, 130], [226, 128, 131], [226, 128, 132],
      [226, 128, 133], [226, 128, 134], [226, 128, 135], [226, 128, 136], [226, 128, 137],
      [226, 128, 138], [226, 128, 168], [226, 128, 169], [226, 128, 175], [226, 129, 159],
      [227, 128, 128]]"

definition is_whitespace :: "string \<Rightarrow> bool" where
  "is_whitespace c \<longleftrightarrow> List.member white_space_codes (map code c)"

definition trim :: "string \<Rightarrow> string" where
  "trim s = concat (rev (dropWhile is_whitespace (rev (dropWhile is_whitespace (chars s)))))"

fun split_words :: "string list \<Rightarrow> string \<Rightarrow> string list" where
  "split_words [] w = (if w = [] then [] else [w])"
| "split_words (c # cs) w =
     (if is_whitespace c
      then (if w = [] then split_words cs [] else w # split_words cs [])
      else split_words cs (w @ c))"

definition split_whitespace :: "string \<Rightarrow> string list" where
  "split_whitespace s = split_words (chars s) []"

definition newline :: char where "newline = char_of (10 :: nat)"
definition carriage_return :: char where "carriage_return = char_of (13 :: nat)"
definition dquote :: char where "dquote = char_of (34 :: nat)"

definition strip_cr :: "string \<Rightarrow> string" where
  "strip_cr l = (if l \<noteq> [] \<and> last l = carriage_return then butlast l else l)"

fun lines_from :: "string \<Rightarrow> string \<Rightarrow> string list" where
  "lines_from [] cur = (if cur = [] then [] else [cur])"
| "lines_from (c # cs) cur =
     (if c = newline then strip_cr cur # lines_from cs [] else lines_from cs (cur @ [c]))"

definition str_lines :: "string \<Rightarrow> string list" where
  "str_lines s = lines_from s []"

definition starts_with :: "string \<Rightarrow> string \<Rightarrow> bool" where
  "starts_with s p \<longleftrightarrow> take (length p) s = p"

definition ends_with_dot :: "string \<Rightarrow> bool" where
  "ends_with_dot s \<longleftrightarrow> s \<noteq> [] \<and> last s = CHR ''.''"

definition trim_matches :: "char \<Rightarrow> string \<Rightarrow> string" where
  "trim_matches c s = rev (dropWhile (\<lambda>x. x = c) (rev (dropWhile (\<lambda>x. x = c) s)))"

text \<open>\<open>replace(c, "")\<close> and \<open>find(c)\<close> with the slice before the position found.\<close>

definition remove_char :: "char \<Rightarrow> string \<Rightarrow> string" where
  "remove_char c s = filter (\<lambda>x. x \<noteq> c) s"

definition before_char :: "char \<Rightarrow> string \<Rightarrow> string option" where
  "before_char c s = (if c \<in> set s then Some (takeWhile (\<lambda>x. x \<noteq> c) s) else None)"

fun join :: "string \<Rightarrow> string list \<Rightarrow> string" where
  "join sep [] = []"
| "join sep [x] = x"
| "join sep (x # y # ys) = x @ sep @ join sep (y # ys)"

section \<open>Numbers\<close>

definition to_digit :: "nat \<Rightarrow> char \<Rightarrow> nat option" where
  "to_digit radix c =
     (let n = code c;
          v = (if 48 \<le> n \<and> n \<le> 57 then n - 48
               else if 97 \<le> n \<and> n \<le> 122 then n - 87
               else if 65 \<le> n \<and> n \<le> 90 then n - 55 else 36)
      in if v < radix then Some v else None)"

fun digits_value :: "nat \<Rightarrow> nat \<Rightarrow> string \<Rightarrow> nat option" where
  "digits_value radix acc [] = Some acc"
| "digits_value radix acc (c # cs) =
     (case to_digit radix c of None \<Rightarrow> None | Some d \<Rightarrow> digits_value radix (radix * acc + d) cs)"

definition parse_nat :: "string \<Rightarrow> nat option" where
  "parse_nat ds = (if ds = [] then None else digits_value 10 0 ds)"

text \<open>
  \<open>str::parse::<uN>()\<close>: an optional leading \<open>+\<close>, at least one digit, and the value must fit.
\<close>

definition strip_plus :: "string \<Rightarrow> string" where
  "strip_plus s = (case s of [] \<Rightarrow> [] | c # cs \<Rightarrow> if c = CHR ''+'' \<and> cs \<noteq> [] then cs else s)"

definition parse_uint :: "string \<Rightarrow> 'w::len word option" where
  "parse_uint s =
     (case parse_nat (strip_plus s) of
        None \<Rightarrow> None
      | Some n \<Rightarrow> if n < 2 ^ LENGTH('w) then Some (word_of_nat n) else None)"

definition parse_i32 :: "string \<Rightarrow> i32 option" where
  "parse_i32 s =
     (case s of
        [] \<Rightarrow> None
      | c # cs \<Rightarrow>
          if c = CHR ''-'' then
            (case parse_nat cs of
               None \<Rightarrow> None
             | Some n \<Rightarrow> if n \<le> 2 ^ 31 then Some (word_of_int (- int n)) else None)
          else
            (case parse_nat (strip_plus s) of
               None \<Rightarrow> None
             | Some n \<Rightarrow> if n < 2 ^ 31 then Some (word_of_nat n) else None))"

text \<open>The decimal rendering of a number.\<close>

definition digit_char :: "nat \<Rightarrow> char" where
  "digit_char d = char_of (48 + d)"

fun show_nat :: "nat \<Rightarrow> string" where
  "show_nat n = (if n < 10 then [digit_char n] else show_nat (n div 10) @ [digit_char (n mod 10)])"

declare show_nat.simps [simp del]

section \<open>IP addresses\<close>

type_synonym ipv4 = "u8 \<times> u8 \<times> u8 \<times> u8"
type_synonym ipv6 = "u16 list"

fun read_given_char :: "char \<Rightarrow> string \<Rightarrow> string option" where
  "read_given_char c [] = None"
| "read_given_char c (x # xs) = (if x = c then Some xs else None)"

text \<open>\<open>read_number(radix, Some(max_digits), allow_zero_prefix)\<close> of the address parser.\<close>

definition read_number :: "nat \<Rightarrow> nat \<Rightarrow> bool \<Rightarrow> nat \<Rightarrow> string \<Rightarrow> (nat \<times> string) option" where
  "read_number radix max_digits allow_zero_prefix bound s =
     (let ds = takeWhile (\<lambda>c. to_digit radix c \<noteq> None) s; n = length ds in
      if n = 0 \<or> max_digits < n then None
      else if \<not> allow_zero_prefix \<and> hd s = CHR ''0'' \<and> 1 < n then None
      else (case digits_value radix 0 ds of
              None \<Rightarrow> None
            | Some v \<Rightarrow> if v < bound then Some (v, drop n s) else None))"

definition read_octet :: "string \<Rightarrow> (u8 \<times> string) option" where
  "read_octet s = map_option (apfst word_of_nat) (read_number 10 3 False 256 s)"

definition read_dot_octet :: "string \<Rightarrow> (u8 \<times> string) option" where
  "read_dot_octet s = Option.bind (read_given_char CHR ''.'' s) read_octet"

definition read_ipv4 :: "string \<Rightarrow> (ipv4 \<times> string) option" where
  "read_ipv4 s =
     Option.bind (read_octet s) (\<lambda>(a, s).
     Option.bind (read_dot_octet s) (\<lambda>(b, s).
     Option.bind (read_dot_octet s) (\<lambda>(c, s).
     Option.bind (read_dot_octet s) (\<lambda>(d, s). Some ((a, b, c, d), s)))))"

definition parse_ipv4 :: "string \<Rightarrow> ipv4 option" where
  "parse_ipv4 s =
     (if 15 < length s then None
      else case read_ipv4 s of Some (a, []) \<Rightarrow> Some a | _ \<Rightarrow> None)"

definition read_sep :: "nat \<Rightarrow> (string \<Rightarrow> ('a \<times> string) option) \<Rightarrow> string \<Rightarrow> ('a \<times> string) option" where
  "read_sep i inner s =
     (if 0 < i then Option.bind (read_given_char CHR '':'' s) inner else inner s)"

text \<open>
  \<open>read_groups\<close> with \<open>r\<close> slots left, \<open>i\<close> already filled: the groups read, whether an embedded
  IPv4 address ended them, and the rest of the input.
\<close>

fun read_groups :: "nat \<Rightarrow> nat \<Rightarrow> string \<Rightarrow> u16 list \<times> bool \<times> string" where
  "read_groups 0 i s = ([], False, s)"
| "read_groups (Suc r) i s =
     (case (if 0 < r then read_sep i read_ipv4 s else None) of
        Some ((a, b, c, d), s') \<Rightarrow> ([from_be_bytes a b, from_be_bytes c d], True, s')
      | None \<Rightarrow>
          (case read_sep i (read_number 16 4 True 65536) s of
             None \<Rightarrow> ([], False, s)
           | Some (g, s') \<Rightarrow>
               (case read_groups r (Suc i) s' of
                  (gs, v4, s'') \<Rightarrow> (word_of_nat g # gs, v4, s''))))"

definition parse_ipv6 :: "string \<Rightarrow> ipv6 option" where
  "parse_ipv6 s =
     (case read_groups 8 0 s of (head, head_ipv4, s1) \<Rightarrow>
        if length head = 8 then (if s1 = [] then Some head else None)
        else if head_ipv4 then None
        else
          Option.bind (read_given_char CHR '':'' s1) (\<lambda>s2.
          Option.bind (read_given_char CHR '':'' s2) (\<lambda>s3.
            case read_groups (7 - length head) 0 s3 of (tl_groups, _, s4) \<Rightarrow>
              if s4 = []
              then Some (head @ replicate (8 - length head - length tl_groups) 0 @ tl_groups)
              else None)))"

section \<open>Facts about strings\<close>

lemma concat_chars [simp]: "concat (chars s) = s"
proof (induction s)
  case (Cons b bs)
  then show ?case by (cases "chars bs") auto
qed simp

lemma chars_nonempty: "c \<in> set (chars s) \<Longrightarrow> c \<noteq> []"
proof (induction s arbitrary: c)
  case (Cons b bs)
  then show ?case by (cases "chars bs") (auto split: if_splits)
qed simp

lemma chars_ascii: "\<forall>c \<in> set s. code c < 128 \<Longrightarrow> chars s = map (\<lambda>c. [c]) s"
proof (induction s)
  case (Cons b bs)
  then show ?case by (cases bs) (auto simp: is_continuation_def)
qed simp

lemma split_words_nonempty: "\<forall>c \<in> set cs. c \<noteq> [] \<Longrightarrow> x \<in> set (split_words cs w) \<Longrightarrow> x \<noteq> []"
  by (induction cs w rule: split_words.induct) (auto split: if_splits)

lemma split_whitespace_nonempty: "x \<in> set (split_whitespace s) \<Longrightarrow> x \<noteq> []"
  unfolding split_whitespace_def by (rule split_words_nonempty) (auto dest: chars_nonempty)

section \<open>Facts about numbers\<close>

lemma to_digit_digit_char [simp]: "d < 10 \<Longrightarrow> to_digit 10 (digit_char d) = Some d"
  by (simp add: to_digit_def digit_char_def Let_def)

lemma digits_value_append:
  "digits_value r acc (xs @ ys) = Option.bind (digits_value r acc xs) (\<lambda>v. digits_value r v ys)"
  by (induction xs arbitrary: acc) (auto split: option.splits)

lemma digits_value_show: "digits_value 10 0 (show_nat n) = Some n"
proof (induction n rule: show_nat.induct)
  case (1 n)
  then show ?case
    by (subst show_nat.simps) (auto simp: digits_value_append)
qed

lemma show_nat_nonempty [simp]: "show_nat n \<noteq> []"
  by (subst show_nat.simps) simp

lemma parse_nat_show [simp]: "parse_nat (show_nat n) = Some n"
  by (simp add: parse_nat_def digits_value_show)

lemma show_nat_digits: "c \<in> set (show_nat n) \<Longrightarrow> \<exists>d < 10. c = digit_char d"
proof (induction n rule: show_nat.induct)
  case (1 n)
  from 1(2) show ?case
    by (subst (asm) show_nat.simps)
       (auto split: if_splits dest: 1(1) intro: exI [of _ "n mod 10"])
qed

lemma digit_char_code: "d < 10 \<Longrightarrow> code (digit_char d) = 48 + d"
  by (simp add: digit_char_def)

lemma show_nat_codes: "c \<in> set (show_nat n) \<Longrightarrow> 48 \<le> code c \<and> code c \<le> 57"
  by (auto dest!: show_nat_digits simp: digit_char_code)

lemma strip_plus_show [simp]: "strip_plus (show_nat n) = show_nat n"
proof -
  obtain c cs where s: "show_nat n = c # cs" by (cases "show_nat n") auto
  then have "48 \<le> code c" using show_nat_codes [of c n] by simp
  then have "c \<noteq> CHR ''+''" by auto
  with s show ?thesis by (simp add: strip_plus_def)
qed

text \<open>Reading a rendered integer gives it back when it fits the type, and an error when not.\<close>

lemma parse_uint_show:
  "(parse_uint (show_nat n) :: 'w::len word option) =
     (if n < 2 ^ LENGTH('w) then Some (word_of_nat n) else None)"
  by (simp add: parse_uint_def)

section \<open>Facts about addresses\<close>

lemma read_groups_length: "length (fst (read_groups r i s)) \<le> r"
proof (induction r i s rule: read_groups.induct)
  case (2 r i s)
  then show ?case by (auto split: option.splits prod.splits)
qed simp

lemma parse_ipv6_length:
  assumes "parse_ipv6 s = Some gs"
  shows "length gs = 8"
proof -
  obtain h v s1 where h: "read_groups 8 0 s = (h, v, s1)" by (cases "read_groups 8 0 s")
  then have le: "length h \<le> 8" using read_groups_length [of 8 0 s] by simp
  show ?thesis
  proof (cases "length h = 8")
    case True
    with assms h show ?thesis by (simp add: parse_ipv6_def split: if_splits)
  next
    case False
    with assms h obtain s3 where
      "(case read_groups (7 - length h) 0 s3 of (t, _, s4) \<Rightarrow>
         if s4 = [] then Some (h @ replicate (8 - length h - length t) 0 @ t) else None) = Some gs"
      by (auto simp: parse_ipv6_def bind_eq_Some_conv split: if_splits)
    moreover obtain t w s4 where t: "read_groups (7 - length h) 0 s3 = (t, w, s4)"
      by (cases "read_groups (7 - length h) 0 s3")
    moreover have "length t \<le> 7 - length h"
      using read_groups_length [of "7 - length h" 0 s3] t by simp
    ultimately show ?thesis using le False by (auto split: if_splits)
  qed
qed

end
