(* ===== verification/Dns_Data.thy ===== *)
theory Dns_Data
  imports Rust_Std
begin

text \<open>
  The DNS data the server exchanges with the \<open>hickory_proto\<close> crate, with the constructors and
  accessors its sources use, and the functions of that crate (and of \<open>base64\<close>, \<open>hex\<close> and
  \<open>sha2\<close>) as fields of two records. Those crates are not part of the repository: every
  definition that calls one of their functions takes the record as an argument, and what a
  theorem needs to know of them is a named hypothesis.
\<close>

section \<open>Record types and record data\<close>

text \<open>
  \<open>RecordType\<close>: the variants the server names; \<open>RT_other\<close> stands for every other one.
\<close>

datatype record_type =
    RT_A | RT_AAAA | RT_NS | RT_SOA | RT_CNAME | RT_MX | RT_TXT | RT_PTR | RT_SRV | RT_CAA
  | RT_DNSKEY | RT_SIG | RT_RRSIG | RT_NSEC | RT_DS | RT_NAPTR | RT_TLSA | RT_SSHFP
  | RT_AXFR | RT_other u16

datatype algorithm = RSASHA256 | ECDSAP256SHA256 | Algorithm_other u8

datatype digest_type = SHA256 | SHA384 | SHA512 | DigestType_other u8

text \<open>
  \<open>DNSSECRData\<close>: each constructor has the arguments of the crate's \<open>new\<close> function.
\<close>

datatype 'n dnssec_rdata =
    DNSKEY bool bool bool algorithm bytes
  | SIG record_type algorithm u8 u32 u32 u32 u16 'n bytes
  | NSEC 'n "record_type list"
  | DS u16 algorithm digest_type bytes

datatype 'n rdata =
    RD_A ipv4
  | RD_AAAA ipv6
  | RD_NS 'n
  | RD_SOA 'n 'n u32 i32 i32 i32 u32
  | RD_CNAME 'n
  | RD_MX u16 'n
  | RD_TXT "string list"
  | RD_PTR 'n
  | RD_SRV u16 u16 u16 'n
  | RD_CAA bool "'n option"
  | RD_DNSSEC "'n dnssec_rdata"
  | RD_NAPTR u16 u16 string string string 'n
  | RD_TLSA u8 u8 u8 bytes
  | RD_SSHFP u8 u8 bytes
  | RD_other u16

record 'n rr =
  rr_name :: 'n
  rr_type :: record_type
  rr_ttl :: u32
  rr_data :: "'n rdata option"

section \<open>Messages\<close>

datatype message_type = MT_Query | MT_Response

datatype op_code = OP_Query | OP_other u8

datatype response_code = NoError | FormErr | ServFail | NXDomain | NotImp | Refused | RC_other u16

record edns =
  max_payload :: u16
  edns_version :: u8
  dnssec_ok :: bool

record 'n question =
  q_name :: 'n
  q_type :: record_type

record 'n message =
  msg_id :: u16
  msg_type :: message_type
  msg_op_code :: op_code
  msg_authoritative :: bool
  msg_truncated :: bool
  msg_recursion_desired :: bool
  msg_recursion_available :: bool
  msg_response_code :: response_code
  msg_queries :: "'n question list"
  msg_answers :: "'n rr list"
  msg_name_servers :: "'n rr list"
  msg_additionals :: "'n rr list"
  msg_edns :: "edns option"

section \<open>The functions of the external crates\<close>

text \<open>
  \<open>hickory_proto\<close>: \<open>name_key\<close> is the canonical form \<open>Name\<close>'s \<open>Eq\<close> and \<open>Hash\<close> compare,
  \<open>name_lt\<close> its \<open>Ord\<close>; a function that returns a \<open>Result\<close> there returns an \<open>option\<close> here.
  \<open>dnskey_flags\<close> is \<open>DNSKEY::flags()\<close> of a key built from the three flag arguments of
  \<open>DNSKEY::new\<close>.
\<close>

record 'n hickory =
  name_key :: "'n \<Rightarrow> string"
  name_lt :: "'n \<Rightarrow> 'n \<Rightarrow> bool"
  name_from_str :: "string \<Rightarrow> 'n option"
  name_from_labels :: "string list \<Rightarrow> 'n option"
  name_iter :: "'n \<Rightarrow> string list"
  name_zone_of :: "'n \<Rightarrow> 'n \<Rightarrow> bool"
  name_num_labels :: "'n \<Rightarrow> u8"
  name_display :: "'n \<Rightarrow> string"
  name_root :: 'n
  name_to_lowercase :: "'n \<Rightarrow> 'n"
  name_to_bytes :: "'n \<Rightarrow> bytes option"
  rtype_from_str :: "string \<Rightarrow> record_type option"
  rtype_lt :: "record_type \<Rightarrow> record_type \<Rightarrow> bool"
  rdata_type :: "'n rdata \<Rightarrow> record_type"
  algorithm_from_u8 :: "u8 \<Rightarrow> algorithm"
  algorithm_to_u8 :: "algorithm \<Rightarrow> u8"
  digest_type_from_u8 :: "u8 \<Rightarrow> digest_type option"
  dnskey_flags :: "bool \<Rightarrow> bool \<Rightarrow> bool \<Rightarrow> u16"
  message_new :: "'n message"
  edns_new :: edns
  message_from_bytes :: "bytes \<Rightarrow> 'n message option"
  message_to_bytes :: "'n message \<Rightarrow> bytes option"

text \<open>\<open>base64\<close> (the standard engine), \<open>hex\<close> and \<open>sha2\<close>.\<close>

record codecs =
  base64_decode :: "string \<Rightarrow> bytes option"
  hex_decode :: "string \<Rightarrow> bytes option"
  sha256 :: "bytes \<Rightarrow> bytes"
  sha384 :: "bytes \<Rightarrow> bytes"
  sha512 :: "bytes \<Rightarrow> bytes"

text \<open>\<open>Name\<close>'s \<open>==\<close>.\<close>

definition name_eq :: "'n hickory \<Rightarrow> 'n \<Rightarrow> 'n \<Rightarrow> bool" where
  "name_eq H a b \<longleftrightarrow> name_key H a = name_key H b"

text \<open>\<open>Record::from_rdata\<close>.\<close>

definition from_rdata :: "'n hickory \<Rightarrow> 'n \<Rightarrow> u32 \<Rightarrow> 'n rdata \<Rightarrow> 'n rr" where
  "from_rdata H n ttl d = \<lparr>rr_name = n, rr_type = rdata_type H d, rr_ttl = ttl, rr_data = Some d\<rparr>"

lemma from_rdata_simps [simp]:
  "rr_name (from_rdata H n ttl d) = n"
  "rr_type (from_rdata H n ttl d) = rdata_type H d"
  "rr_ttl (from_rdata H n ttl d) = ttl"
  "rr_data (from_rdata H n ttl d) = Some d"
  by (simp_all add: from_rdata_def)

section \<open>Documented behaviour used as hypotheses\<close>

text \<open>
  \<open>Name\<close>'s \<open>Ord\<close> is the canonical DNS order: a strict total order consistent with \<open>==\<close>.
\<close>

definition name_order :: "'n hickory \<Rightarrow> bool" where
  "name_order H \<longleftrightarrow>
     (\<forall>a b. name_lt H a b \<longrightarrow> \<not> name_lt H b a) \<and>
     (\<forall>a b c. name_lt H a b \<longrightarrow> name_lt H b c \<longrightarrow> name_lt H a c) \<and>
     (\<forall>a b. name_eq H a b \<longleftrightarrow> \<not> name_lt H a b \<and> \<not> name_lt H b a)"

text \<open>\<open>RecordType\<close>'s \<open>Ord\<close> is a strict total order.\<close>

definition rtype_order :: "'n hickory \<Rightarrow> bool" where
  "rtype_order H \<longleftrightarrow>
     (\<forall>a b. rtype_lt H a b \<longrightarrow> \<not> rtype_lt H b a) \<and>
     (\<forall>a b c. rtype_lt H a b \<longrightarrow> rtype_lt H b c \<longrightarrow> rtype_lt H a c) \<and>
     (\<forall>a b. a \<noteq> b \<longrightarrow> rtype_lt H a b \<or> rtype_lt H b a)"

text \<open>\<open>Message::new()\<close> is an empty query with response code \<open>NoError\<close> and no flag set.\<close>

definition fresh_message :: "'n message \<Rightarrow> bool" where
  "fresh_message m \<longleftrightarrow>
     \<not> msg_authoritative m \<and> \<not> msg_truncated m \<and> msg_response_code m = NoError \<and>
     msg_queries m = [] \<and> msg_answers m = [] \<and> msg_name_servers m = [] \<and>
     msg_additionals m = [] \<and> msg_edns m = None"

text \<open>The record type of a record's data is the one its variant names.\<close>

definition rdata_types :: "'n hickory \<Rightarrow> bool" where
  "rdata_types H \<longleftrightarrow>
     (\<forall>a. rdata_type H (RD_A a) = RT_A) \<and>
     (\<forall>a. rdata_type H (RD_AAAA a) = RT_AAAA) \<and>
     (\<forall>n. rdata_type H (RD_NS n) = RT_NS) \<and>
     (\<forall>m r s f t e i. rdata_type H (RD_SOA m r s f t e i) = RT_SOA) \<and>
     (\<forall>n. rdata_type H (RD_CNAME n) = RT_CNAME) \<and>
     (\<forall>t a l ot ex ic k n s. rdata_type H (RD_DNSSEC (SIG t a l ot ex ic k n s)) = RT_SIG)"

end
