(* ===== verification/Sample.thy ===== *)
theory Sample
  imports Dns_Data "HOL-Library.List_Lexorder" "HOL-Library.Char_ord"
begin

text \<open>
  One concrete instance of the external functions, on which the examples of the development are
  evaluated: a name is the list of its labels, compared without regard to letter case. It
  satisfies every hypothesis the theorems make about the external crates, so none of them is
  vacuous. It stands for no code and nothing depends on its details.
\<close>

section \<open>Names\<close>

definition lower :: "char \<Rightarrow> char" where
  "lower c = (if 65 \<le> code c \<and> code c \<le> 90 then char_of (code c + 32) else c)"

definition sample_key :: "string list \<Rightarrow> string" where
  "sample_key ls = concat (map (\<lambda>l. map lower l @ ''.'') (rev ls))"

fun split_dots :: "string \<Rightarrow> string \<Rightarrow> string list" where
  "split_dots [] w = [w]"
| "split_dots (c # cs) w = (if c = CHR ''.'' then w # split_dots cs [] else split_dots cs (w @ [c]))"

definition sample_from_str :: "string \<Rightarrow> string list option" where
  "sample_from_str s =
     (if s = ''.'' then Some []
      else let ls = split_dots s []; ls' = (if last ls = [] then butlast ls else ls)
           in if [] \<in> set ls' then None else Some ls')"

definition sample_zone_of :: "string list \<Rightarrow> string list \<Rightarrow> bool" where
  "sample_zone_of a b \<longleftrightarrow>
     length a \<le> length b \<and> drop (length b - length a) (map (map lower) b) = map (map lower) a"

definition sample_display :: "string list \<Rightarrow> string" where
  "sample_display ls = (if ls = [] then ''.'' else concat (map (\<lambda>l. l @ ''.'') ls))"

section \<open>Record types and data\<close>

fun rtype_number :: "record_type \<Rightarrow> nat" where
  "rtype_number RT_A = 1"
| "rtype_number RT_NS = 2"
| "rtype_number RT_CNAME = 5"
| "rtype_number RT_SOA = 6"
| "rtype_number RT_PTR = 12"
| "rtype_number RT_MX = 15"
| "rtype_number RT_TXT = 16"
| "rtype_number RT_SIG = 24"
| "rtype_number RT_AAAA = 28"
| "rtype_number RT_SRV = 33"
| "rtype_number RT_NAPTR = 35"
| "rtype_number RT_DS = 43"
| "rtype_number RT_SSHFP = 44"
| "rtype_number RT_RRSIG = 46"
| "rtype_number RT_NSEC = 47"
| "rtype_number RT_DNSKEY = 48"
| "rtype_number RT_TLSA = 52"
| "rtype_number RT_AXFR = 252"
| "rtype_number RT_CAA = 257"
| "rtype_number (RT_other w) = 1000 + unat w"

fun sample_rdata_type :: "'n rdata \<Rightarrow> record_type" where
  "sample_rdata_type (RD_A _) = RT_A"
| "sample_rdata_type (RD_AAAA _) = RT_AAAA"
| "sample_rdata_type (RD_NS _) = RT_NS"
| "sample_rdata_type (RD_SOA _ _ _ _ _ _ _) = RT_SOA"
| "sample_rdata_type (RD_CNAME _) = RT_CNAME"
| "sample_rdata_type (RD_MX _ _) = RT_MX"
| "sample_rdata_type (RD_TXT _) = RT_TXT"
| "sample_rdata_type (RD_PTR _) = RT_PTR"
| "sample_rdata_type (RD_SRV _ _ _ _) = RT_SRV"
| "sample_rdata_type (RD_CAA _ _) = RT_CAA"
| "sample_rdata_type (RD_DNSSEC (DNSKEY _ _ _ _ _)) = RT_DNSKEY"
| "sample_rdata_type (RD_DNSSEC (SIG _ _ _ _ _ _ _ _ _)) = RT_SIG"
| "sample_rdata_type (RD_DNSSEC (NSEC _ _)) = RT_NSEC"
| "sample_rdata_type (RD_DNSSEC (DS _ _ _ _)) = RT_DS"
| "sample_rdata_type (RD_NAPTR _ _ _ _ _ _) = RT_NAPTR"
| "sample_rdata_type (RD_TLSA _ _ _ _) = RT_TLSA"
| "sample_rdata_type (RD_SSHFP _ _ _) = RT_SSHFP"
| "sample_rdata_type (RD_other w) = RT_other w"

definition sample_rtype_from_str :: "string \<Rightarrow> record_type option" where
  "sample_rtype_from_str s =
     map_of [(''A'', RT_A), (''NS'', RT_NS), (''SOA'', RT_SOA), (''MX'', RT_MX),
             (''RRSIG'', RT_RRSIG), (''NSEC'', RT_NSEC), (''DNSKEY'', RT_DNSKEY)] s"

definition sample_algorithm :: "u8 \<Rightarrow> algorithm" where
  "sample_algorithm n =
     (if n = 8 then RSASHA256 else if n = 13 then ECDSAP256SHA256 else Algorithm_other n)"

fun sample_algorithm_number :: "algorithm \<Rightarrow> u8" where
  "sample_algorithm_number RSASHA256 = 8"
| "sample_algorithm_number ECDSAP256SHA256 = 13"
| "sample_algorithm_number (Algorithm_other n) = n"

definition sample_digest_type :: "u8 \<Rightarrow> digest_type option" where
  "sample_digest_type n =
     (if n = 2 then Some SHA256 else if n = 4 then Some SHA384 else if n = 5 then Some SHA512
      else if n = 1 then Some (DigestType_other 1) else None)"

definition sample_flags :: "bool \<Rightarrow> bool \<Rightarrow> bool \<Rightarrow> u16" where
  "sample_flags z s r = (if z then 256 else 0) + (if s then 1 else 0) + (if r then 128 else 0)"

section \<open>Messages\<close>

definition sample_message :: "string list message" where
  "sample_message =
     \<lparr>msg_id = 0, msg_type = MT_Query, msg_op_code = OP_Query, msg_authoritative = False,
      msg_truncated = False, msg_recursion_desired = False, msg_recursion_available = False,
      msg_response_code = NoError, msg_queries = [], msg_answers = [], msg_name_servers = [],
      msg_additionals = [], msg_edns = None\<rparr>"

text \<open>
  An encoding of 12 bytes of header (the identifier first) and 16 bytes per record; a decoded
  message has no records.
\<close>

definition sample_to_bytes :: "string list message \<Rightarrow> bytes option" where
  "sample_to_bytes m =
     Some (to_be_bytes (msg_id m) @
       replicate (10 + 16 * (length (msg_queries m) + length (msg_answers m) +
         length (msg_name_servers m) + length (msg_additionals m))) 0)"

definition sample_from_bytes :: "bytes \<Rightarrow> string list message option" where
  "sample_from_bytes bs =
     (case bs of hi # lo # _ \<Rightarrow> if length bs < 12 then None
        else Some (sample_message\<lparr>msg_id := from_be_bytes hi lo\<rparr>) | _ \<Rightarrow> None)"

section \<open>The instance\<close>

definition sample :: "string list hickory" where
  "sample =
     \<lparr>name_key = sample_key, name_lt = (\<lambda>a b. sample_key a < sample_key b),
      name_from_str = sample_from_str, name_from_labels = Some, name_iter = (\<lambda>ls. ls),
      name_zone_of = sample_zone_of,
      name_num_labels = (\<lambda>ls. word_of_nat (length (filter (\<lambda>l. l \<noteq> ''*'') ls))),
      name_display = sample_display, name_root = [], name_to_lowercase = map (map lower),
      name_to_bytes = (\<lambda>ls. Some (concat (map (\<lambda>l. word_of_nat (length l) # map of_char l) ls) @ [0])),
      rtype_from_str = sample_rtype_from_str,
      rtype_lt = (\<lambda>a b. rtype_number a < rtype_number b),
      rdata_type = sample_rdata_type, algorithm_from_u8 = sample_algorithm,
      algorithm_to_u8 = sample_algorithm_number, digest_type_from_u8 = sample_digest_type,
      dnskey_flags = sample_flags, message_new = sample_message,
      edns_new = \<lparr>max_payload = 512, edns_version = 0, dnssec_ok = False\<rparr>,
      message_from_bytes = sample_from_bytes, message_to_bytes = sample_to_bytes\<rparr>"

fun sample_hex :: "string \<Rightarrow> bytes option" where
  "sample_hex [] = Some []"
| "sample_hex [c] = None"
| "sample_hex (a # b # cs) =
     (case (to_digit 16 a, to_digit 16 b, sample_hex cs) of
        (Some x, Some y, Some bs) \<Rightarrow> Some (word_of_nat (16 * x + y) # bs) | _ \<Rightarrow> None)"

definition sample_codecs :: codecs where
  "sample_codecs =
     \<lparr>base64_decode = (\<lambda>s. if CHR ''!'' \<in> set s then None else Some (map of_char s)),
      hex_decode = sample_hex, sha256 = take 32, sha384 = take 48, sha512 = take 64\<rparr>"

lemma sample_simps [simp]:
  "name_key sample = sample_key"
  "name_from_str sample = sample_from_str"
  "name_from_labels sample = Some"
  "name_iter sample = (\<lambda>ls. ls)"
  "name_zone_of sample = sample_zone_of"
  "name_num_labels sample = (\<lambda>ls. word_of_nat (length (filter (\<lambda>l. l \<noteq> ''*'') ls)))"
  "name_display sample = sample_display"
  "rdata_type sample = sample_rdata_type"
  "rtype_from_str sample = sample_rtype_from_str"
  "message_new sample = sample_message"
  "message_from_bytes sample = sample_from_bytes"
  "message_to_bytes sample = sample_to_bytes"
  by (simp_all add: sample_def)

lemma sample_name_order: "name_order sample"
  by (auto simp: name_order_def name_eq_def sample_def)

lemma rtype_number_inj: "rtype_number a = rtype_number b \<Longrightarrow> a = b"
  by (cases a; cases b) (auto simp: word_unat_eq_iff)

lemma sample_rtype_order: "rtype_order sample"
  by (auto simp: rtype_order_def sample_def dest: rtype_number_inj)
     (meson linorder_neqE_nat rtype_number_inj)

lemma sample_fresh: "fresh_message (message_new sample)"
  by (simp add: fresh_message_def sample_message_def)

lemma sample_rdata_types: "rdata_types sample"
  by (simp add: rdata_types_def)

end
