(* ===== verification/Zone.thy ===== *)
theory Zone
  imports Sample
begin

text \<open>
  \<open>src/zone.rs\<close>, the in-memory part: a \<open>Zone\<close> with its two-level record map, the exact and
  wildcard lookups, the record list of a zone transfer, and the \<open>ZoneStore\<close> that finds the zone
  responsible for a name. The interface the query processor relies on is the locale
  \<open>zone_interface\<close>; zones refine the list of records they were built from.
\<close>

section \<open>State and operations\<close>

record 'n soa_record =
  mname :: 'n
  rname :: 'n
  serial :: u32
  refresh :: i32
  retry :: i32
  expire :: i32
  minimum :: u32

type_synonym 'n type_map = "(record_type, 'n rr list) hash_map"

record 'n zone =
  zone_origin :: 'n
  zone_soa :: "'n soa_record"
  zone_records :: "('n, 'n type_map) hash_map"

definition zone_new :: "'n \<Rightarrow> 'n soa_record \<Rightarrow> 'n zone" where
  "zone_new origin soa = \<lparr>zone_origin = origin, zone_soa = soa, zone_records = []\<rparr>"

definition add_record :: "'n hickory \<Rightarrow> 'n zone \<Rightarrow> 'n rr \<Rightarrow> 'n zone" where
  "add_record H z r =
     (let name = rr_name r; rtype = rr_type r in
      z\<lparr>zone_records :=
          hm_upsert (name_key H) (zone_records z) name []
            (\<lambda>type_map. hm_upsert (\<lambda>t. t) type_map rtype [] (\<lambda>rs. rs @ [r]))\<rparr>)"

definition zone_lookup :: "'n hickory \<Rightarrow> 'n zone \<Rightarrow> 'n \<Rightarrow> record_type \<Rightarrow> 'n rr list option" where
  "zone_lookup H z n t =
     (case hm_get (name_key H) (zone_records z) n of
        None \<Rightarrow> None
      | Some type_map \<Rightarrow> hm_get (\<lambda>t. t) type_map t)"

definition contains_name :: "'n hickory \<Rightarrow> 'n zone \<Rightarrow> 'n \<Rightarrow> bool" where
  "contains_name H z n \<longleftrightarrow> hm_contains_key (name_key H) (zone_records z) n"

text \<open>The loop of \<open>lookup_wildcard\<close> over the values of \<open>skip\<close> still to be tried.\<close>

fun wildcard_loop ::
  "'n hickory \<Rightarrow> 'n zone \<Rightarrow> record_type \<Rightarrow> string list \<Rightarrow> nat list \<Rightarrow> 'n rr list option" where
  "wildcard_loop H z t labels [] = None"
| "wildcard_loop H z t labels (skip # skips) =
     (case name_from_labels H (''*'' # drop skip labels) of
        None \<Rightarrow> wildcard_loop H z t labels skips
      | Some wildcard_name \<Rightarrow>
          (case zone_lookup H z wildcard_name t of
             Some rs \<Rightarrow> Some rs
           | None \<Rightarrow> wildcard_loop H z t labels skips))"

definition lookup_wildcard :: "'n hickory \<Rightarrow> 'n zone \<Rightarrow> 'n \<Rightarrow> record_type \<Rightarrow> 'n rr list option" where
  "lookup_wildcard H z n t =
     (let labels = name_iter H n in wildcard_loop H z t labels [1..<length labels])"

definition get_soa_record :: "'n hickory \<Rightarrow> 'n zone \<Rightarrow> 'n rr" where
  "get_soa_record H z =
     (let soa = zone_soa z in
      from_rdata H (zone_origin z) (minimum soa)
        (RD_SOA (mname soa) (rname soa) (serial soa) (refresh soa) (retry soa) (expire soa)
           (minimum soa)))"

definition axfr_block :: "'n type_map \<Rightarrow> record_type \<Rightarrow> 'n rr list" where
  "axfr_block type_map t =
     (if t = RT_SOA then []
      else case hm_get (\<lambda>t. t) type_map t of None \<Rightarrow> [] | Some rs \<Rightarrow> rs)"

definition axfr_types :: "'n hickory \<Rightarrow> 'n type_map \<Rightarrow> 'n rr list" where
  "axfr_types H type_map =
     concat (map (axfr_block type_map)
       (sort_by (\<lambda>a b. \<not> rtype_lt H b a) (map fst type_map)))"

definition get_all_records :: "'n hickory \<Rightarrow> 'n zone \<Rightarrow> 'n rr list" where
  "get_all_records H z =
     [get_soa_record H z] @
     concat (map (\<lambda>n. case hm_get (name_key H) (zone_records z) n of
                        None \<Rightarrow> [] | Some type_map \<Rightarrow> axfr_types H type_map)
       (sort_by (\<lambda>a b. \<not> name_lt H b a) (map fst (zone_records z)))) @
     [get_soa_record H z]"

record 'n zone_store =
  zones :: "('n, 'n zone) hash_map"

definition zone_store_new :: "'n zone_store" where
  "zone_store_new = \<lparr>zones = []\<rparr>"

definition add_zone :: "'n hickory \<Rightarrow> 'n zone_store \<Rightarrow> 'n zone \<Rightarrow> 'n zone_store" where
  "add_zone H st z = st\<lparr>zones := hm_insert (name_key H) (zones st) (zone_origin z) z\<rparr>"

text \<open>The loop of \<open>find_zone\<close> with its two variables.\<close>

fun best_match_loop ::
  "'n hickory \<Rightarrow> 'n \<Rightarrow> 'n zone list \<Rightarrow> 'n zone option \<Rightarrow> u8 \<Rightarrow> 'n zone option" where
  "best_match_loop H n [] best_match best_match_labels = best_match"
| "best_match_loop H n (z # zs) best_match best_match_labels =
     (if name_zone_of H (zone_origin z) n then
        (let labels = name_num_labels H (zone_origin z) in
         if best_match_labels < labels then best_match_loop H n zs (Some z) labels
         else best_match_loop H n zs best_match best_match_labels)
      else best_match_loop H n zs best_match best_match_labels)"

definition find_zone :: "'n hickory \<Rightarrow> 'n zone_store \<Rightarrow> 'n \<Rightarrow> 'n zone option" where
  "find_zone H st n =
     (case hm_get (name_key H) (zones st) n of
        Some z \<Rightarrow> Some z
      | None \<Rightarrow> best_match_loop H n (map snd (zones st)) None 0)"

section \<open>Well-formed zones and the lookup interface\<close>

text \<open>
  Every record is filed under its own name and type, no entry is empty, and the maps have one
  entry per key.
\<close>

definition wf_type_map :: "'n hickory \<Rightarrow> 'n \<Rightarrow> 'n type_map \<Rightarrow> bool" where
  "wf_type_map H n tm \<longleftrightarrow>
     tm \<noteq> [] \<and> hm_wf (\<lambda>t. t) tm \<and>
     (\<forall>(t, rs) \<in> set tm. rs \<noteq> [] \<and> (\<forall>r \<in> set rs. name_eq H (rr_name r) n \<and> rr_type r = t))"

definition wf_zone :: "'n hickory \<Rightarrow> 'n zone \<Rightarrow> bool" where
  "wf_zone H z \<longleftrightarrow>
     hm_wf (name_key H) (zone_records z) \<and> (\<forall>(n, tm) \<in> set (zone_records z). wf_type_map H n tm)"

lemma wf_zone_new [simp]: "wf_zone H (zone_new origin soa)"
  by (simp add: wf_zone_def zone_new_def)

lemma wf_type_map_push:
  assumes "wf_type_map H n tm \<or> tm = []" and "name_eq H (rr_name r) n"
  shows "wf_type_map H n (hm_upsert (\<lambda>t. t) tm (rr_type r) [] (\<lambda>rs. rs @ [r]))"
proof -
  have wf: "hm_wf (\<lambda>t. t) tm" using assms(1) by (auto simp: wf_type_map_def)
  have "rs \<noteq> [] \<and> (\<forall>x \<in> set rs. name_eq H (rr_name x) n \<and> rr_type x = t)"
    if "(t, rs) \<in> set (hm_upsert (\<lambda>t. t) tm (rr_type r) [] (\<lambda>rs. rs @ [r]))" for t rs
    using hm_upsert_in [OF that] assms by (fastforce simp: wf_type_map_def)
  with wf show ?thesis by (auto simp: wf_type_map_def hm_simps)
qed

lemma wf_zone_add_record: "wf_zone H z \<Longrightarrow> wf_zone H (add_record H z r)"
proof -
  assume wf: "wf_zone H z"
  let ?g = "\<lambda>tm. hm_upsert (\<lambda>t. t) tm (rr_type r) [] (\<lambda>rs. rs @ [r])"
  have "wf_type_map H n tm"
    if "(n, tm) \<in> set (hm_upsert (name_key H) (zone_records z) (rr_name r) [] ?g)" for n tm
    using hm_upsert_in [OF that] wf
    by (fastforce simp: wf_zone_def name_eq_def intro: wf_type_map_push)
  with wf show ?thesis by (auto simp: wf_zone_def add_record_def Let_def hm_simps)
qed

text \<open>What a client of a zone relies on.\<close>

locale zone_interface =
  fixes wf :: "'z \<Rightarrow> bool"
    and owner_eq :: "'n \<Rightarrow> 'n \<Rightarrow> bool"
    and has_name :: "'z \<Rightarrow> 'n \<Rightarrow> bool"
    and rrset :: "'z \<Rightarrow> 'n \<Rightarrow> record_type \<Rightarrow> 'n rr list option"
  assumes rrset_name: "rrset z n t = Some rs \<Longrightarrow> has_name z n"
    and rrset_nonempty: "wf z \<Longrightarrow> rrset z n t = Some rs \<Longrightarrow> rs \<noteq> []"
    and rrset_type: "wf z \<Longrightarrow> rrset z n t = Some rs \<Longrightarrow> r \<in> set rs \<Longrightarrow> rr_type r = t"
    and rrset_owner: "wf z \<Longrightarrow> rrset z n t = Some rs \<Longrightarrow> r \<in> set rs \<Longrightarrow> owner_eq (rr_name r) n"
    and name_rrset: "wf z \<Longrightarrow> has_name z n \<Longrightarrow> \<exists>t rs. rrset z n t = Some rs"
begin

lemma has_name_iff: "wf z \<Longrightarrow> has_name z n \<longleftrightarrow> (\<exists>t. rrset z n t \<noteq> None)"
  by (auto dest: rrset_name name_rrset)

lemma no_name_no_rrset: "\<not> has_name z n \<Longrightarrow> rrset z n t = None"
  using rrset_name by (cases "rrset z n t") auto

lemma rrset_hd: "wf z \<Longrightarrow> rrset z n t = Some rs \<Longrightarrow> owner_eq (rr_name (hd rs)) n \<and> rr_type (hd rs) = t"
  using rrset_nonempty rrset_owner rrset_type by (meson hd_in_set)

end

lemma zone_lookup_entry:
  assumes "wf_zone H z" and "zone_lookup H z n t = Some rs"
  shows "rs \<noteq> [] \<and> (\<forall>r \<in> set rs. rr_type r = t \<and> name_eq H (rr_name r) n)"
proof -
  from assms(2) obtain tm where tm: "hm_get (name_key H) (zone_records z) n = Some tm"
    and rs: "hm_get (\<lambda>t. t) tm t = Some rs"
    by (auto simp: zone_lookup_def split: option.splits)
  from tm obtain n' where n': "(n', tm) \<in> set (zone_records z)" "name_eq H n' n"
    by (auto dest!: hm_get_Some_in simp: name_eq_def)
  with assms(1) have "wf_type_map H n' tm" by (auto simp: wf_zone_def)
  moreover from rs have "(t, rs) \<in> set tm" by (auto dest!: hm_get_Some_in)
  ultimately show ?thesis using n'(2) by (auto simp: wf_type_map_def name_eq_def)
qed

lemma contains_name_lookup:
  assumes "wf_zone H z" and "contains_name H z n"
  shows "\<exists>t rs. zone_lookup H z n t = Some rs"
proof -
  from assms(2) obtain tm where tm: "hm_get (name_key H) (zone_records z) n = Some tm"
    by (auto simp: contains_name_def hm_contains_key_def)
  then obtain n' where "(n', tm) \<in> set (zone_records z)" by (blast dest: hm_get_Some_in)
  with assms(1) have "wf_type_map H n' tm" by (auto simp: wf_zone_def)
  then obtain t rs rest where "tm = (t, rs) # rest"
    by (cases tm) (auto simp: wf_type_map_def)
  with tm show ?thesis by (auto simp: zone_lookup_def intro!: exI [of _ t])
qed

interpretation zi: zone_interface "wf_zone H" "name_eq H" "contains_name H" "zone_lookup H"
  for H :: "'n hickory"
proof unfold_locales
  show "zone_lookup H z n t = Some rs \<Longrightarrow> contains_name H z n" for z :: "'n zone" and n t rs
    by (auto simp: zone_lookup_def contains_name_def hm_contains_key_def split: option.splits)
qed (auto dest: zone_lookup_entry contains_name_lookup)

section \<open>A zone refines its list of records\<close>

definition zone_of_records :: "'n hickory \<Rightarrow> 'n \<Rightarrow> 'n soa_record \<Rightarrow> 'n rr list \<Rightarrow> 'n zone" where
  "zone_of_records H origin soa rs = foldl (add_record H) (zone_new origin soa) rs"

definition rrset_of :: "'n hickory \<Rightarrow> 'n \<Rightarrow> record_type \<Rightarrow> 'n rr list \<Rightarrow> 'n rr list" where
  "rrset_of H n t rs = filter (\<lambda>r. name_eq H (rr_name r) n \<and> rr_type r = t) rs"

lemma foldl_add_record:
  "zone_records (foldl (add_record H) z rs) =
     fold (\<lambda>r m. hm_upsert (name_key H) m (rr_name r) []
       (\<lambda>tm. hm_upsert (\<lambda>t. t) tm (rr_type r) [] (\<lambda>l. l @ [r]))) rs (zone_records z)"
  by (induction rs arbitrary: z) (simp_all add: add_record_def Let_def)

lemma foldl_add_record_frame:
  "zone_origin (foldl (add_record H) z rs) = zone_origin z"
  "zone_soa (foldl (add_record H) z rs) = zone_soa z"
  by (induction rs arbitrary: z) (simp_all add: add_record_def Let_def)

lemma fold_push: "fold (\<lambda>x l. l @ [x]) ys d = d @ ys"
  by (induction ys arbitrary: d) auto

lemma type_map_fold:
  "hm_get (\<lambda>t. t) (fold (\<lambda>r tm. hm_upsert (\<lambda>t. t) tm (rr_type r) [] (\<lambda>l. l @ [r])) ys []) t =
    (let zs = filter (\<lambda>r. rr_type r = t) ys in if zs = [] then None else Some zs)"
  by (simp add: hm.get_fold_upsert_empty [where g = "\<lambda>r l. l @ [r]"] fold_push Let_def)

lemma zone_get_fold:
  "hm_get (name_key H) (zone_records (zone_of_records H origin soa rs)) n =
    (let ys = filter (\<lambda>r. name_eq H (rr_name r) n) rs in
     if ys = [] then None
     else Some (fold (\<lambda>r tm. hm_upsert (\<lambda>t. t) tm (rr_type r) [] (\<lambda>l. l @ [r])) ys []))"
  by (simp add: zone_of_records_def foldl_add_record zone_new_def name_eq_def
      hm.get_fold_upsert_empty [where g = "\<lambda>r tm. hm_upsert (\<lambda>t. t) tm (rr_type r) [] (\<lambda>l. l @ [r])"])

lemma lookup_zone_of_records:
  "zone_lookup H (zone_of_records H origin soa rs) n t =
    (if rrset_of H n t rs = [] then None else Some (rrset_of H n t rs))"
  by (auto simp: zone_lookup_def zone_get_fold Let_def type_map_fold rrset_of_def filter_empty_conv
      conj_commute split: option.splits)

lemma contains_zone_of_records:
  "contains_name H (zone_of_records H origin soa rs) n \<longleftrightarrow> (\<exists>r \<in> set rs. name_eq H (rr_name r) n)"
  by (auto simp: contains_name_def hm_contains_key_def zone_get_fold Let_def filter_empty_conv)

lemma wf_zone_of_records: "wf_zone H (zone_of_records H origin soa rs)"
proof -
  have "wf_zone H z \<Longrightarrow> wf_zone H (foldl (add_record H) z rs)" for z
    by (induction rs arbitrary: z) (auto intro: wf_zone_add_record)
  then show ?thesis by (simp add: zone_of_records_def)
qed

lemma zone_of_records_frame [simp]:
  "zone_origin (zone_of_records H origin soa rs) = origin"
  "zone_soa (zone_of_records H origin soa rs) = soa"
  by (simp_all add: zone_of_records_def foldl_add_record_frame zone_new_def)

section \<open>Zone transfers\<close>

definition all_records :: "'n zone \<Rightarrow> 'n rr multiset" where
  "all_records z = (\<Sum>(n, tm) \<in># mset (zone_records z). \<Sum>(t, rs) \<in># mset tm. mset rs)"

lemma axfr_types_mset:
  assumes "wf_type_map H n tm"
  shows "mset (axfr_types H tm) = filter_mset (\<lambda>r. rr_type r \<noteq> RT_SOA) (\<Sum>(t, rs) \<in># mset tm. mset rs)"
proof -
  have "mset (axfr_types H tm) = (\<Sum>(t, rs) \<in># mset tm. mset (if t = RT_SOA then [] else rs))"
    unfolding axfr_types_def using assms
    by (subst mset_concat_sorted_entries [symmetric, where le = "\<lambda>a b. \<not> rtype_lt H b a" and key = "\<lambda>t. t"])
       (auto simp: wf_type_map_def axfr_block_def intro!: arg_cong [where f = mset]
         arg_cong [where f = concat] map_cong split: option.splits)
  also have "\<dots> = (\<Sum>(t, rs) \<in># mset tm. filter_mset (\<lambda>r. rr_type r \<noteq> RT_SOA) (mset rs))"
  proof -
    have "(if t = RT_SOA then [] else rs) = filter (\<lambda>r. rr_type r \<noteq> RT_SOA) rs"
      if "(t, rs) \<in> set tm" for t rs
      using assms that by (auto simp: wf_type_map_def filter_empty_conv filter_id_conv)
    then show ?thesis
      by (intro arg_cong [where f = sum_mset] image_mset_cong) (auto simp flip: mset_filter)
  qed
  also have "\<dots> = filter_mset (\<lambda>r. rr_type r \<noteq> RT_SOA) (\<Sum>(t, rs) \<in># mset tm. mset rs)"
    by (simp add: filter_mset_sum_mset case_prod_unfold)
  finally show ?thesis .
qed

definition axfr_middle :: "'n hickory \<Rightarrow> 'n zone \<Rightarrow> 'n rr list" where
  "axfr_middle H z = butlast (tl (get_all_records H z))"

lemma get_all_records_shape:
  "get_all_records H z = get_soa_record H z # axfr_middle H z @ [get_soa_record H z]"
  by (simp add: axfr_middle_def get_all_records_def butlast_append)

lemma axfr_middle_eq:
  "axfr_middle H z =
     concat (map (\<lambda>n. case hm_get (name_key H) (zone_records z) n of
                        None \<Rightarrow> [] | Some tm \<Rightarrow> axfr_types H tm)
       (sort_by (\<lambda>a b. \<not> name_lt H b a) (map fst (zone_records z))))"
  by (simp add: axfr_middle_def get_all_records_def butlast_append)

lemma axfr_middle_mset:
  assumes "wf_zone H z"
  shows "mset (axfr_middle H z) = filter_mset (\<lambda>r. rr_type r \<noteq> RT_SOA) (all_records z)"
proof -
  have "mset (axfr_middle H z) = (\<Sum>(n, tm) \<in># mset (zone_records z). mset (axfr_types H tm))"
    unfolding axfr_middle_eq using assms
    by (subst mset_concat_sorted_entries) (auto simp: wf_zone_def)
  also have "\<dots> = (\<Sum>(n, tm) \<in># mset (zone_records z).
      filter_mset (\<lambda>r. rr_type r \<noteq> RT_SOA) (\<Sum>(t, rs) \<in># mset tm. mset rs))"
    using assms
    by (intro arg_cong [where f = sum_mset] image_mset_cong)
       (auto simp: wf_zone_def intro: axfr_types_mset)
  also have "\<dots> = filter_mset (\<lambda>r. rr_type r \<noteq> RT_SOA) (all_records z)"
    by (simp add: all_records_def filter_mset_sum_mset case_prod_unfold)
  finally show ?thesis .
qed

text \<open>A record added to a zone is in its transfer, and nothing else is.\<close>

lemma sum_type_map_upsert:
  "(\<Sum>(t, rs) \<in># mset (hm_upsert (\<lambda>t. t) tm t [] (\<lambda>rs. rs @ [r])). mset rs) =
     add_mset r (\<Sum>(t, rs) \<in># mset tm. mset rs)"
  by (induction tm) (auto split: prod.splits)

lemma all_records_add: "all_records (add_record H z r) = add_mset r (all_records z)"
proof -
  have "(\<Sum>(n, tm) \<in># mset (hm_upsert (name_key H) m (rr_name r) []
           (\<lambda>tm. hm_upsert (\<lambda>t. t) tm (rr_type r) [] (\<lambda>rs. rs @ [r]))). \<Sum>(t, rs) \<in># mset tm. mset rs) =
        add_mset r (\<Sum>(n, tm) \<in># mset m. \<Sum>(t, rs) \<in># mset tm. mset rs)" for m
    by (induction m) (auto simp: sum_type_map_upsert split: prod.splits)
  then show ?thesis by (simp add: all_records_def add_record_def Let_def)
qed

lemma all_records_zone_of_records: "all_records (zone_of_records H origin soa rs) = mset rs"
proof -
  have "all_records (foldl (add_record H) z rs) = all_records z + mset rs" for z
    by (induction rs arbitrary: z) (auto simp: all_records_add)
  then show ?thesis by (simp add: zone_of_records_def all_records_def zone_new_def)
qed

section \<open>Order of a transfer\<close>

definition axfr_le :: "'n hickory \<Rightarrow> 'n rr \<Rightarrow> 'n rr \<Rightarrow> bool" where
  "axfr_le H a b \<longleftrightarrow>
     name_lt H (rr_name a) (rr_name b) \<or>
     name_eq H (rr_name a) (rr_name b) \<and> \<not> rtype_lt H (rr_type b) (rr_type a)"

lemma name_order_cong:
  assumes "name_order H" and "name_eq H a a'" and "name_eq H b b'"
  shows "name_lt H a b \<longleftrightarrow> name_lt H a' b'"
  using assms unfolding name_order_def by (smt (verit) name_eq_def)

lemma name_order_total:
  "name_order H \<Longrightarrow> name_key H a \<noteq> name_key H b \<Longrightarrow> \<not> name_lt H b a \<Longrightarrow> name_lt H a b"
  unfolding name_order_def name_eq_def by blast

lemma sorted_names:
  assumes "name_order H"
  shows "sorted_wrt (\<lambda>a b. \<not> name_lt H b a) (sort_by (\<lambda>a b. \<not> name_lt H b a) ns)"
  using assms unfolding name_order_def by (intro sorted_sort_by) (metis name_eq_def)+

lemma sorted_types:
  assumes "rtype_order H"
  shows "sorted_wrt (\<lambda>a b. \<not> rtype_lt H b a) (sort_by (\<lambda>a b. \<not> rtype_lt H b a) ts)"
  using assms unfolding rtype_order_def by (intro sorted_sort_by) metis+

lemma sorted_names_strict:
  assumes "name_order H" and "hm_wf (name_key H) m"
  shows "sorted_wrt (name_lt H) (sort_by (\<lambda>a b. \<not> name_lt H b a) (map fst m))"
proof -
  have strict: "sorted_wrt (\<lambda>a b. \<not> name_lt H b a) ns \<Longrightarrow> distinct (map (name_key H) ns) \<Longrightarrow>
      sorted_wrt (name_lt H) ns" for ns
    using name_order_total [OF assms(1)] by (induction ns) auto
  have "distinct (map (name_key H) (sort_by (\<lambda>a b. \<not> name_lt H b a) (map fst m)))"
  proof -
    have "mset (map (name_key H) (sort_by (\<lambda>a b. \<not> name_lt H b a) (map fst m))) =
        mset (map (name_key H \<circ> fst) m)"
      by (simp add: image_mset.compositionality)
    with assms(2) show ?thesis unfolding hm_wf_def by (metis mset_eq_imp_distinct_iff)
  qed
  with sorted_names [OF assms(1)] show ?thesis by (rule strict)
qed

lemma wf_type_map_entry:
  assumes "wf_type_map H n tm" and "hm_get (\<lambda>t. t) tm t = Some rs" and "r \<in> set rs"
  shows "name_eq H (rr_name r) n" and "rr_type r = t"
  using assms hm_get_Some_in [OF assms(2)] by (auto simp: wf_type_map_def)

lemma axfr_block_entry:
  assumes "wf_type_map H n tm" and "r \<in> set (axfr_block tm t)"
  shows "name_eq H (rr_name r) n \<and> rr_type r = t"
proof -
  from assms(2) obtain rs where "hm_get (\<lambda>t. t) tm t = Some rs" and "r \<in> set rs"
    by (cases "hm_get (\<lambda>t. t) tm t") (auto simp: axfr_block_def split: if_splits)
  with assms(1) show ?thesis by (auto dest: wf_type_map_entry)
qed

lemma axfr_types_in:
  assumes "wf_type_map H n tm" and "r \<in> set (axfr_types H tm)"
  shows "name_eq H (rr_name r) n"
  using assms axfr_block_entry by (fastforce simp: axfr_types_def)

lemma sorted_wrt_all: "\<forall>x \<in> set xs. \<forall>y \<in> set xs. P x y \<Longrightarrow> sorted_wrt P xs"
  by (induction xs) auto

lemma axfr_types_sorted:
  assumes "wf_type_map H n tm" and "rtype_order H"
  shows "sorted_wrt (axfr_le H) (axfr_types H tm)"
  unfolding axfr_types_def
proof (rule sorted_wrt_concat_map [OF sorted_types [OF assms(2)]])
  note entry = axfr_block_entry [OF assms(1)]
  have irr: "\<not> rtype_lt H t t" for t
    using assms(2) unfolding rtype_order_def by blast
  show le: "axfr_le H x y"
    if "\<not> rtype_lt H b a" "x \<in> set (axfr_block tm a)" "y \<in> set (axfr_block tm b)" for a b x y
    using that(1) entry [OF that(2)] entry [OF that(3)] by (simp add: axfr_le_def name_eq_def)
  show "sorted_wrt (axfr_le H) (axfr_block tm t)" for t
    by (rule sorted_wrt_all) (blast intro: le [OF irr])
qed

lemma axfr_middle_sorted:
  assumes "wf_zone H z" and "name_order H" and "rtype_order H"
  shows "sorted_wrt (axfr_le H) (axfr_middle H z)"
  unfolding axfr_middle_eq
proof (rule sorted_wrt_concat_map [OF sorted_names_strict [OF assms(2)]])
  show "hm_wf (name_key H) (zone_records z)" using assms(1) by (simp add: wf_zone_def)
  let ?f = "\<lambda>n. case hm_get (name_key H) (zone_records z) n of
      None \<Rightarrow> [] | Some tm \<Rightarrow> axfr_types H tm"
  have entry: "\<exists>n'. name_eq H n' n \<and> wf_type_map H n' tm"
    if "hm_get (name_key H) (zone_records z) n = Some tm" for n tm
    using assms(1) hm_get_Some_in [OF that] by (auto simp: wf_zone_def name_eq_def)
  show "sorted_wrt (axfr_le H) (?f n)" for n
    using entry assms(3) by (auto split: option.splits intro: axfr_types_sorted)
  have owner: "name_eq H n (rr_name r)" if "r \<in> set (?f n)" for r n
  proof (cases "hm_get (name_key H) (zone_records z) n")
    case (Some tm)
    with entry obtain n' where n': "name_eq H n' n" "wf_type_map H n' tm" by blast
    with Some that have "name_eq H (rr_name r) n'" by (auto intro: axfr_types_in)
    with n'(1) show ?thesis by (simp add: name_eq_def)
  qed (use that in simp)
  show "axfr_le H x y" if "name_lt H a b" "x \<in> set (?f a)" "y \<in> set (?f b)" for a b x y
    using that(1) name_order_cong [OF assms(2) owner [OF that(2)] owner [OF that(3)]]
    by (simp add: axfr_le_def)
qed

section \<open>Finding the zone of a name\<close>

text \<open>A store files every zone under its own origin, once.\<close>

definition wf_store :: "'n hickory \<Rightarrow> 'n zone_store \<Rightarrow> bool" where
  "wf_store H st \<longleftrightarrow>
     hm_wf (name_key H) (zones st) \<and> (\<forall>(n, z) \<in> set (zones st). name_eq H n (zone_origin z))"

definition stored :: "'n zone_store \<Rightarrow> 'n zone set" where
  "stored st = snd ` set (zones st)"

lemma wf_store_new [simp]: "wf_store H zone_store_new"
  by (simp add: wf_store_def zone_store_new_def)

lemma wf_store_add_zone: "wf_store H st \<Longrightarrow> wf_store H (add_zone H st z)"
  by (auto simp: wf_store_def add_zone_def hm_simps hm_insert_def name_eq_def dest!: hm_upsert_in)

lemma wf_store_unique:
  assumes "wf_store H st" and "z \<in> stored st" and "z' \<in> stored st"
    and "name_eq H (zone_origin z) (zone_origin z')"
  shows "z = z'"
proof -
  from assms(2,3) obtain n n' where n: "(n, z) \<in> set (zones st)" "(n', z') \<in> set (zones st)"
    by (auto simp: stored_def)
  with assms(1) have "hm_get (name_key H) (zones st) n = Some z"
    "hm_get (name_key H) (zones st) n' = Some z'"
    by (auto simp: wf_store_def intro: hm_get_in)
  moreover have "name_key H n = name_key H (zone_origin z)" "name_key H n' = name_key H (zone_origin z')"
    using n assms(1) by (auto simp: wf_store_def name_eq_def)
  then have "name_key H n = name_key H n'" using assms(4) by (simp add: name_eq_def)
  ultimately show ?thesis by (metis hm_get_cong option.inject)
qed

lemma store_get_Some:
  assumes "wf_store H st" and "hm_get (name_key H) (zones st) n = Some z"
  shows "z \<in> stored st" and "name_eq H (zone_origin z) n"
  using assms hm_get_Some_in [OF assms(2)] by (force simp: wf_store_def stored_def name_eq_def)+

lemma store_get_None:
  assumes "wf_store H st"
  shows "hm_get (name_key H) (zones st) n = None \<longleftrightarrow> (\<forall>z \<in> stored st. \<not> name_eq H (zone_origin z) n)"
  using assms by (fastforce simp: hm_get_None_iff wf_store_def stored_def name_eq_def)

lemma best_match_loop_None:
  "best_match_loop H n zs b l = None \<longleftrightarrow>
     b = None \<and> (\<forall>z \<in> set zs. name_zone_of H (zone_origin z) n \<longrightarrow>
       \<not> l < name_num_labels H (zone_origin z))"
  by (induction zs arbitrary: b l) (auto simp: Let_def)

lemma best_match_loop_Some:
  "best_match_loop H n zs b l = Some z \<Longrightarrow>
     (b = Some z \<and> (\<forall>z' \<in> set zs. name_zone_of H (zone_origin z') n \<longrightarrow>
        name_num_labels H (zone_origin z') \<le> l)) \<or>
     (z \<in> set zs \<and> name_zone_of H (zone_origin z) n \<and> l < name_num_labels H (zone_origin z) \<and>
        (\<forall>z' \<in> set zs. name_zone_of H (zone_origin z') n \<longrightarrow>
           name_num_labels H (zone_origin z') \<le> name_num_labels H (zone_origin z)))"
  by (induction zs arbitrary: b l) (force simp: Let_def not_less split: if_splits)+

lemma store_loop_Some:
  assumes "best_match_loop H n (map snd (zones st)) None 0 = Some z"
  shows "z \<in> stored st" and "name_zone_of H (zone_origin z) n"
    and "\<And>z'. z' \<in> stored st \<Longrightarrow> name_zone_of H (zone_origin z') n \<Longrightarrow>
      name_num_labels H (zone_origin z') \<le> name_num_labels H (zone_origin z)"
  using best_match_loop_Some [OF assms] by (auto simp: stored_def)

lemma stored_values: "set (map snd (zones st)) = stored st"
  by (simp add: stored_def)

lemma find_zone_exact: "hm_get (name_key H) (zones st) n = Some z \<Longrightarrow> find_zone H st n = Some z"
  by (simp add: find_zone_def)

text \<open>The zones \<open>find_zone\<close> may choose when none has the name itself as its origin.\<close>

definition best_zones :: "'n hickory \<Rightarrow> 'n zone_store \<Rightarrow> 'n \<Rightarrow> 'n zone set" where
  "best_zones H st n =
     {z \<in> stored st. name_zone_of H (zone_origin z) n \<and> 0 < name_num_labels H (zone_origin z) \<and>
        (\<forall>z' \<in> stored st. name_zone_of H (zone_origin z') n \<longrightarrow>
           name_num_labels H (zone_origin z') \<le> name_num_labels H (zone_origin z))}"

lemma best_match_loop_keeps:
  "\<forall>z \<in> set zs. name_zone_of H (zone_origin z) n \<longrightarrow> name_num_labels H (zone_origin z) \<le> l \<Longrightarrow>
     best_match_loop H n zs b l = b"
  by (induction zs) (auto simp: Let_def)

lemma find_zone_first:
  assumes "wf_store H st" and "\<forall>z \<in> stored st. \<not> name_eq H (zone_origin z) n" and "z \<in> best_zones H st n"
  obtains st' where "mset (zones st') = mset (zones st)" and "find_zone H st' n = Some z"
proof -
  from assms(3) have z: "z \<in> stored st" "name_zone_of H (zone_origin z) n" "0 < name_num_labels H (zone_origin z)"
    and best: "\<forall>z' \<in> stored st. name_zone_of H (zone_origin z') n \<longrightarrow>
      name_num_labels H (zone_origin z') \<le> name_num_labels H (zone_origin z)"
    by (auto simp: best_zones_def)
  from z(1) obtain k xs ys where split: "zones st = xs @ (k, z) # ys"
    by (auto simp: stored_def dest!: split_list)
  let ?st = "st\<lparr>zones := (k, z) # xs @ ys\<rparr>"
  have perm: "mset (zones ?st) = mset (zones st)" by (simp add: split)
  have "hm_get (name_key H) (zones ?st) n = hm_get (name_key H) (zones st) n"
    using assms(1) perm by (intro hm_get_perm) (simp_all add: wf_store_def hm_wf_def split)
  also have "\<dots> = None" using assms(2) store_get_None [OF assms(1)] by blast
  finally have "find_zone H ?st n = best_match_loop H n (map snd (zones ?st)) None 0" by (simp add: find_zone_def)
  also have "\<dots> = Some z"
  proof -
    have "\<forall>z' \<in> set (map snd (xs @ ys)). name_zone_of H (zone_origin z') n \<longrightarrow>
        name_num_labels H (zone_origin z') \<le> name_num_labels H (zone_origin z)"
      using best by (auto simp: stored_def split)
    from best_match_loop_keeps [OF this, of "Some z"] z show ?thesis by (simp add: Let_def)
  qed
  finally show ?thesis using that [OF perm] by blast
qed

lemma loop_in_best:
  assumes "best_match_loop H n (map snd (zones st)) None 0 = Some z"
  shows "z \<in> best_zones H st n"
  using store_loop_Some [OF assms] best_match_loop_Some [OF assms] by (auto simp: best_zones_def)

section \<open>Examples\<close>

text \<open>
  The fixture \<open>create_test_zone\<close> of the tests of \<open>src/protocol.rs\<close>, on the sample names.
\<close>

definition example_com :: "string list" where
  "example_com = [''example'', ''com'']"

definition test_soa :: "string list soa_record" where
  "test_soa =
     \<lparr>mname = ''ns1'' # example_com, rname = ''admin'' # example_com, serial = 2025120601,
      refresh = 7200, retry = 3600, expire = 1209600, minimum = 86400\<rparr>"

definition create_test_zone :: "string list zone" where
  "create_test_zone =
     (let origin = example_com;
          zone = zone_new origin test_soa;
          a_record = from_rdata sample (''www'' # example_com) 3600 (RD_A (192, 0, 2, 1));
          zone = add_record sample zone a_record;
          ns_record = from_rdata sample origin 3600 (RD_NS (''ns1'' # example_com))
      in add_record sample zone ns_record)"

definition test_store :: "string list zone_store" where
  "test_store = add_zone sample zone_store_new create_test_zone"

lemma wf_create_test_zone: "wf_zone sample create_test_zone"
  unfolding create_test_zone_def Let_def by (intro wf_zone_add_record wf_zone_new)

lemma wf_test_store: "wf_store sample test_store"
  unfolding test_store_def by (intro wf_store_add_zone wf_store_new)

section \<open>Properties\<close>



text \<open>
  C34. When the order in which the hash map of zones is iterated matters to \<open>find_zone\<close>. The result is
  the same for every order exactly when a zone has the name itself as its origin, or at most one
  zone that encloses the name has the largest number of labels. It does matter otherwise:
  \<open>num_labels\<close> does not count a leading \<open>*\<close>, so that \<open>example.com.\<close> and \<open>*.example.com.\<close> tie.
\<close>

theorem find_zone_order:
  assumes "wf_store H st"
  shows "(\<forall>st'. mset (zones st') = mset (zones st) \<longrightarrow> find_zone H st' n = find_zone H st n) \<longleftrightarrow>
    (\<exists>z \<in> stored st. name_eq H (zone_origin z) n) \<or>
    (\<forall>z z'. z \<in> best_zones H st n \<longrightarrow> z' \<in> best_zones H st n \<longrightarrow> z = z')"
proof (cases "\<exists>z \<in> stored st. name_eq H (zone_origin z) n")
  case True
  then obtain x where x: "hm_get (name_key H) (zones st) n = Some x" using store_get_None [OF assms] by blast
  have get: "hm_get (name_key H) (zones st') n = hm_get (name_key H) (zones st) n"
    if "mset (zones st') = mset (zones st)" for st' :: "'a zone_store"
    using assms that by (intro hm_get_perm [symmetric]) (simp_all add: wf_store_def)
  have "find_zone H st' n = find_zone H st n" if "mset (zones st') = mset (zones st)" for st' :: "'a zone_store"
    using get [OF that] x by (simp add: find_zone_def)
  then show ?thesis using True by blast
next
  case False
  have "find_zone H st' n = find_zone H st n"
    if one: "\<forall>z z'. z \<in> best_zones H st n \<longrightarrow> z' \<in> best_zones H st n \<longrightarrow> z = z'"
      and perm: "mset (zones st') = mset (zones st)" for st' :: "'a zone_store"
  proof -
    have eq: "stored st' = stored st" using perm unfolding stored_def by (metis set_mset_mset)
    have get: "hm_get (name_key H) (zones st') n = hm_get (name_key H) (zones st) n"
      using assms perm by (intro hm_get_perm [symmetric]) (simp_all add: wf_store_def)
    have best: "best_zones H st' n = best_zones H st n" by (simp add: best_zones_def eq)
    let ?loop = "\<lambda>s. best_match_loop H n (map snd (zones s)) None 0"
    have "?loop st' = None \<longleftrightarrow> ?loop st = None" 
      unfolding best_match_loop_None stored_values eq by simp
    then have "?loop st' = ?loop st"
    proof (cases "?loop st")
      case (Some z)
      with \<open>?loop st' = None \<longleftrightarrow> ?loop st = None\<close> obtain z' where z': "?loop st' = Some z'" by fastforce
      have "z = z'" using one loop_in_best [OF Some] loop_in_best [OF z'] unfolding best by blast
      with Some z' show ?thesis by simp
    qed simp
    then show ?thesis using get by (simp add: find_zone_def split: option.split)
  qed
  moreover have "z = z'"
    if same: "\<forall>st'. mset (zones st') = mset (zones st) \<longrightarrow> find_zone H st' n = find_zone H st n"
      and z: "z \<in> best_zones H st n" "z' \<in> best_zones H st n" for z z'
    using find_zone_first [OF assms _ z(1)] find_zone_first [OF assms _ z(2)] False same
    by (metis option.inject)
  ultimately show ?thesis using False by blast
qed

theorem find_zone_order_witness:
  "\<exists>st st'. wf_store sample st \<and> mset (zones st') = mset (zones st) \<and>
     find_zone sample st' (''a'' # ''*'' # example_com) \<noteq> find_zone sample st (''a'' # ''*'' # example_com)"
proof -
  let ?n = "''a'' # ''*'' # example_com"
  define wild where "wild = zone_new (''*'' # example_com) test_soa"
  define st where "st = add_zone sample test_store wild"
  have wf: "wf_store sample st" unfolding st_def by (intro wf_store_add_zone wf_test_store)
  have zs: "zones st = [(example_com, create_test_zone), (''*'' # example_com, wild)]"
    unfolding st_def wild_def by code_simp
  have o: "zone_origin create_test_zone = example_com" "zone_origin wild = ''*'' # example_com"
    unfolding wild_def by code_simp+
  have "sample_zone_of example_com ?n" "sample_zone_of (''*'' # example_com) ?n"
    "\<not> name_eq sample example_com ?n" "\<not> name_eq sample (''*'' # example_com) ?n"
    "name_num_labels sample example_com = 2" "name_num_labels sample (''*'' # example_com) = 2"
    by code_simp+
  then have "create_test_zone \<in> best_zones sample st ?n" "wild \<in> best_zones sample st ?n"
    "\<not> (\<exists>z \<in> stored st. name_eq sample (zone_origin z) ?n)"
    by (simp_all add: best_zones_def stored_def zs o del: sample_simps(6))
  moreover have "create_test_zone \<noteq> wild" using o by (metis list.distinct(1) not_Cons_self2)
  ultimately show ?thesis using find_zone_order [OF wf, of ?n] wf by metis
qed
text \<open>
  C39. A zone without labels (the root zone) is never chosen for a name below it: the loop of
  \<open>find_zone\<close> starts with zero labels and takes only a strictly longer origin, so the zone is
  found for its own name alone.
\<close>

theorem root_zone_only_exact:
  assumes "wf_store H st" and "z \<in> stored st" and "name_num_labels H (zone_origin z) = 0"
    and "\<not> name_eq H (zone_origin z) n"
  shows "find_zone H st n \<noteq> Some z"
proof
  assume found: "find_zone H st n = Some z"
  have "hm_get (name_key H) (zones st) n = None"
    using store_get_Some [OF assms(1)] assms(4) found
    by (cases "hm_get (name_key H) (zones st) n") (auto simp: find_zone_def)
  with found have "best_match_loop H n (map snd (zones st)) None 0 = Some z"
    by (simp add: find_zone_def)
  from best_match_loop_Some [OF this] assms(3) show False by simp
qed

theorem root_zone_only_exact_witness:
  "let st = add_zone sample zone_store_new (zone_new [] test_soa) in
   name_zone_of sample [] [''com''] \<and> find_zone sample st [''com''] \<noteq> Some (zone_new [] test_soa)"
proof -
  have "wf_store sample (add_zone sample zone_store_new (zone_new [] test_soa))"
    by (intro wf_store_add_zone wf_store_new)
  moreover have "zone_new [] test_soa \<in> stored (add_zone sample zone_store_new (zone_new [] test_soa))"
    by (simp add: stored_def add_zone_def hm_insert_def zone_store_new_def)
  ultimately show ?thesis
    using root_zone_only_exact [of sample _ "zone_new [] test_soa" "[''com'']"]
    by (simp add: zone_new_def name_eq_def sample_key_def sample_zone_of_def)
qed

text \<open>
  C13. Zones refine their record list: after loading any sequence of records, \<open>lookup\<close> returns
  exactly the records of that owner and type, in the order they were added, or \<open>None\<close> when there
  are none; \<open>contains_name\<close> holds exactly of the owners.
\<close>

theorem zone_refines_record_list:
  "zone_lookup H (zone_of_records H origin soa rs) n t =
     (if rrset_of H n t rs = [] then None else Some (rrset_of H n t rs)) \<and>
   (contains_name H (zone_of_records H origin soa rs) n \<longleftrightarrow> (\<exists>r \<in> set rs. name_eq H (rr_name r) n))"
  by (simp add: lookup_zone_of_records contains_zone_of_records)

text \<open>
  \<open>add_record\<close> appends the record to the set of its own name and type and changes no other
  lookup; the zone stays well formed (every record filed under its own name and type, no empty
  set) and keeps its origin and SOA data.
\<close>

theorem add_record_effect:
  assumes "wf_zone H z"
  shows "wf_zone H (add_record H z r) \<and>
    zone_lookup H (add_record H z r) n t =
      (if name_eq H n (rr_name r) \<and> t = rr_type r
       then Some ((case zone_lookup H z n t of None \<Rightarrow> [] | Some rs \<Rightarrow> rs) @ [r])
       else zone_lookup H z n t) \<and>
    zone_origin (add_record H z r) = zone_origin z \<and> zone_soa (add_record H z r) = zone_soa z"
proof -
  have "name_eq H n (rr_name r) \<Longrightarrow>
      hm_get (name_key H) (zone_records z) (rr_name r) = hm_get (name_key H) (zone_records z) n"
    by (rule hm_get_cong) (simp add: name_eq_def)
  then show ?thesis using wf_zone_add_record [OF assms]
    by (auto simp: zone_lookup_def add_record_def Let_def hm_get_upsert name_eq_def split: option.splits)
qed

theorem add_record_effect_witness:
  "wf_zone sample create_test_zone \<and>
   (let r = from_rdata sample (''WWW'' # example_com) 60 (RD_A (192, 0, 2, 7)) in
    map_option length (zone_lookup sample (add_record sample create_test_zone r)
      (''www'' # example_com) RT_A) = Some 2)"
proof -
  let ?r = "from_rdata sample (''WWW'' # example_com) 60 (RD_A (192, 0, 2, 7))"
  have "zone_lookup sample create_test_zone (''www'' # example_com) RT_A =
      Some [from_rdata sample (''www'' # example_com) 3600 (RD_A (192, 0, 2, 1))]"
    by code_simp
  moreover have "name_eq sample (''www'' # example_com) (rr_name ?r)"
    by code_simp
  ultimately show ?thesis
    using add_record_effect [OF wf_create_test_zone, of ?r "''www'' # example_com" RT_A]
      wf_create_test_zone by (simp add: Let_def)
qed

text \<open>The answer of one step of the wildcard search.\<close>

definition wildcard_at :: "'n hickory \<Rightarrow> 'n zone \<Rightarrow> 'n \<Rightarrow> record_type \<Rightarrow> nat \<Rightarrow> 'n rr list option" where
  "wildcard_at H z n t k =
     Option.bind (name_from_labels H (''*'' # drop k (name_iter H n))) (\<lambda>w. zone_lookup H z w t)"

lemma wildcard_loop_first:
  "wildcard_loop H z t (name_iter H n) ks =
     (case filter (\<lambda>k. wildcard_at H z n t k \<noteq> None) ks of
        [] \<Rightarrow> None | k # _ \<Rightarrow> wildcard_at H z n t k)"
  by (induction ks) (auto simp: wildcard_at_def split: option.splits)

lemma filter_upt_first:
  "filter P [i..<j] = [] \<longleftrightarrow> (\<forall>k. i \<le> k \<and> k < j \<longrightarrow> \<not> P k)"
  "filter P [i..<j] = k # ks \<Longrightarrow> i \<le> k \<and> k < j \<and> P k \<and> (\<forall>m. i \<le> m \<and> m < k \<longrightarrow> \<not> P m)"
proof -
  show "filter P [i..<j] = [] \<longleftrightarrow> (\<forall>k. i \<le> k \<and> k < j \<longrightarrow> \<not> P k)"
    by (auto simp: filter_empty_conv)
  show "i \<le> k \<and> k < j \<and> P k \<and> (\<forall>m. i \<le> m \<and> m < k \<longrightarrow> \<not> P m)" if eq: "filter P [i..<j] = k # ks"
  proof -
    have "k \<in> set (filter P [i..<j])" using eq by simp
    then have k: "i \<le> k" "k < j" "P k" by auto
    have "sorted_wrt (<) (k # ks)" using eq by (metis sorted_wrt_filter sorted_wrt_upt)
    then have "\<forall>m \<in> set (k # ks). k \<le> m" by auto
    moreover have "m \<in> set (k # ks)" if "i \<le> m" "m < k" "P m" for m
    proof -
      have "m \<in> set (filter P [i..<j])" using that k by auto
      then show ?thesis using eq by simp
    qed
    ultimately show ?thesis using k by (meson not_less)
  qed
qed

text \<open>
  C33. \<open>lookup_wildcard\<close> returns the records of the closest wildcard: the answer at the smallest
  number of labels stripped (at least one, and never all of them) where \<open>*\<close> followed by the
  remaining labels owns records of the type, and \<open>None\<close> exactly when no such wildcard does.
\<close>

theorem lookup_wildcard_closest:
  "case lookup_wildcard H z n t of
     None \<Rightarrow> \<forall>k. 1 \<le> k \<and> k < length (name_iter H n) \<longrightarrow> wildcard_at H z n t k = None
   | Some rs \<Rightarrow> \<exists>k. 1 \<le> k \<and> k < length (name_iter H n) \<and> wildcard_at H z n t k = Some rs \<and>
       (\<forall>m. 1 \<le> m \<and> m < k \<longrightarrow> wildcard_at H z n t m = None)"
proof -
  let ?P = "\<lambda>k. wildcard_at H z n t k \<noteq> None"
  have eq: "lookup_wildcard H z n t =
      (case filter ?P [1..<length (name_iter H n)] of
         [] \<Rightarrow> None | k # _ \<Rightarrow> wildcard_at H z n t k)"
    by (simp add: lookup_wildcard_def Let_def wildcard_loop_first)
  show ?thesis
  proof (cases "filter ?P [1..<length (name_iter H n)]")
    case Nil
    then show ?thesis using filter_upt_first(1) [of ?P 1 "length (name_iter H n)"] by (simp add: eq)
  next
    case (Cons k ks)
    from filter_upt_first(2) [OF Cons] Cons show ?thesis by (auto simp: eq)
  qed
qed

theorem lookup_wildcard_closest_witness:
  "let r = from_rdata sample (''*'' # example_com) 60 (RD_A (192, 0, 2, 9));
       z = add_record sample create_test_zone r;
       n = ''a'' # ''b'' # example_com
   in lookup_wildcard sample z n RT_A = Some [r] \<and>
      wildcard_at sample z n RT_A 1 = None \<and> wildcard_at sample z n RT_A 2 = Some [r]"
proof -
  define r where "r = from_rdata sample (''*'' # example_com) 60 (RD_A (192, 0, 2, 9))"
  define z where "z = add_record sample create_test_zone r"
  let ?n = "''a'' # ''b'' # example_com"
  have w: "wildcard_at sample z ?n RT_A 1 = None" "wildcard_at sample z ?n RT_A 2 = Some [r]"
    "wildcard_at sample z ?n RT_A 3 = None"
    unfolding z_def r_def by code_simp+
  have len: "length (name_iter sample ?n) = 4" by (simp add: example_com_def)
  have upto: "k = 1 \<or> k = 2 \<or> k = 3" if "1 \<le> k" "k < (4::nat)" for k using that by auto
  note closest = lookup_wildcard_closest [where H = sample and z = z and n = ?n and t = RT_A,
      unfolded len]
  have "lookup_wildcard sample z ?n RT_A = Some [r]"
  proof (cases "lookup_wildcard sample z ?n RT_A")
    case None
    with closest have "wildcard_at sample z ?n RT_A 2 = None" by auto
    with w(2) show ?thesis by simp
  next
    case (Some rs)
    with closest obtain k where "1 \<le> k" "k < 4" and k: "wildcard_at sample z ?n RT_A k = Some rs"
      by auto
    with upto w k Some show ?thesis by fastforce
  qed
  with w show ?thesis by (simp add: Let_def z_def r_def)
qed

text \<open>
  C20. A zone transfer starts and ends with the SOA record; in between it has every record loaded
  into the zone that is not of type SOA, exactly as often as it was loaded, and no other.
\<close>

theorem axfr_complete:
  "\<exists>mid. get_all_records H (zone_of_records H origin soa rs) =
       [get_soa_record H (zone_of_records H origin soa rs)] @ mid @
       [get_soa_record H (zone_of_records H origin soa rs)] \<and>
     mset mid = filter_mset (\<lambda>r. rr_type r \<noteq> RT_SOA) (mset rs)"
  using get_all_records_shape axfr_middle_mset [OF wf_zone_of_records] all_records_zone_of_records
  by (metis append_Cons append_Nil)

text \<open>
  C22. Between the two SOA records a transfer is in canonical order: by owner name, and by record
  type within a name.
\<close>

theorem axfr_sorted:
  assumes "wf_zone H z" and "name_order H" and "rtype_order H"
  shows "sorted_wrt (\<lambda>a b. name_lt H (rr_name a) (rr_name b) \<or>
      name_eq H (rr_name a) (rr_name b) \<and> \<not> rtype_lt H (rr_type b) (rr_type a))
    (butlast (tl (get_all_records H z)))"
  using axfr_middle_sorted [OF assms] by (simp add: axfr_middle_def axfr_le_def [abs_def])

theorem axfr_sorted_witness:
  "map rr_name (butlast (tl (get_all_records sample create_test_zone))) =
     [example_com, ''www'' # example_com] \<and>
   sorted_wrt (\<lambda>a b. name_lt sample (rr_name a) (rr_name b) \<or>
      name_eq sample (rr_name a) (rr_name b) \<and> \<not> rtype_lt sample (rr_type b) (rr_type a))
    (butlast (tl (get_all_records sample create_test_zone)))"
proof -
  have "map rr_name (butlast (tl (get_all_records sample create_test_zone))) =
     [example_com, ''www'' # example_com]" by code_simp
  with axfr_sorted [OF wf_create_test_zone sample_name_order sample_rtype_order]
  show ?thesis by simp
qed

end
