(* ===== verification/Zone_Parser.thy ===== *)
theory Zone_Parser
  imports Zone
begin

text \<open>
  \<open>src/zone.rs\<close>, the zone-file parser: joining the lines of a parenthesised record, parsing one
  resource record, and building a \<open>Zone\<close> from a whole file. An index into the words of a line
  goes through \<open>part\<close> and \<open>parts_from\<close>, which return \<open>Panic\<close> out of range as Rust does.
\<close>

section \<open>Errors\<close>

text \<open>
  \<open>ZErr c n\<close> is an error with the context \<open>c\<close> followed by \<open>on line n\<close>, \<open>ZMsg c\<close> one without a
  line, and \<open>Panic\<close> an index out of range.
\<close>

datatype zone_error = ZErr string nat | ZMsg string | Panic

definition part :: "string list \<Rightarrow> nat \<Rightarrow> zone_error + string" where
  "part parts i = (if i < length parts then Inr (parts ! i) else Inl Panic)"

definition parts_from :: "string list \<Rightarrow> nat \<Rightarrow> zone_error + string list" where
  "parts_from parts i = (if i \<le> length parts then Inr (drop i parts) else Inl Panic)"

text \<open>\<open>parts[i].parse().context(format!("... on line {}", line_num + 1))?\<close>\<close>

definition field :: "(string \<Rightarrow> 'a option) \<Rightarrow> string \<Rightarrow> nat \<Rightarrow> string list \<Rightarrow> nat \<Rightarrow> zone_error + 'a" where
  "field p ctx line_num parts i =
     and_then (part parts i) (\<lambda>s. ok_or (ZErr ctx (line_num + 1)) (p s))"

section \<open>Preprocessing\<close>

record pp_state =
  pp_result :: "string list"
  pp_current_line :: string
  pp_in_parens :: bool

definition strip_comment :: "string \<Rightarrow> string" where
  "strip_comment line =
     (case before_char CHR '';'' line of
        Some before_semicolon \<Rightarrow>
          (if length (filter (\<lambda>c. c = dquote) before_semicolon) mod 2 = 1
           then line else before_semicolon)
      | None \<Rightarrow> line)"

definition preprocess_line :: "pp_state \<Rightarrow> string \<Rightarrow> pp_state" where
  "preprocess_line st line =
     (let trimmed = trim (strip_comment line) in
      if CHR ''('' \<in> set trimmed then
        st\<lparr>pp_in_parens := True,
           pp_current_line := pp_current_line st @ trim (remove_char CHR ''('' trimmed) @ '' ''\<rparr>
      else if CHR '')'' \<in> set trimmed then
        st\<lparr>pp_in_parens := False,
           pp_result := pp_result st @
             [trim (pp_current_line st @ trim (remove_char CHR '')'' trimmed))],
           pp_current_line := []\<rparr>
      else if pp_in_parens st then
        st\<lparr>pp_current_line := pp_current_line st @ trimmed @ '' ''\<rparr>
      else if trimmed \<noteq> [] then st\<lparr>pp_result := pp_result st @ [trimmed]\<rparr>
      else st)"

definition preprocess_finish :: "pp_state \<Rightarrow> string list" where
  "preprocess_finish st =
     (if pp_current_line st \<noteq> [] then pp_result st @ [trim (pp_current_line st)] else pp_result st)"

definition preprocess_zone_content :: "string \<Rightarrow> string list" where
  "preprocess_zone_content content =
     preprocess_finish (foldl preprocess_line
       \<lparr>pp_result = [], pp_current_line = [], pp_in_parens = False\<rparr> (str_lines content))"

section \<open>Names\<close>

definition parse_domain_name :: "'n hickory \<Rightarrow> string \<Rightarrow> 'n \<Rightarrow> 'n option" where
  "parse_domain_name H s origin =
     (if ends_with_dot s then name_from_str H s
      else name_from_str H (s @ ''.'' @ name_display H origin))"

definition parse_owner :: "'n hickory \<Rightarrow> string \<Rightarrow> 'n \<Rightarrow> nat \<Rightarrow> zone_error + 'n" where
  "parse_owner H s origin line_num =
     (if s = ''@'' then Inr origin
      else if s = ''*'' then
        ok_or (ZErr ''Invalid wildcard name'' (line_num + 1))
          (name_from_str H (''*.'' @ name_display H origin))
      else if starts_with s ''*.'' then
        (if ends_with_dot s then
           ok_or (ZErr ''Invalid wildcard name'' (line_num + 1)) (name_from_str H s)
         else
           ok_or (ZErr ''Invalid wildcard name'' (line_num + 1))
             (name_from_str H (s @ ''.'' @ name_display H origin)))
      else if ends_with_dot s then
        ok_or (ZErr ''Invalid name'' (line_num + 1)) (name_from_str H s)
      else
        ok_or (ZErr ''Invalid name'' (line_num + 1))
          (name_from_str H (s @ ''.'' @ name_display H origin)))"

section \<open>Record data, one function per record type\<close>

text \<open>\<open>Inr None\<close> is the early \<open>return Ok(None)\<close>: the line is skipped.\<close>

type_synonym 'n rdata_result = "zone_error + 'n rdata option"

definition parse_rdata_A :: "string list \<Rightarrow> nat \<Rightarrow> nat \<Rightarrow> 'n rdata_result" where
  "parse_rdata_A parts idx line_num =
     (if length parts \<le> idx then Inr None
      else and_then (field parse_ipv4 ''Invalid A record'' line_num parts idx)
        (\<lambda>addr. Inr (Some (RD_A addr))))"

definition parse_rdata_AAAA :: "string list \<Rightarrow> nat \<Rightarrow> nat \<Rightarrow> 'n rdata_result" where
  "parse_rdata_AAAA parts idx line_num =
     (if length parts \<le> idx then Inr None
      else and_then (field parse_ipv6 ''Invalid AAAA record'' line_num parts idx)
        (\<lambda>addr. Inr (Some (RD_AAAA addr))))"

definition parse_rdata_NS :: "'n hickory \<Rightarrow> 'n \<Rightarrow> string list \<Rightarrow> nat \<Rightarrow> nat \<Rightarrow> 'n rdata_result" where
  "parse_rdata_NS H origin parts idx line_num =
     (if length parts \<le> idx then Inr None
      else and_then (field (\<lambda>s. parse_domain_name H s origin) ''Invalid NS record'' line_num parts idx)
        (\<lambda>nsdname. Inr (Some (RD_NS nsdname))))"

text \<open>The two names of an SOA record are parsed without a context.\<close>

definition soa_name :: "'n hickory \<Rightarrow> 'n \<Rightarrow> string list \<Rightarrow> nat \<Rightarrow> zone_error + 'n" where
  "soa_name H origin parts i =
     and_then (part parts i) (\<lambda>s. ok_or (ZMsg ''Invalid domain name'') (parse_domain_name H s origin))"

definition parse_rdata_SOA :: "'n hickory \<Rightarrow> 'n \<Rightarrow> string list \<Rightarrow> nat \<Rightarrow> nat \<Rightarrow> 'n rdata_result" where
  "parse_rdata_SOA H origin parts idx line_num =
     (if length parts < idx + 7 then Inr None
      else
        and_then (soa_name H origin parts idx) (\<lambda>mname.
        and_then (soa_name H origin parts (idx + 1)) (\<lambda>rname.
        and_then (field parse_uint ''Invalid SOA serial'' line_num parts (idx + 2)) (\<lambda>serial.
        and_then (field parse_i32 ''Invalid SOA refresh'' line_num parts (idx + 3)) (\<lambda>refresh.
        and_then (field parse_i32 ''Invalid SOA retry'' line_num parts (idx + 4)) (\<lambda>retry.
        and_then (field parse_i32 ''Invalid SOA expire'' line_num parts (idx + 5)) (\<lambda>expire.
        and_then (field parse_uint ''Invalid SOA minimum'' line_num parts (idx + 6)) (\<lambda>minimum.
          Inr (Some (RD_SOA mname rname serial refresh retry expire minimum))))))))))"

definition parse_rdata_CNAME :: "'n hickory \<Rightarrow> 'n \<Rightarrow> string list \<Rightarrow> nat \<Rightarrow> nat \<Rightarrow> 'n rdata_result" where
  "parse_rdata_CNAME H origin parts idx line_num =
     (if length parts \<le> idx then Inr None
      else and_then (field (\<lambda>s. parse_domain_name H s origin) ''Invalid CNAME record'' line_num parts idx)
        (\<lambda>cname. Inr (Some (RD_CNAME cname))))"

definition parse_rdata_MX :: "'n hickory \<Rightarrow> 'n \<Rightarrow> string list \<Rightarrow> nat \<Rightarrow> nat \<Rightarrow> 'n rdata_result" where
  "parse_rdata_MX H origin parts idx line_num =
     (if length parts < idx + 2 then Inr None
      else
        and_then (field parse_uint ''Invalid MX preference'' line_num parts idx) (\<lambda>preference.
        and_then (field (\<lambda>s. parse_domain_name H s origin) ''Invalid MX exchange'' line_num parts (idx + 1))
          (\<lambda>exchange. Inr (Some (RD_MX preference exchange)))))"

definition parse_rdata_TXT :: "string list \<Rightarrow> nat \<Rightarrow> 'n rdata_result" where
  "parse_rdata_TXT parts idx =
     (if length parts \<le> idx then Inr None
      else and_then (parts_from parts idx) (\<lambda>rest.
        Inr (Some (RD_TXT [trim_matches dquote (join '' '' rest)]))))"

definition parse_rdata_PTR :: "'n hickory \<Rightarrow> 'n \<Rightarrow> string list \<Rightarrow> nat \<Rightarrow> nat \<Rightarrow> 'n rdata_result" where
  "parse_rdata_PTR H origin parts idx line_num =
     (if length parts \<le> idx then Inr None
      else and_then (field (\<lambda>s. parse_domain_name H s origin) ''Invalid PTR record'' line_num parts idx)
        (\<lambda>ptrdname. Inr (Some (RD_PTR ptrdname))))"

definition parse_rdata_SRV :: "'n hickory \<Rightarrow> 'n \<Rightarrow> string list \<Rightarrow> nat \<Rightarrow> nat \<Rightarrow> 'n rdata_result" where
  "parse_rdata_SRV H origin parts idx line_num =
     (if length parts < idx + 4 then Inr None
      else
        and_then (field parse_uint ''Invalid SRV priority'' line_num parts idx) (\<lambda>priority.
        and_then (field parse_uint ''Invalid SRV weight'' line_num parts (idx + 1)) (\<lambda>weight.
        and_then (field parse_uint ''Invalid SRV port'' line_num parts (idx + 2)) (\<lambda>port.
        and_then (field (\<lambda>s. parse_domain_name H s origin) ''Invalid SRV target'' line_num parts (idx + 3))
          (\<lambda>target. Inr (Some (RD_SRV priority weight port target)))))))"

definition parse_rdata_CAA :: "'n hickory \<Rightarrow> string list \<Rightarrow> nat \<Rightarrow> nat \<Rightarrow> 'n rdata_result" where
  "parse_rdata_CAA H parts idx line_num =
     (if length parts < idx + 3 then Inr None
      else
        and_then (field parse_uint ''Invalid CAA flags'' line_num parts idx) (\<lambda>flags :: u8.
        and_then (part parts (idx + 1)) (\<lambda>tag.
        and_then (parts_from parts (idx + 2)) (\<lambda>rest.
          let value = trim_matches dquote (join '' '' rest);
              critical = (flags AND 0x80 \<noteq> 0)
          in Inr (Some (
            if tag = ''issue'' \<or> tag = ''issuewild'' then
              (if value = [] \<or> value = '';'' then RD_CAA critical None
               else RD_CAA critical
                 (Some (case name_from_str H value of None \<Rightarrow> name_root H | Some n \<Rightarrow> n)))
            else RD_CAA critical None))))))"

definition parse_rdata_DNSKEY ::
  "'n hickory \<Rightarrow> codecs \<Rightarrow> string list \<Rightarrow> nat \<Rightarrow> nat \<Rightarrow> 'n rdata_result" where
  "parse_rdata_DNSKEY H C parts idx line_num =
     (if length parts < idx + 4 then Inr None
      else
        and_then (field parse_uint ''Invalid DNSKEY flags'' line_num parts idx) (\<lambda>flags :: u16.
        and_then (field parse_uint ''Invalid DNSKEY protocol'' line_num parts (idx + 1)) (\<lambda>_ :: u8.
        and_then (field parse_uint ''Invalid DNSKEY algorithm'' line_num parts (idx + 2)) (\<lambda>algorithm.
        and_then (parts_from parts (idx + 3)) (\<lambda>rest.
          case base64_decode C (join [] rest) of
            None \<Rightarrow> Inr None
          | Some public_key \<Rightarrow>
              Inr (Some (RD_DNSSEC (DNSKEY (flags AND 0x0100 \<noteq> 0) (flags AND 0x0001 \<noteq> 0)
                (flags AND 0x8000 \<noteq> 0) (algorithm_from_u8 H algorithm) public_key))))))))"

definition parse_rdata_RRSIG ::
  "'n hickory \<Rightarrow> codecs \<Rightarrow> 'n \<Rightarrow> string list \<Rightarrow> nat \<Rightarrow> nat \<Rightarrow> 'n rdata_result" where
  "parse_rdata_RRSIG H C origin parts idx line_num =
     (if length parts < idx + 9 then Inr None
      else
        and_then (field (rtype_from_str H) ''Invalid RRSIG type_covered'' line_num parts idx) (\<lambda>type_covered.
        and_then (field parse_uint ''Invalid RRSIG algorithm'' line_num parts (idx + 1)) (\<lambda>algorithm.
        and_then (field parse_uint ''Invalid RRSIG labels'' line_num parts (idx + 2)) (\<lambda>labels.
        and_then (field parse_uint ''Invalid RRSIG original_ttl'' line_num parts (idx + 3)) (\<lambda>original_ttl.
        and_then (field parse_uint ''Invalid RRSIG sig_expiration'' line_num parts (idx + 4)) (\<lambda>sig_expiration.
        and_then (field parse_uint ''Invalid RRSIG sig_inception'' line_num parts (idx + 5)) (\<lambda>sig_inception.
        and_then (field parse_uint ''Invalid RRSIG key_tag'' line_num parts (idx + 6)) (\<lambda>key_tag.
        and_then (field (\<lambda>s. parse_domain_name H s origin) ''Invalid RRSIG signer_name'' line_num parts (idx + 7))
          (\<lambda>signer_name.
        and_then (parts_from parts (idx + 8)) (\<lambda>rest.
          case base64_decode C (join [] rest) of
            None \<Rightarrow> Inr None
          | Some signature \<Rightarrow>
              Inr (Some (RD_DNSSEC (SIG type_covered (algorithm_from_u8 H algorithm) labels original_ttl
                sig_expiration sig_inception key_tag signer_name signature)))))))))))))"

definition parse_rdata_NSEC :: "'n hickory \<Rightarrow> 'n \<Rightarrow> string list \<Rightarrow> nat \<Rightarrow> nat \<Rightarrow> 'n rdata_result" where
  "parse_rdata_NSEC H origin parts idx line_num =
     (if length parts < idx + 2 then Inr None
      else
        and_then (field (\<lambda>s. parse_domain_name H s origin) ''Invalid NSEC next_domain_name'' line_num parts idx)
          (\<lambda>next_domain_name.
        and_then (parts_from parts (idx + 1)) (\<lambda>rest.
          Inr (Some (RD_DNSSEC (NSEC next_domain_name (List.map_filter (rtype_from_str H) rest)))))))"

definition parse_rdata_DS ::
  "'n hickory \<Rightarrow> codecs \<Rightarrow> string list \<Rightarrow> nat \<Rightarrow> nat \<Rightarrow> 'n rdata_result" where
  "parse_rdata_DS H C parts idx line_num =
     (if length parts < idx + 4 then Inr None
      else
        and_then (field parse_uint ''Invalid DS key_tag'' line_num parts idx) (\<lambda>key_tag.
        and_then (field parse_uint ''Invalid DS algorithm'' line_num parts (idx + 1)) (\<lambda>algorithm.
        and_then (field parse_uint ''Invalid DS digest_type'' line_num parts (idx + 2)) (\<lambda>digest_type.
        and_then (parts_from parts (idx + 3)) (\<lambda>rest.
          case hex_decode C (join [] rest) of
            None \<Rightarrow> Inr None
          | Some digest \<Rightarrow>
              and_then (ok_or (ZMsg ''Unknown digest type'') (digest_type_from_u8 H digest_type))
                (\<lambda>dt. Inr (Some (RD_DNSSEC (DS key_tag (algorithm_from_u8 H algorithm) dt digest)))))))))"

definition parse_rdata_NAPTR :: "'n hickory \<Rightarrow> 'n \<Rightarrow> string list \<Rightarrow> nat \<Rightarrow> nat \<Rightarrow> 'n rdata_result" where
  "parse_rdata_NAPTR H origin parts idx line_num =
     (if length parts < idx + 6 then Inr None
      else
        and_then (field parse_uint ''Invalid NAPTR order'' line_num parts idx) (\<lambda>order.
        and_then (field parse_uint ''Invalid NAPTR preference'' line_num parts (idx + 1)) (\<lambda>preference.
        and_then (part parts (idx + 2)) (\<lambda>flags.
        and_then (part parts (idx + 3)) (\<lambda>services.
        and_then (part parts (idx + 4)) (\<lambda>regexp.
        and_then (field (\<lambda>s. parse_domain_name H s origin) ''Invalid NAPTR replacement'' line_num parts (idx + 5))
          (\<lambda>replacement.
          Inr (Some (RD_NAPTR order preference (trim_matches dquote flags) (trim_matches dquote services)
            (trim_matches dquote regexp) replacement)))))))))"

definition parse_rdata_TLSA :: "codecs \<Rightarrow> string list \<Rightarrow> nat \<Rightarrow> nat \<Rightarrow> 'n rdata_result" where
  "parse_rdata_TLSA C parts idx line_num =
     (if length parts < idx + 4 then Inr None
      else
        and_then (field parse_uint ''Invalid TLSA usage'' line_num parts idx) (\<lambda>cert_usage.
        and_then (field parse_uint ''Invalid TLSA selector'' line_num parts (idx + 1)) (\<lambda>selector.
        and_then (field parse_uint ''Invalid TLSA matching_type'' line_num parts (idx + 2)) (\<lambda>matching_type.
        and_then (parts_from parts (idx + 3)) (\<lambda>rest.
          case hex_decode C (join [] rest) of
            None \<Rightarrow> Inr None
          | Some cert_data \<Rightarrow> Inr (Some (RD_TLSA cert_usage selector matching_type cert_data)))))))"

definition parse_rdata_SSHFP :: "codecs \<Rightarrow> string list \<Rightarrow> nat \<Rightarrow> nat \<Rightarrow> 'n rdata_result" where
  "parse_rdata_SSHFP C parts idx line_num =
     (if length parts < idx + 3 then Inr None
      else
        and_then (field parse_uint ''Invalid SSHFP algorithm'' line_num parts idx) (\<lambda>algorithm.
        and_then (field parse_uint ''Invalid SSHFP fp_type'' line_num parts (idx + 1)) (\<lambda>fp_type.
        and_then (parts_from parts (idx + 2)) (\<lambda>rest.
          case hex_decode C (join [] rest) of
            None \<Rightarrow> Inr None
          | Some fingerprint \<Rightarrow> Inr (Some (RD_SSHFP algorithm fp_type fingerprint))))))"

text \<open>The \<open>match\<close> on the record type; any other type is skipped with a warning.\<close>

definition parse_rdata ::
  "'n hickory \<Rightarrow> codecs \<Rightarrow> 'n \<Rightarrow> string \<Rightarrow> string list \<Rightarrow> nat \<Rightarrow> nat \<Rightarrow> 'n rdata_result" where
  "parse_rdata H C origin rtype parts idx line_num =
     (if rtype = ''A'' then parse_rdata_A parts idx line_num
      else if rtype = ''AAAA'' then parse_rdata_AAAA parts idx line_num
      else if rtype = ''NS'' then parse_rdata_NS H origin parts idx line_num
      else if rtype = ''SOA'' then parse_rdata_SOA H origin parts idx line_num
      else if rtype = ''CNAME'' then parse_rdata_CNAME H origin parts idx line_num
      else if rtype = ''MX'' then parse_rdata_MX H origin parts idx line_num
      else if rtype = ''TXT'' then parse_rdata_TXT parts idx
      else if rtype = ''PTR'' then parse_rdata_PTR H origin parts idx line_num
      else if rtype = ''SRV'' then parse_rdata_SRV H origin parts idx line_num
      else if rtype = ''CAA'' then parse_rdata_CAA H parts idx line_num
      else if rtype = ''DNSKEY'' then parse_rdata_DNSKEY H C parts idx line_num
      else if rtype = ''RRSIG'' then parse_rdata_RRSIG H C origin parts idx line_num
      else if rtype = ''NSEC'' then parse_rdata_NSEC H origin parts idx line_num
      else if rtype = ''DS'' then parse_rdata_DS H C parts idx line_num
      else if rtype = ''NAPTR'' then parse_rdata_NAPTR H origin parts idx line_num
      else if rtype = ''TLSA'' then parse_rdata_TLSA C parts idx line_num
      else if rtype = ''SSHFP'' then parse_rdata_SSHFP C parts idx line_num
      else Inr None)"

section \<open>Resource records and zone files\<close>

definition parse_resource_record ::
  "'n hickory \<Rightarrow> codecs \<Rightarrow> string \<Rightarrow> 'n \<Rightarrow> u32 \<Rightarrow> nat \<Rightarrow> zone_error + 'n rr option" where
  "parse_resource_record H C line origin default_ttl line_num =
     (let parts = split_whitespace line in
      if length parts < 4 then Inr None
      else
        and_then (part parts 0) (\<lambda>owner.
        and_then (parse_owner H owner origin line_num) (\<lambda>name.
        and_then (part parts 1) (\<lambda>second.
          let (ttl, idx) = (case parse_uint second of Some t \<Rightarrow> (t, 2) | None \<Rightarrow> (default_ttl, 1)) in
        and_then (part parts idx) (\<lambda>cls.
          let idx = (if cls = ''IN'' then idx + 1 else idx) in
        and_then (part parts idx) (\<lambda>rtype.
        and_then (parse_rdata H C origin rtype parts (idx + 1) line_num) (\<lambda>rdata.
          case rdata of None \<Rightarrow> Inr None | Some d \<Rightarrow> Inr (Some (from_rdata H name ttl d)))))))))"

definition extract_soa_data :: "'n rr \<Rightarrow> 'n soa_record option" where
  "extract_soa_data r =
     (case rr_data r of
        Some (RD_SOA m rn s rf rt e mi) \<Rightarrow>
          Some \<lparr>mname = m, rname = rn, serial = s, refresh = rf, retry = rt, expire = e, minimum = mi\<rparr>
      | _ \<Rightarrow> None)"

record 'n pz_state =
  pz_zone :: "'n zone option"
  pz_default_ttl :: u32
  pz_current_origin :: 'n

text \<open>A line that starts with \<open>$\<close>.\<close>

definition parse_directive :: "'n hickory \<Rightarrow> 'n pz_state \<Rightarrow> nat \<Rightarrow> string \<Rightarrow> zone_error + 'n pz_state" where
  "parse_directive H st line_num line =
     (if starts_with line ''$ORIGIN'' then
        (let parts = split_whitespace line in
         if 2 \<le> length parts then
           and_then (field (name_from_str H) ''Invalid $ORIGIN'' line_num parts 1)
             (\<lambda>n. Inr (st\<lparr>pz_current_origin := n\<rparr>))
         else Inr st)
      else if starts_with line ''$TTL'' then
        (let parts = split_whitespace line in
         if 2 \<le> length parts then
           and_then (field parse_uint ''Invalid $TTL'' line_num parts 1)
             (\<lambda>t. Inr (st\<lparr>pz_default_ttl := t\<rparr>))
         else Inr st)
      else Inr st)"

text \<open>What a parsed record does to the zone under construction.\<close>

definition accept_record :: "'n hickory \<Rightarrow> 'n \<Rightarrow> 'n zone option \<Rightarrow> 'n rr \<Rightarrow> 'n zone option" where
  "accept_record H origin zone r =
     (let zone = (if rr_type r = RT_SOA \<and> zone = None
                  then map_option (zone_new origin) (extract_soa_data r) else zone)
      in map_option (\<lambda>z. add_record H z r) zone)"

definition parse_zone_line ::
  "'n hickory \<Rightarrow> codecs \<Rightarrow> 'n \<Rightarrow> 'n pz_state \<Rightarrow> nat \<Rightarrow> string \<Rightarrow> zone_error + 'n pz_state" where
  "parse_zone_line H C origin st line_num raw =
     (let line = trim raw in
      if line = [] \<or> starts_with line '';'' then Inr st
      else if starts_with line ''$'' then parse_directive H st line_num line
      else
        and_then (parse_resource_record H C line (pz_current_origin st) (pz_default_ttl st) line_num) (\<lambda>r.
          case r of
            None \<Rightarrow> Inr st
          | Some record \<Rightarrow> Inr (st\<lparr>pz_zone := accept_record H origin (pz_zone st) record\<rparr>)))"

fun parse_zone_lines ::
  "'n hickory \<Rightarrow> codecs \<Rightarrow> 'n \<Rightarrow> 'n pz_state \<Rightarrow> nat \<Rightarrow> string list \<Rightarrow> zone_error + 'n pz_state" where
  "parse_zone_lines H C origin st line_num [] = Inr st"
| "parse_zone_lines H C origin st line_num (l # ls) =
     and_then (parse_zone_line H C origin st line_num l)
       (\<lambda>st'. parse_zone_lines H C origin st' (line_num + 1) ls)"

text \<open>The first argument after the external functions is what reading the file returned.\<close>

definition parse_zone_file ::
  "'n hickory \<Rightarrow> codecs \<Rightarrow> string option \<Rightarrow> string \<Rightarrow> zone_error + 'n zone" where
  "parse_zone_file H C file origin_name =
     and_then (ok_or (ZMsg ''Failed to read zone file'') file) (\<lambda>content.
     and_then (ok_or (ZMsg ''Invalid origin name'') (name_from_str H origin_name)) (\<lambda>origin.
     and_then (parse_zone_lines H C origin
         \<lparr>pz_zone = None, pz_default_ttl = 3600, pz_current_origin = origin\<rparr> 0
         (preprocess_zone_content content)) (\<lambda>st.
       ok_or (ZMsg ''Zone file must contain an SOA record'') (pz_zone st))))"

section \<open>No index out of range\<close>

named_theorems no_panic \<open>steps that do not panic\<close>

definition runs :: "zone_error + 'a \<Rightarrow> bool" where
  "runs m \<longleftrightarrow> m \<noteq> Inl Panic"

lemma runs_Inr [no_panic]: "runs (Inr x)"
  by (simp add: runs_def)

lemma part_no_panic [no_panic]: "i < length parts \<Longrightarrow> runs (part parts i)"
  by (simp add: part_def runs_def)

lemma parts_from_no_panic [no_panic]: "i \<le> length parts \<Longrightarrow> runs (parts_from parts i)"
  by (simp add: parts_from_def runs_def)

lemma ok_or_no_panic [no_panic]: "e \<noteq> Panic \<Longrightarrow> runs (ok_or e x)"
  by (simp add: ok_or_def runs_def split: option.split)

lemma and_then_no_panic [no_panic]:
  "runs m \<Longrightarrow> (\<And>x. m = Inr x \<Longrightarrow> runs (f x)) \<Longrightarrow> runs (and_then m f)"
  by (cases m) (auto simp: runs_def)

lemma field_no_panic [no_panic]: "i < length parts \<Longrightarrow> runs (field p ctx n parts i)"
  by (simp add: field_def part_def ok_or_def runs_def split: option.split)

lemma parse_owner_no_panic [no_panic]: "runs (parse_owner H s origin n)"
  by (simp add: parse_owner_def ok_or_def runs_def split: option.split)

lemma rdata_address_no_panic [no_panic]:
  "runs (parse_rdata_A parts idx n)"
  "runs (parse_rdata_AAAA parts idx n)"
  "runs (parse_rdata_TXT parts idx)"
  by (auto simp: parse_rdata_A_def parse_rdata_AAAA_def parse_rdata_TXT_def intro!: no_panic)

lemma rdata_name_no_panic [no_panic]:
  "runs (parse_rdata_NS H origin parts idx n)"
  "runs (parse_rdata_CNAME H origin parts idx n)"
  "runs (parse_rdata_PTR H origin parts idx n)"
  "runs (parse_rdata_MX H origin parts idx n)"
  "runs (parse_rdata_SRV H origin parts idx n)"
  by (auto simp: parse_rdata_NS_def parse_rdata_CNAME_def parse_rdata_PTR_def parse_rdata_MX_def
      parse_rdata_SRV_def intro!: no_panic)

lemma rdata_soa_no_panic [no_panic]: "runs (parse_rdata_SOA H origin parts idx n)"
  by (auto simp: parse_rdata_SOA_def soa_name_def intro!: no_panic)

lemma rdata_caa_no_panic [no_panic]: "runs (parse_rdata_CAA H parts idx n)"
  by (auto simp: parse_rdata_CAA_def Let_def intro!: no_panic)

lemma rdata_dnskey_no_panic [no_panic]: "runs (parse_rdata_DNSKEY H C parts idx n)"
  by (auto simp: parse_rdata_DNSKEY_def intro!: no_panic split: option.split)

lemma rdata_rrsig_no_panic [no_panic]: "runs (parse_rdata_RRSIG H C origin parts idx n)"
  by (auto simp: parse_rdata_RRSIG_def intro!: no_panic split: option.split)

lemma rdata_nsec_no_panic [no_panic]: "runs (parse_rdata_NSEC H origin parts idx n)"
  by (auto simp: parse_rdata_NSEC_def intro!: no_panic)

lemma rdata_hex_no_panic [no_panic]:
  "runs (parse_rdata_DS H C parts idx n)"
  "runs (parse_rdata_TLSA C parts idx n)"
  "runs (parse_rdata_SSHFP C parts idx n)"
  by (auto simp: parse_rdata_DS_def parse_rdata_TLSA_def parse_rdata_SSHFP_def
      intro!: no_panic split: option.split)

lemma rdata_naptr_no_panic [no_panic]: "runs (parse_rdata_NAPTR H origin parts idx n)"
  by (auto simp: parse_rdata_NAPTR_def intro!: no_panic)

lemma parse_rdata_no_panic [no_panic]: "runs (parse_rdata H C origin rtype parts idx n)"
  unfolding parse_rdata_def by (simp add: no_panic)

text \<open>
  With four words, the name, an optional TTL and an optional class still leave one for the type.
\<close>

lemma parse_resource_record_no_panic [no_panic]:
  "runs (parse_resource_record H C line origin ttl n)"
  unfolding parse_resource_record_def Let_def
  by (auto simp: part_def intro!: no_panic split: option.split if_splits)

lemma parse_directive_no_panic [no_panic]: "runs (parse_directive H st n line)"
  by (auto simp: parse_directive_def Let_def intro!: no_panic)

lemma parse_zone_line_no_panic [no_panic]: "runs (parse_zone_line H C origin st n raw)"
  by (auto simp: parse_zone_line_def Let_def no_panic intro!: no_panic split: option.split)

lemma parse_zone_lines_no_panic [no_panic]: "runs (parse_zone_lines H C origin st n ls)"
  by (induction ls arbitrary: st n) (auto intro!: no_panic)

section \<open>A zone file refines its list of records\<close>

text \<open>
  The record on a line, given the state the lines before it left; and the records of a file in
  order, before any zone is built.
\<close>

definition line_record ::
  "'n hickory \<Rightarrow> codecs \<Rightarrow> 'n pz_state \<Rightarrow> nat \<Rightarrow> string \<Rightarrow> zone_error + 'n rr option" where
  "line_record H C st line_num raw =
     (let line = trim raw in
      if line = [] \<or> starts_with line '';'' \<or> starts_with line ''$'' then Inr None
      else parse_resource_record H C line (pz_current_origin st) (pz_default_ttl st) line_num)"

text \<open>The directives alone: the state with its zone left as it is.\<close>

definition line_directive :: "'n hickory \<Rightarrow> 'n pz_state \<Rightarrow> nat \<Rightarrow> string \<Rightarrow> zone_error + 'n pz_state" where
  "line_directive H st line_num raw =
     (let line = trim raw in
      if line \<noteq> [] \<and> \<not> starts_with line '';'' \<and> starts_with line ''$''
      then parse_directive H st line_num line else Inr st)"

fun file_records ::
  "'n hickory \<Rightarrow> codecs \<Rightarrow> 'n pz_state \<Rightarrow> nat \<Rightarrow> string list \<Rightarrow> zone_error + 'n rr list" where
  "file_records H C st line_num [] = Inr []"
| "file_records H C st line_num (l # ls) =
     and_then (line_directive H st line_num l) (\<lambda>st'.
     and_then (line_record H C st line_num l) (\<lambda>r.
     and_then (file_records H C st' (line_num + 1) ls) (\<lambda>rs.
       Inr (case r of None \<Rightarrow> rs | Some x \<Rightarrow> x # rs))))"

definition is_soa :: "'n rr \<Rightarrow> bool" where
  "is_soa r \<longleftrightarrow> rr_type r = RT_SOA \<and> extract_soa_data r \<noteq> None"

text \<open>The zone of a list of records: it starts at the first SOA record.\<close>

definition load_records :: "'n hickory \<Rightarrow> 'n \<Rightarrow> 'n rr list \<Rightarrow> 'n zone option" where
  "load_records H origin rs =
     (case dropWhile (\<lambda>r. \<not> is_soa r) rs of
        [] \<Rightarrow> None
      | r # rs' \<Rightarrow> map_option (\<lambda>soa. zone_of_records H origin soa (r # rs')) (extract_soa_data r))"

lemma accept_record_Some: "accept_record H origin (Some z) r = Some (add_record H z r)"
  by (simp add: accept_record_def)

lemma foldl_accept_Some:
  "foldl (accept_record H origin) (Some z) rs = Some (foldl (add_record H) z rs)"
  by (induction rs arbitrary: z) (simp_all add: accept_record_Some)

lemma accept_record_None:
  "accept_record H origin None r =
     (if is_soa r then map_option (\<lambda>soa. add_record H (zone_new origin soa) r) (extract_soa_data r)
      else None)"
  by (auto simp: accept_record_def is_soa_def Let_def option.map_comp comp_def)

lemma foldl_accept_None: "foldl (accept_record H origin) None rs = load_records H origin rs"
proof (induction rs)
  case Nil
  then show ?case by (simp add: load_records_def)
next
  case (Cons r rs)
  show ?case
  proof (cases "is_soa r")
    case True
    then obtain soa where "extract_soa_data r = Some soa" by (auto simp: is_soa_def)
    with True show ?thesis
      by (simp add: accept_record_None load_records_def foldl_accept_Some zone_of_records_def)
  next
    case False
    with Cons.IH show ?thesis by (simp add: accept_record_None load_records_def)
  qed
qed

lemma parse_zone_line_split:
  "parse_zone_line H C origin st n l =
     and_then (line_directive H st n l) (\<lambda>st'.
     and_then (line_record H C st n l) (\<lambda>r.
       Inr (case r of None \<Rightarrow> st'
            | Some x \<Rightarrow> st'\<lparr>pz_zone := accept_record H origin (pz_zone st') x\<rparr>)))"
proof -
  have other: "line_directive H st n l = Inr st" if "\<not> starts_with (trim l) ''$''"
    using that by (simp add: line_directive_def Let_def)
  show ?thesis
    by (cases "parse_directive H st n (trim l)")
       (auto simp: parse_zone_line_def line_directive_def line_record_def Let_def
         intro!: arg_cong2 [where f = and_then] split: option.split)
qed

text \<open>Neither step reads the zone built so far.\<close>

lemma line_record_frame: "line_record H C (st\<lparr>pz_zone := z\<rparr>) n l = line_record H C st n l"
  by (simp add: line_record_def Let_def)

lemma line_directive_frame:
  "line_directive H (st\<lparr>pz_zone := z\<rparr>) n l =
     and_then (line_directive H st n l) (\<lambda>st'. Inr (st'\<lparr>pz_zone := z\<rparr>))"
  by (auto simp: line_directive_def parse_directive_def Let_def field_def part_def ok_or_def
      split: option.split)

lemma line_directive_zone: "line_directive H st n l = Inr st' \<Longrightarrow> pz_zone st' = pz_zone st"
  by (auto simp: line_directive_def parse_directive_def Let_def res_simps split: if_splits)

lemma file_records_frame: "file_records H C (st\<lparr>pz_zone := z\<rparr>) n ls = file_records H C st n ls"
proof (induction ls arbitrary: st n)
  case (Cons l ls)
  then show ?case
    by (cases "line_directive H st n l") (simp_all add: line_directive_frame line_record_frame)
qed simp

lemma parse_zone_lines_records:
  "and_then (parse_zone_lines H C origin st n ls) (\<lambda>st'. Inr (pz_zone st')) =
     and_then (file_records H C st n ls) (\<lambda>rs. Inr (foldl (accept_record H origin) (pz_zone st) rs))"
proof (induction ls arbitrary: st n)
  case (Cons l ls)
  show ?case
  proof (cases "line_directive H st n l")
    case (Inr st')
    show ?thesis
    proof (cases "line_record H C st n l")
      case (Inr r)
      with \<open>line_directive H st n l = Inr st'\<close> show ?thesis
        using line_directive_zone [OF \<open>line_directive H st n l = Inr st'\<close>]
        by (cases "file_records H C st' (n + 1) ls"; cases r)
           (auto simp: parse_zone_line_split Cons.IH file_records_frame)
    qed (simp add: parse_zone_line_split Inr)
  qed (simp add: parse_zone_line_split)
qed simp

lemma load_records_SomeD:
  assumes "load_records H origin rs = Some z"
  shows "\<exists>soa r rs'. dropWhile (\<lambda>r. \<not> is_soa r) rs = r # rs' \<and> is_soa r \<and>
    extract_soa_data r = Some soa \<and> z = zone_of_records H origin soa (r # rs')"
proof (cases "dropWhile (\<lambda>r. \<not> is_soa r) rs")
  case (Cons r rs')
  then have "is_soa r" by (metis hd_dropWhile list.discI list.sel(1))
  with Cons assms show ?thesis by (auto simp: load_records_def)
next
  case Nil
  with assms show ?thesis by (simp add: load_records_def split: list.splits)
qed

section \<open>Words of a line\<close>

text \<open>A word in ASCII without white space.\<close>

definition is_word :: "string \<Rightarrow> bool" where
  "is_word w \<longleftrightarrow> w \<noteq> [] \<and> (\<forall>c \<in> set w. code c < 128 \<and> \<not> is_whitespace [c])"

lemma split_words_word:
  "\<forall>c \<in> set w. \<not> is_whitespace [c] \<Longrightarrow>
     split_words (map (\<lambda>c. [c]) w @ cs) acc = split_words cs (acc @ w)"
  by (induction w arbitrary: acc) auto

lemma space_is_whitespace: "is_whitespace '' ''"
  by code_simp

lemma join_ascii: "\<forall>w \<in> set ws. is_word w \<Longrightarrow> \<forall>c \<in> set (join '' '' ws). code c < 128"
proof (induction ws)
  case (Cons w ws)
  then show ?case by (cases ws) (auto simp: is_word_def)
qed simp

lemma split_join:
  assumes "\<forall>w \<in> set ws. is_word w"
  shows "split_whitespace (join '' '' ws) = ws"
proof -
  have "split_words (map (\<lambda>c. [c]) (join '' '' ws)) [] = ws"
    using assms
  proof (induction ws)
    case (Cons w ws)
    then have w: "w \<noteq> []" "\<forall>c \<in> set w. \<not> is_whitespace [c]" by (auto simp: is_word_def)
    show ?case
    proof (cases ws)
      case Nil
      with w split_words_word [OF w(2), of "[]" "[]"] show ?thesis by simp
    next
      case (Cons v vs)
      with w Cons.prems Cons.IH split_words_word [OF w(2), of "'' '' # map (\<lambda>c. [c]) (join '' '' ws)" "[]"]
      show ?thesis by (simp add: space_is_whitespace)
    qed
  qed simp
  then show ?thesis
    using chars_ascii [OF join_ascii [OF assms]] by (simp add: split_whitespace_def)
qed

section \<open>Addresses and numbers written out\<close>

definition show_ipv4 :: "ipv4 \<Rightarrow> string" where
  "show_ipv4 a =
     (case a of (p, q, r, s) \<Rightarrow>
        show_nat (unat p) @ ''.'' @ show_nat (unat q) @ ''.'' @ show_nat (unat r) @ ''.'' @ show_nat (unat s))"

lemma to_digit_show: "c \<in> set (show_nat n) \<Longrightarrow> to_digit 10 c \<noteq> None"
  by (auto dest!: show_nat_digits)

lemma length_show_nat_le: "n < 10 ^ Suc k \<Longrightarrow> length (show_nat n) \<le> Suc k"
proof (induction k arbitrary: n)
  case 0
  then show ?case by (subst show_nat.simps) simp
next
  case (Suc k)
  then have "length (show_nat (n div 10)) \<le> Suc k" by (intro Suc.IH) auto
  then show ?case by (subst show_nat.simps) simp
qed

lemma hd_show_nat: "hd (show_nat n) = CHR ''0'' \<Longrightarrow> n = 0"
proof (induction n rule: show_nat.induct)
  case (1 n)
  show ?case
  proof (cases "n < 10")
    case True
    with 1(2) have "code (digit_char n) = 48" by (subst (asm) show_nat.simps) simp
    with True show ?thesis by (simp add: digit_char_code)
  next
    case False
    with 1(2) have "hd (show_nat (n div 10)) = CHR ''0''"
      by (subst (asm) show_nat.simps) simp
    with False 1(1) show ?thesis by auto
  qed
qed

lemma length_show_nat_gt1: "1 < length (show_nat n) \<Longrightarrow> 10 \<le> n"
  by (subst (asm) show_nat.simps) (simp split: if_splits)

lemma octet_less: "unat (b :: u8) < 256"
  using unsigned_less [of b] by simp

lemma read_octet_show:
  assumes "rest = [] \<or> to_digit 10 (hd rest) = None"
  shows "read_octet (show_nat (unat (b :: u8)) @ rest) = Some (b, rest)"
proof -
  let ?n = "unat b"
  have lt: "?n < 256" by (rule octet_less)
  have tw: "takeWhile (\<lambda>c. to_digit 10 c \<noteq> None) (show_nat ?n @ rest) = show_nat ?n"
    using assms by (cases rest) (auto simp: takeWhile_append dest: to_digit_show)
  have "length (show_nat ?n) \<le> 3" using lt length_show_nat_le [of ?n 2] by simp
  moreover have "\<not> (hd (show_nat ?n @ rest) = CHR ''0'' \<and> 1 < length (show_nat ?n))"
    using hd_show_nat [of ?n] length_show_nat_gt1 [of ?n] by auto
  ultimately show ?thesis
    using lt unfolding read_octet_def read_number_def Let_def tw by (auto simp: digits_value_show)
qed

lemma parse_ipv4_show: "parse_ipv4 (show_ipv4 a) = Some a"
proof -
  obtain p q r s where a: "a = (p, q, r, s)" by (cases a)
  have dot: "to_digit 10 CHR ''.'' = None" by code_simp
  have len: "length (show_nat (unat (b :: u8))) \<le> 3" for b
    using octet_less [of b] length_show_nat_le [of "unat b" 2] by simp
  have "length (show_ipv4 a) \<le> 15"
    using len [of p] len [of q] len [of r] len [of s] by (simp add: show_ipv4_def a)
  then show ?thesis
    using read_octet_show [of "[]" s]
    by (simp add: parse_ipv4_def read_ipv4_def show_ipv4_def a read_octet_show dot read_dot_octet_def)
qed

lemma show_nat_is_word: "is_word (show_nat n)"
proof -
  have "code c < 128 \<and> \<not> is_whitespace [c]" if "c \<in> set (show_nat n)" for c
    using show_nat_codes [OF that]
    by (auto simp: is_whitespace_def white_space_codes_def)
  then show ?thesis by (simp add: is_word_def)
qed

lemma show_ipv4_is_word: "is_word (show_ipv4 a)"
  using show_nat_is_word
  by (cases a) (auto simp: show_ipv4_def is_word_def is_whitespace_def white_space_codes_def)

section \<open>Preprocessing\<close>

abbreviation bare :: "string \<Rightarrow> string" where
  "bare l \<equiv> trim (strip_comment l)"

definition no_parens :: "string \<Rightarrow> bool" where
  "no_parens l \<longleftrightarrow> CHR ''('' \<notin> set (bare l) \<and> CHR '')'' \<notin> set (bare l)"

lemma foldl_outside:
  "\<forall>l \<in> set ls. no_parens l \<Longrightarrow> \<not> pp_in_parens st \<Longrightarrow>
     foldl preprocess_line st ls =
       st\<lparr>pp_result := pp_result st @ filter (\<lambda>l. l \<noteq> []) (map bare ls)\<rparr>"
  by (induction ls arbitrary: st) (auto simp: preprocess_line_def no_parens_def Let_def)

lemma foldl_inside:
  "\<forall>l \<in> set ls. no_parens l \<Longrightarrow> pp_in_parens st \<Longrightarrow>
     foldl preprocess_line st ls =
       st\<lparr>pp_current_line := pp_current_line st @ concat (map (\<lambda>l. bare l @ '' '') ls)\<rparr>"
  by (induction ls arbitrary: st) (auto simp: preprocess_line_def no_parens_def Let_def)

text \<open>Trimming removes white space only.\<close>

lemma in_trim:
  assumes "c \<in> set s" and "\<forall>w \<in> set white_space_codes. code c \<notin> set w"
  shows "c \<in> set (trim s)"
proof -
  have keep: "g \<in> set (dropWhile is_whitespace gs)" if "g \<in> set gs" "\<not> is_whitespace g" for g gs
    using that by (induction gs) auto
  have "c \<in> set (concat (chars s))" using assms(1) by (simp only: concat_chars)
  then obtain g where g: "g \<in> set (chars s)" "c \<in> set g" by (auto simp del: concat_chars)
  have "\<not> is_whitespace g"
  proof
    assume "is_whitespace g"
    then have "map code g \<in> set white_space_codes" by (simp add: is_whitespace_def)
    with assms(2) g(2) show False by (metis image_eqI list.set_map)
  qed
  with g(1) have "g \<in> set (rev (dropWhile is_whitespace (rev (dropWhile is_whitespace (chars s)))))"
    by (simp add: keep)
  with g(2) show ?thesis by (auto simp: trim_def)
qed

section \<open>Examples\<close>

text \<open>
  The zone file of the unit test \<open>test_dnskey_parsing\<close> of \<open>src/zone.rs\<close>, up to its A record.
\<close>

definition test_zone_text :: string where
  "test_zone_text =
     ''$ORIGIN example.com.'' @ [newline] @ ''$TTL 3600'' @ [newline] @
     ''@ IN SOA ns1.example.com. admin.example.com. 1 7200 3600 1209600 86400'' @ [newline] @
     ''@ IN NS ns1.example.com.'' @ [newline] @ ''ns1 IN A 192.0.2.1'' @ [newline]"

lemma test_zone_parses:
  "map_sum (\<lambda>e. e) (\<lambda>z. (zone_origin z, serial (zone_soa z),
      zone_lookup sample z (''ns1'' # example_com) RT_A))
     (parse_zone_file sample sample_codecs (Some test_zone_text) ''example.com.'') =
   Inr (example_com, 1, Some [from_rdata sample (''ns1'' # example_com) 3600 (RD_A (192, 0, 2, 1))])"
  by code_simp

lemma parse_zone_file_eq:
  "parse_zone_file H C (Some content) origin_name =
     and_then (ok_or (ZMsg ''Invalid origin name'') (name_from_str H origin_name)) (\<lambda>origin.
     and_then (file_records H C
         \<lparr>pz_zone = None, pz_default_ttl = 3600, pz_current_origin = origin\<rparr> 0
         (preprocess_zone_content content)) (\<lambda>rs.
       ok_or (ZMsg ''Zone file must contain an SOA record'') (load_records H origin rs)))"
proof -
  have swap: "and_then m (\<lambda>st. ok_or e (pz_zone st)) =
      and_then (and_then m (\<lambda>st. Inr (pz_zone st))) (ok_or e)" for m :: "zone_error + 'a pz_state" and e
    by (cases m) simp_all
  have assoc: "and_then (and_then m (\<lambda>rs. Inr (g rs))) (ok_or e) = and_then m (\<lambda>rs. ok_or e (g rs))"
    for m :: "zone_error + 'a rr list" and g :: "'a rr list \<Rightarrow> 'a zone option" and e
    by (cases m) simp_all
  show ?thesis
    unfolding parse_zone_file_def
    by (simp add: swap parse_zone_lines_records foldl_accept_None assoc)
qed

text \<open>The state in which the lines of a file are read.\<close>

definition start_state :: "'n \<Rightarrow> 'n pz_state" where
  "start_state origin = \<lparr>pz_zone = None, pz_default_ttl = 3600, pz_current_origin = origin\<rparr>"

lemma parse_zone_file_records:
  assumes "parse_zone_file H C source origin_name = Inr z"
  obtains content rs where "source = Some content" and "name_from_str H origin_name = Some (zone_origin z)"
    and "file_records H C (start_state (zone_origin z)) 0 (preprocess_zone_content content) = Inr rs"
    and "dropWhile (\<lambda>r. \<not> is_soa r) rs \<noteq> []"
    and "extract_soa_data (hd (dropWhile (\<lambda>r. \<not> is_soa r) rs)) = Some (zone_soa z)"
    and "z = zone_of_records H (zone_origin z) (zone_soa z) (dropWhile (\<lambda>r. \<not> is_soa r) rs)"
proof -
  obtain content where c: "source = Some content"
    by (cases source) (use assms in \<open>simp_all add: parse_zone_file_def\<close>)
  from assms [unfolded c parse_zone_file_eq] obtain origin rs
    where o: "name_from_str H origin_name = Some origin" and l: "load_records H origin rs = Some z"
      and rs: "file_records H C (start_state origin) 0 (preprocess_zone_content content) = Inr rs"
    by (auto simp: res_simps start_state_def)
  from load_records_SomeD [OF l] obtain soa r rs' where d: "dropWhile (\<lambda>r. \<not> is_soa r) rs = r # rs'"
    and soa: "extract_soa_data r = Some soa" and z: "z = zone_of_records H origin soa (r # rs')" by blast
  from z have "zone_origin z = origin" "zone_soa z = soa" by simp_all
  with that [OF c, of rs] o rs d soa z show ?thesis by (metis list.distinct(1) list.sel(1))
qed

lemma parse_zone_file_loaded:
  assumes "parse_zone_file H C file origin_name = Inr z"
  obtains r rs where "is_soa r" and "extract_soa_data r = Some (zone_soa z)"
    and "name_from_str H origin_name = Some (zone_origin z)"
    and "z = zone_of_records H (zone_origin z) (zone_soa z) (r # rs)"
proof -
  from assms obtain content rs where o: "name_from_str H origin_name = Some (zone_origin z)"
    and ne: "dropWhile (\<lambda>r. \<not> is_soa r) rs \<noteq> []"
    and soa: "extract_soa_data (hd (dropWhile (\<lambda>r. \<not> is_soa r) rs)) = Some (zone_soa z)"
    and z: "z = zone_of_records H (zone_origin z) (zone_soa z) (dropWhile (\<lambda>r. \<not> is_soa r) rs)"
    by (rule parse_zone_file_records)
  have "is_soa (hd (dropWhile (\<lambda>r. \<not> is_soa r) rs))" using hd_dropWhile [OF ne] by simp
  with that [OF _ soa o, of "tl (dropWhile (\<lambda>r. \<not> is_soa r) rs)"] z ne show ?thesis by simp
qed

section \<open>Properties\<close>

text \<open>
  C23. Parsing a zone file never indexes the words of a line out of range: whatever the file, the
  origin and the external decoders, \<open>parse_zone_file\<close> returns a zone or an error, never a panic.
\<close>

theorem parse_zone_file_no_panic: "parse_zone_file H C file origin_name \<noteq> Inl Panic"
proof -
  have "runs (parse_zone_file H C file origin_name)"
    unfolding parse_zone_file_def by (auto intro!: no_panic)
  then show ?thesis by (simp add: runs_def)
qed

text \<open>
  C12. \<open>parse_zone_file\<close> refines two passes: read the records of the file in order, under the
  directives before them, then load the records from the first SOA record on into a zone with the
  configured origin. It fails exactly when the origin is no name, a line is in error (with that
  line's error) or no SOA record is among the records; records before the SOA are dropped.
\<close>

theorem parse_zone_file_refines:
  "parse_zone_file H C (Some content) origin_name =
     and_then (ok_or (ZMsg ''Invalid origin name'') (name_from_str H origin_name)) (\<lambda>origin.
     and_then (file_records H C
         \<lparr>pz_zone = None, pz_default_ttl = 3600, pz_current_origin = origin\<rparr> 0
         (preprocess_zone_content content)) (\<lambda>rs.
       ok_or (ZMsg ''Zone file must contain an SOA record'') (load_records H origin rs)))"
  by (rule parse_zone_file_eq)

text \<open>
  C24. A zone that \<open>parse_zone_file\<close> returns has the configured origin, is well formed, holds an
  SOA record and carries that record's SOA data.
\<close>

theorem parse_zone_file_sound:
  assumes "parse_zone_file H C file origin_name = Inr z"
  shows "wf_zone H z \<and> name_from_str H origin_name = Some (zone_origin z) \<and>
    (\<exists>r rs. zone_lookup H z (rr_name r) RT_SOA = Some rs \<and> r \<in> set rs \<and>
       extract_soa_data r = Some (zone_soa z))"
proof -
  from parse_zone_file_loaded [OF assms] obtain r rs where z: "is_soa r"
    "extract_soa_data r = Some (zone_soa z)" "name_from_str H origin_name = Some (zone_origin z)"
    "z = zone_of_records H (zone_origin z) (zone_soa z) (r # rs)" .
  have "r \<in> set (rrset_of H (rr_name r) RT_SOA (r # rs))"
    using z(1) by (simp add: rrset_of_def is_soa_def name_eq_def)
  moreover from this have "rrset_of H (rr_name r) RT_SOA (r # rs) \<noteq> []" by force
  ultimately have "\<exists>rs. zone_lookup H z (rr_name r) RT_SOA = Some rs \<and> r \<in> set rs"
    using z(4) by (metis lookup_zone_of_records)
  moreover have "wf_zone H z" using z(4) wf_zone_of_records by metis
  ultimately show ?thesis using z(2,3) by blast
qed

theorem parse_zone_file_sound_witness:
  "\<exists>z. parse_zone_file sample sample_codecs (Some test_zone_text) ''example.com.'' = Inr z \<and>
     wf_zone sample z \<and> zone_origin z = example_com"
proof -
  obtain z where z: "parse_zone_file sample sample_codecs (Some test_zone_text) ''example.com.'' = Inr z"
    and o: "zone_origin z = example_com"
    using test_zone_parses
    by (cases "parse_zone_file sample sample_codecs (Some test_zone_text) ''example.com.''") auto
  with parse_zone_file_sound [OF z] show ?thesis by blast
qed

text \<open>
  Address, mail-exchanger and service records written out in zone-file form parse back to
  themselves: with an owner word, a TTL, the class and the data in decimal, the parser returns the
  record with exactly that owner, TTL and data.
\<close>

theorem record_line_roundtrip:
  assumes "is_word owner" and "parse_owner H owner origin n = Inr name"
    and "is_word target" and "parse_domain_name H target origin = Some tname"
  shows "parse_resource_record H C
      (join '' '' [owner, show_nat (unat ttl), ''IN'', ''A'', show_ipv4 a]) origin dflt n =
        Inr (Some (from_rdata H name ttl (RD_A a))) \<and>
    parse_resource_record H C
      (join '' '' [owner, show_nat (unat ttl), ''IN'', ''MX'', show_nat (unat p), target]) origin dflt n =
        Inr (Some (from_rdata H name ttl (RD_MX p tname))) \<and>
    parse_resource_record H C
      (join '' '' [owner, show_nat (unat ttl), ''IN'', ''SRV'', show_nat (unat p), show_nat (unat w),
         show_nat (unat q), target]) origin dflt n =
        Inr (Some (from_rdata H name ttl (RD_SRV p w q tname)))"
proof (intro conjI)
  have words: "is_word ''IN''" "is_word ''A''" "is_word ''MX''" "is_word ''SRV''"
    by (auto simp: is_word_def is_whitespace_def white_space_codes_def)
  have num: "parse_uint (show_nat (unat v)) = Some v" for v :: "'w::len word"
    by (simp add: parse_uint_show unsigned_less)
  note parse = parse_resource_record_def Let_def part_def num parse_rdata_def field_def
  show "parse_resource_record H C
      (join '' '' [owner, show_nat (unat ttl), ''IN'', ''A'', show_ipv4 a]) origin dflt n =
        Inr (Some (from_rdata H name ttl (RD_A a)))"
    using assms words
    by (simp add: parse split_join [where ws = "[owner, show_nat (unat ttl), ''IN'', ''A'', show_ipv4 a]"]
        show_nat_is_word show_ipv4_is_word parse_rdata_A_def parse_ipv4_show del: join.simps)
  show "parse_resource_record H C
      (join '' '' [owner, show_nat (unat ttl), ''IN'', ''MX'', show_nat (unat p), target]) origin dflt n =
        Inr (Some (from_rdata H name ttl (RD_MX p tname)))"
    using assms words
    by (simp add: parse split_join
        [where ws = "[owner, show_nat (unat ttl), ''IN'', ''MX'', show_nat (unat p), target]"]
        show_nat_is_word parse_rdata_MX_def del: join.simps)
  show "parse_resource_record H C
      (join '' '' [owner, show_nat (unat ttl), ''IN'', ''SRV'', show_nat (unat p), show_nat (unat w),
         show_nat (unat q), target]) origin dflt n =
        Inr (Some (from_rdata H name ttl (RD_SRV p w q tname)))"
    using assms words
    by (simp add: parse split_join
        [where ws = "[owner, show_nat (unat ttl), ''IN'', ''SRV'', show_nat (unat p), show_nat (unat w),
         show_nat (unat q), target]"]
        show_nat_is_word parse_rdata_SRV_def del: join.simps)
qed

theorem record_line_roundtrip_witness:
  "parse_resource_record sample sample_codecs
      (join '' '' [''www'', show_nat (unat (300 :: u32)), ''IN'', ''A'', show_ipv4 (192, 0, 2, 1)])
      example_com 3600 0 =
    Inr (Some (from_rdata sample (''www'' # example_com) 300 (RD_A (192, 0, 2, 1))))"
proof -
  have "is_word ''www''" "is_word ''ns1''"
    by (auto simp: is_word_def is_whitespace_def white_space_codes_def)
  moreover have "parse_owner sample ''www'' example_com 0 = Inr (''www'' # example_com)"
    "parse_domain_name sample ''ns1'' example_com = Some (''ns1'' # example_com)"
    by code_simp+
  ultimately show ?thesis by (intro record_line_roundtrip [THEN conjunct1])
qed

text \<open>
  C35. A record written over several lines between parentheses becomes one line: the opening
  line, the lines inside and the closing line, each without its comment and the parentheses, in
  order and separated by spaces; lines outside parentheses keep their text and empty ones vanish.
\<close>

theorem preprocess_groups:
  assumes "\<forall>l \<in> set before. no_parens l"
    and "CHR ''('' \<in> set (bare opening)"
    and "\<forall>l \<in> set inside. no_parens l"
    and "CHR ''('' \<notin> set (bare closing)" and "CHR '')'' \<in> set (bare closing)"
    and "\<forall>l \<in> set after. no_parens l"
    and "str_lines content = before @ [opening] @ inside @ [closing] @ after"
  shows "preprocess_zone_content content =
    filter (\<lambda>l. l \<noteq> []) (map bare before) @
    [trim (trim (remove_char CHR ''('' (bare opening)) @ '' '' @
       concat (map (\<lambda>l. bare l @ '' '') inside) @ trim (remove_char CHR '')'' (bare closing)))] @
    filter (\<lambda>l. l \<noteq> []) (map bare after)"
  using assms
  by (simp add: preprocess_zone_content_def foldl_outside foldl_inside preprocess_line_def [of _ "opening"]
      preprocess_line_def [of _ "closing"] preprocess_finish_def Let_def)

theorem preprocess_groups_witness:
  "preprocess_zone_content
     (''@ IN SOA a. b. ( ; start'' @ [newline] @ ''  1 2'' @ [newline] @ '' 3 4 5 )'' @ [newline] @ ''x IN NS a.'') =
   [''@ IN SOA a. b. 1 2 3 4 5'', ''x IN NS a.'']"
proof -
  let ?o = "''@ IN SOA a. b. ( ; start''" and ?c = "'' 3 4 5 )''"
  have bare: "bare ?o = ''@ IN SOA a. b. (''" "bare ''  1 2'' = ''1 2''" "bare ?c = ''3 4 5 )''"
    "bare ''x IN NS a.'' = ''x IN NS a.''"
    by code_simp+
  have ls: "str_lines (?o @ [newline] @ ''  1 2'' @ [newline] @ ?c @ [newline] @ ''x IN NS a.'') =
      [] @ [?o] @ [''  1 2''] @ [?c] @ [''x IN NS a.'']"
    by code_simp
  have t: "trim (trim (remove_char CHR ''('' ''@ IN SOA a. b. ('') @ '' '' @ ''1 2'' @ '' '' @
      trim (remove_char CHR '')'' ''3 4 5 )'')) = ''@ IN SOA a. b. 1 2 3 4 5''"
    by code_simp
  show ?thesis
    using preprocess_groups [OF _ _ _ _ _ _ ls] t by (simp add: bare no_parens_def)
qed

text \<open>
  C40. A record whose parentheses open and close on one line swallows every line that follows it,
  when no later line has a parenthesis: all of them become one line with the record, in which the
  closing parenthesis is still there. The lines before it are as they would be without it.
\<close>

theorem one_line_parens_swallow_next:
  assumes "\<forall>l \<in> set before. no_parens l"
    and "CHR ''('' \<in> set (bare line)" and "CHR '')'' \<in> set (bare line)"
    and "\<forall>l \<in> set after. no_parens l"
    and "str_lines content = before @ [line] @ after"
  shows "\<exists>joined. preprocess_zone_content content = filter (\<lambda>l. l \<noteq> []) (map bare before) @ [joined] \<and>
    joined = trim (trim (remove_char CHR ''('' (bare line)) @ '' '' @ concat (map (\<lambda>l. bare l @ '' '') after)) \<and>
    CHR '')'' \<in> set joined"
proof -
  let ?text = "trim (remove_char CHR ''('' (bare line)) @ '' '' @ concat (map (\<lambda>l. bare l @ '' '') after)"
  have visible: "\<forall>w \<in> set white_space_codes. code (CHR '')'') \<notin> set w" by code_simp
  have "CHR '')'' \<in> set (remove_char CHR ''('' (bare line))" using assms(3) by (simp add: remove_char_def)
  then have "CHR '')'' \<in> set ?text" using in_trim [OF _ visible] by simp
  then have "CHR '')'' \<in> set (trim ?text)" by (rule in_trim [OF _ visible])
  moreover have "preprocess_zone_content content = filter (\<lambda>l. l \<noteq> []) (map bare before) @ [trim ?text]"
    using assms by (simp add: preprocess_zone_content_def foldl_outside foldl_inside
        preprocess_line_def [of _ line] preprocess_finish_def Let_def)
  ultimately show ?thesis by blast
qed

theorem one_line_parens_swallow_next_witness:
  "\<exists>joined. preprocess_zone_content
     (''@ IN SOA a. b. ( 1 2 3 4 5 )'' @ [newline] @ ''x IN NS a.'' @ [newline] @ ''y IN NS a.'') = [joined] \<and>
   joined = ''@ IN SOA a. b.  1 2 3 4 5 ) x IN NS a. y IN NS a.''"
proof -
  let ?l = "''@ IN SOA a. b. ( 1 2 3 4 5 )''" and ?after = "[''x IN NS a.'', ''y IN NS a.'']"
  let ?content = "?l @ [newline] @ ''x IN NS a.'' @ [newline] @ ''y IN NS a.''"
  have bare: "bare ?l = ?l" "bare ''x IN NS a.'' = ''x IN NS a.''" "bare ''y IN NS a.'' = ''y IN NS a.''"
    by code_simp+
  have ls: "str_lines ?content = [] @ [?l] @ ?after" by code_simp
  have t: "trim (trim (remove_char CHR ''('' ?l) @ '' '' @ ''x IN NS a.'' @ '' '' @ ''y IN NS a.'' @ '' '') =
      ''@ IN SOA a. b.  1 2 3 4 5 ) x IN NS a. y IN NS a.''" by code_simp
  from one_line_parens_swallow_next [OF _ _ _ _ ls] t show ?thesis by (simp add: bare no_parens_def)
qed
end
