(* ===== verification/Zone_Print.thy ===== *)
theory Zone_Print
  imports Zone_Parser
begin

text \<open>
  A printer for zone files and the proof that the parser of \<open>src/zone.rs\<close> inverts it: a list of
  records that starts with an SOA record, written out one record per line, loads into the zone of
  exactly those records. The printer is a specification of the format the parser reads; it stands
  for no code of the server.
\<close>

section \<open>Lines of a text\<close>

lemma lines_from_line:
  assumes "newline \<notin> set l"
  shows "lines_from (l @ newline # s) cur = strip_cr (cur @ l) # lines_from s []"
  using assms by (induction l arbitrary: cur) auto

lemma str_lines_print:
  assumes "\<forall>l \<in> set ls. newline \<notin> set l \<and> (l \<noteq> [] \<longrightarrow> last l \<noteq> carriage_return)"
  shows "str_lines (concat (map (\<lambda>l. l @ [newline]) ls)) = ls"
  using assms by (induction ls) (auto simp: str_lines_def lines_from_line strip_cr_def)

lemma trim_id:
  assumes "s \<noteq> []" and "\<forall>c \<in> set s. code c < 128"
    and "\<not> is_whitespace [hd s]" and "\<not> is_whitespace [last s]"
  shows "trim s = s"
proof -
  let ?cs = "map (\<lambda>c. [c]) s"
  have keep: "dropWhile P xs = xs" if "xs \<noteq> []" "\<not> P (hd xs)" for P and xs :: "string list"
    using that by (cases xs) auto
  have "dropWhile is_whitespace ?cs = ?cs" using assms by (intro keep) (auto simp: hd_map)
  moreover have "dropWhile is_whitespace (rev ?cs) = rev ?cs"
    using assms by (intro keep) (auto simp: hd_rev last_map)
  moreover have "concat (map (\<lambda>c. [c]) s) = s" by (induction s) auto
  ultimately show ?thesis using chars_ascii [OF assms(2)] by (simp add: trim_def)
qed

lemma join_append:
  "xs \<noteq> [] \<Longrightarrow> ys \<noteq> [] \<Longrightarrow> join sep (xs @ ys) = join sep xs @ sep @ join sep ys"
proof (induction xs)
  case (Cons x xs)
  then show ?case by (cases xs; cases ys) auto
qed simp

lemma set_join: "set (join sep ws) \<subseteq> \<Union> (set (map set ws)) \<union> set sep"
  by (induction sep ws rule: join.induct) auto

lemma join_hd: "ws \<noteq> [] \<Longrightarrow> hd ws \<noteq> [] \<Longrightarrow> join sep ws \<noteq> [] \<and> hd (join sep ws) = hd (hd ws)"
  by (induction sep ws rule: join.induct) auto

lemma join_last: "ws \<noteq> [] \<Longrightarrow> last ws \<noteq> [] \<Longrightarrow> join sep ws \<noteq> [] \<and> last (join sep ws) = last (last ws)"
  by (induction sep ws rule: join.induct) auto

text \<open>A line of words reads back as it is: nothing to trim, no line end inside it.\<close>

lemma word_line:
  assumes "ws \<noteq> []" and "\<forall>w \<in> set ws. is_word w"
  shows "trim (join '' '' ws) = join '' '' ws" and "newline \<notin> set (join '' '' ws)"
    and "join '' '' ws \<noteq> []" and "last (join '' '' ws) \<noteq> carriage_return"
    and "hd (join '' '' ws) = hd (hd ws)"
proof -
  from assms have ends: "is_word (hd ws)" "is_word (last ws)" by auto
  then have first: "join '' '' ws \<noteq> []" "hd (join '' '' ws) = hd (hd ws)"
    using assms(1) join_hd [of ws "'' ''"] by (auto simp: is_word_def)
  from ends have final: "last (join '' '' ws) = last (last ws)"
    using assms(1) join_last [of ws "'' ''"] by (auto simp: is_word_def)
  have cr: "is_whitespace [carriage_return]" "is_whitespace [newline]" "newline \<noteq> CHR '' ''" by code_simp+
  from first final ends have "\<not> is_whitespace [hd (join '' '' ws)]" "\<not> is_whitespace [last (join '' '' ws)]"
    by (auto simp: is_word_def)
  then show "trim (join '' '' ws) = join '' '' ws" "last (join '' '' ws) \<noteq> carriage_return"
    using trim_id [OF first(1) join_ascii [OF assms(2)]] cr(1) by auto
  show "newline \<notin> set (join '' '' ws)"
    using set_join [of "'' ''" ws] assms(2) cr by (auto simp: is_word_def)
  show "join '' '' ws \<noteq> []" "hd (join '' '' ws) = hd (hd ws)" by (rule first)+
qed

section \<open>Numbers and addresses\<close>

definition hex_char :: "nat \<Rightarrow> char" where
  "hex_char d = char_of (if d < 10 then 48 + d else 87 + d)"

fun show_hex :: "nat \<Rightarrow> string" where
  "show_hex n = (if n < 16 then [hex_char n] else show_hex (n div 16) @ [hex_char (n mod 16)])"

declare show_hex.simps [simp del]

definition show_ipv6 :: "ipv6 \<Rightarrow> string" where
  "show_ipv6 gs = join '':'' (map (\<lambda>g. show_hex (unat g)) gs)"

definition show_i32 :: "i32 \<Rightarrow> string" where
  "show_i32 w = (if sint w < 0 then CHR ''-'' # show_nat (nat (- sint w)) else show_nat (nat (sint w)))"

lemma to_digit_hex_char: "d < 16 \<Longrightarrow> to_digit 16 (hex_char d) = Some d"
  by (auto simp: to_digit_def hex_char_def Let_def)

lemma digits_value_hex: "digits_value 16 0 (show_hex n) = Some n"
proof (induction n rule: show_hex.induct)
  case (1 n)
  then show ?case
    by (subst show_hex.simps) (auto simp: digits_value_append to_digit_hex_char)
qed

lemma show_hex_digits: "c \<in> set (show_hex n) \<Longrightarrow> \<exists>d < 16. c = hex_char d"
proof (induction n rule: show_hex.induct)
  case (1 n)
  from 1(2) show ?case
    by (subst (asm) show_hex.simps)
       (auto split: if_splits dest: 1(1) intro: exI [of _ "n mod 16"])
qed

lemma show_hex_nonempty [simp]: "show_hex n \<noteq> []"
  by (subst show_hex.simps) simp

lemma length_show_hex_le: "n < 16 ^ Suc k \<Longrightarrow> length (show_hex n) \<le> Suc k"
proof (induction k arbitrary: n)
  case 0
  then show ?case by (subst show_hex.simps) simp
next
  case (Suc k)
  then have "length (show_hex (n div 16)) \<le> Suc k" by (intro Suc.IH) auto
  then show ?case by (subst show_hex.simps) simp
qed

lemma hex_char_code: "d < 16 \<Longrightarrow> code (hex_char d) \<in> {48..57} \<union> {97..102}"
  by (auto simp: hex_char_def)

lemma show_hex_codes: "c \<in> set (show_hex n) \<Longrightarrow> code c \<in> {48..57} \<union> {97..102}"
  by (auto dest!: show_hex_digits dest: hex_char_code)

lemma show_hex_to_digit: "c \<in> set (show_hex n) \<Longrightarrow> to_digit 16 c \<noteq> None"
  by (auto dest!: show_hex_digits simp: to_digit_hex_char)

lemma read_group_show:
  assumes "rest = [] \<or> to_digit 16 (hd rest) = None"
  shows "read_number 16 4 True 65536 (show_hex (unat (g :: u16)) @ rest) = Some (unat g, rest)"
proof -
  let ?n = "unat g"
  have lt: "?n < 65536" using unsigned_less [of g] by simp
  have tw: "takeWhile (\<lambda>c. to_digit 16 c \<noteq> None) (show_hex ?n @ rest) = show_hex ?n"
    using assms by (cases rest) (auto simp: takeWhile_append dest: show_hex_to_digit)
  have "length (show_hex ?n) \<le> 4" using lt length_show_hex_le [of ?n 3] by simp
  with lt show ?thesis unfolding read_number_def Let_def tw by (auto simp: digits_value_hex)
qed

text \<open>Without a dot there is no embedded IPv4 address.\<close>

lemma read_octet_rest: "read_octet s = Some (b, rest) \<Longrightarrow> set rest \<subseteq> set s"
  by (auto simp: read_octet_def read_number_def Let_def split: if_splits option.splits dest: in_set_dropD)

lemma read_ipv4_no_dot:
  assumes "CHR ''.'' \<notin> set s"
  shows "read_ipv4 s = None"
proof (cases "read_octet s")
  case (Some p)
  obtain b rest where p: "p = (b, rest)" by (cases p)
  with Some assms have "CHR ''.'' \<notin> set rest" by (auto dest: read_octet_rest)
  then have "read_dot_octet rest = None" by (cases rest) (auto simp: read_dot_octet_def)
  with Some p show ?thesis by (simp add: read_ipv4_def)
qed (simp add: read_ipv4_def)

lemma read_groups_show_tail:
  assumes "0 < i"
  shows "read_groups (length gs) i (concat (map (\<lambda>g :: u16. CHR '':'' # show_hex (unat g)) gs)) = (gs, False, [])"
  using assms
proof (induction gs arbitrary: i)
  case (Cons g gs)
  let ?t = "concat (map (\<lambda>g :: u16. CHR '':'' # show_hex (unat g)) gs)"
  have colon: "to_digit 16 CHR '':'' = None" by code_simp
  have nodot: "CHR ''.'' \<notin> set (show_hex (unat g) @ ?t)"
    using show_hex_codes [where c = "CHR ''.''"] by auto
  have rest: "?t = [] \<or> to_digit 16 (hd ?t) = None" using colon by (cases gs) auto
  show ?case
    using Cons read_group_show [OF rest, of g] read_ipv4_no_dot [OF nodot]
    by (cases gs) (simp_all add: read_sep_def)
qed simp

lemma parse_ipv6_show:
  assumes "length gs = 8"
  shows "parse_ipv6 (show_ipv6 gs) = Some gs"
proof -
  from assms obtain g gs' where gs: "gs = g # gs'" and l: "length gs' = 7" by (cases gs) auto
  let ?t = "concat (map (\<lambda>g :: u16. CHR '':'' # show_hex (unat g)) gs')"
  have tail: "join '':'' (show_hex (unat g) # map (\<lambda>g. show_hex (unat g)) xs) =
      show_hex (unat g) @ concat (map (\<lambda>g. CHR '':'' # show_hex (unat g)) xs)" for g :: u16 and xs :: "u16 list"
    by (induction xs arbitrary: g) auto
  then have s: "show_ipv6 gs = show_hex (unat g) @ ?t" by (simp add: show_ipv6_def gs)
  have nodot: "CHR ''.'' \<notin> set (show_hex (unat g) @ ?t)"
    using show_hex_codes [where c = "CHR ''.''"] by auto
  have rest: "?t = [] \<or> to_digit 16 (hd ?t) = None" using l by (cases gs') (auto simp: to_digit_def)
  have "read_groups (Suc 7) 0 (show_hex (unat g) @ ?t) = (g # gs', False, [])"
    using read_group_show [OF rest, of g] read_ipv4_no_dot [OF nodot] read_groups_show_tail [of 1 gs'] l
    by (subst read_groups.simps) (simp add: read_sep_def)
  then have "read_groups 8 0 (show_ipv6 gs) = (gs, False, [])" by (simp add: s [unfolded gs] gs)
  then show ?thesis using assms by (simp add: parse_ipv6_def)
qed

lemma parse_i32_show: "parse_i32 (show_i32 w) = Some w"
proof -
  have range: "- (2 ^ 31) \<le> sint w" "sint w < 2 ^ 31"
    using sint_range_size [of w] by (simp_all add: word_size)
  show ?thesis
  proof (cases "sint w < 0")
    case True
    with range show ?thesis by (simp add: show_i32_def parse_i32_def nat_le_iff)
  next
    case False
    obtain c cs where s: "show_nat (nat (sint w)) = c # cs" by (cases "show_nat (nat (sint w))") auto
    have "48 \<le> code c" using show_nat_codes [of c "nat (sint w)"] s by simp
    then have "c \<noteq> CHR ''-''" by auto
    moreover have "word_of_nat (nat (sint w)) = w"
    proof -
      have "word_of_nat (nat (sint w)) = (of_int (int (nat (sint w))) :: i32)" by (rule of_int_of_nat_eq [symmetric])
      also have "int (nat (sint w)) = sint w" using False by (intro int_nat_eq [THEN trans]) simp
      finally show ?thesis by simp
    qed
    moreover have "parse_nat (strip_plus (c # cs)) = Some (nat (sint w))" by (simp flip: s)
    ultimately show ?thesis
      using False range by (simp add: show_i32_def parse_i32_def s nat_less_iff)
  qed
qed

section \<open>The printer\<close>

text \<open>The encoders of the two byte formats a zone file holds, the texts of the record types and the
  numbers of the digest types.\<close>

record encoders =
  hex_encode :: "bytes \<Rightarrow> string"
  base64_encode :: "bytes \<Rightarrow> string"
  rtype_text :: "record_type \<Rightarrow> string"
  digest_number :: "digest_type \<Rightarrow> u8"

text \<open>The words of a text between quotes.\<close>

fun close_quote :: "string list \<Rightarrow> string list" where
  "close_quote [] = [[dquote]]"
| "close_quote [w] = [w @ [dquote]]"
| "close_quote (w # v # ws) = w # close_quote (v # ws)"

definition quote_words :: "string list \<Rightarrow> string list" where
  "quote_words ws = close_quote (case ws of [] \<Rightarrow> [[dquote]] | w # ws' \<Rightarrow> (dquote # w) # ws')"

definition quoted :: "string \<Rightarrow> string" where
  "quoted s = dquote # s @ [dquote]"

definition dnskey_bits :: "bool \<Rightarrow> bool \<Rightarrow> bool \<Rightarrow> u16" where
  "dnskey_bits zone_key entry revoked =
     (if zone_key then 0x0100 else 0) OR (if entry then 0x0001 else 0) OR (if revoked then 0x8000 else 0)"

fun rdata_words :: "'n hickory \<Rightarrow> encoders \<Rightarrow> 'n rdata \<Rightarrow> string list" where
  "rdata_words H E (RD_A a) = [''A'', show_ipv4 a]"
| "rdata_words H E (RD_AAAA a) = [''AAAA'', show_ipv6 a]"
| "rdata_words H E (RD_NS n) = [''NS'', name_display H n]"
| "rdata_words H E (RD_CNAME n) = [''CNAME'', name_display H n]"
| "rdata_words H E (RD_PTR n) = [''PTR'', name_display H n]"
| "rdata_words H E (RD_MX p n) = [''MX'', show_nat (unat p), name_display H n]"
| "rdata_words H E (RD_SRV p w q n) =
     [''SRV'', show_nat (unat p), show_nat (unat w), show_nat (unat q), name_display H n]"
| "rdata_words H E (RD_SOA m r s f t e i) =
     [''SOA'', name_display H m, name_display H r, show_nat (unat s), show_i32 f, show_i32 t, show_i32 e,
      show_nat (unat i)]"
| "rdata_words H E (RD_TXT ts) = ''TXT'' # quote_words (split_whitespace (concat ts))"
| "rdata_words H E (RD_NAPTR p q f s r n) =
     [''NAPTR'', show_nat (unat p), show_nat (unat q), quoted f, quoted s, quoted r, name_display H n]"
| "rdata_words H E (RD_TLSA u s m d) =
     [''TLSA'', show_nat (unat u), show_nat (unat s), show_nat (unat m), hex_encode E d]"
| "rdata_words H E (RD_SSHFP a f d) = [''SSHFP'', show_nat (unat a), show_nat (unat f), hex_encode E d]"
| "rdata_words H E (RD_DNSSEC (DNSKEY z s r a k)) =
     [''DNSKEY'', show_nat (unat (dnskey_bits z s r)), ''3'', show_nat (unat (algorithm_to_u8 H a)),
      base64_encode E k]"
| "rdata_words H E (RD_DNSSEC (SIG t a l ottl expires begins tag signer sig)) =
     [''RRSIG'', rtype_text E t, show_nat (unat (algorithm_to_u8 H a)), show_nat (unat l), show_nat (unat ottl),
      show_nat (unat expires), show_nat (unat begins), show_nat (unat tag), name_display H signer, base64_encode E sig]"
| "rdata_words H E (RD_DNSSEC (NSEC n ts)) = ''NSEC'' # name_display H n # map (rtype_text E) ts"
| "rdata_words H E (RD_DNSSEC (DS tag a dt d)) =
     [''DS'', show_nat (unat tag), show_nat (unat (algorithm_to_u8 H a)), show_nat (unat (digest_number E dt)),
      hex_encode E d]"
| "rdata_words H E (RD_CAA critical issuer) =
     [''CAA'', if critical then ''128'' else ''0'', ''issue'',
      quoted (case issuer of None \<Rightarrow> [] | Some n \<Rightarrow> name_display H n)]"
| "rdata_words H E (RD_other t) = []"

text \<open>
  Which data can be written: the words hold no character the preprocessor treats specially, the
  name functions and the decoders invert the renderings used, and the text of a TXT record, which
  may hold a semicolon between its quotes, has single spaces between its words.
\<close>

definition plain_word :: "string \<Rightarrow> bool" where
  "plain_word w \<longleftrightarrow> is_word w \<and> CHR ''('' \<notin> set w \<and> CHR '')'' \<notin> set w \<and> CHR '';'' \<notin> set w"

definition text_word :: "string \<Rightarrow> bool" where
  "text_word w \<longleftrightarrow> is_word w \<and> CHR ''('' \<notin> set w \<and> CHR '')'' \<notin> set w \<and> dquote \<notin> set w"

definition printable_name :: "'n hickory \<Rightarrow> 'n \<Rightarrow> bool" where
  "printable_name H n \<longleftrightarrow>
     (let s = name_display H n in
      plain_word s \<and> dquote \<notin> set s \<and> ends_with_dot s \<and> name_from_str H s = Some n)"

definition printable_string :: "string \<Rightarrow> bool" where
  "printable_string s \<longleftrightarrow> (s = [] \<or> plain_word s) \<and> dquote \<notin> set s"

definition printable_type :: "'n hickory \<Rightarrow> encoders \<Rightarrow> record_type \<Rightarrow> bool" where
  "printable_type H E t \<longleftrightarrow> plain_word (rtype_text E t) \<and> rtype_from_str H (rtype_text E t) = Some t"

fun printable_rdata :: "'n hickory \<Rightarrow> codecs \<Rightarrow> encoders \<Rightarrow> 'n rdata \<Rightarrow> bool" where
  "printable_rdata H C E (RD_A a) \<longleftrightarrow> True"
| "printable_rdata H C E (RD_AAAA a) \<longleftrightarrow> length a = 8"
| "printable_rdata H C E (RD_NS n) \<longleftrightarrow> printable_name H n"
| "printable_rdata H C E (RD_CNAME n) \<longleftrightarrow> printable_name H n"
| "printable_rdata H C E (RD_PTR n) \<longleftrightarrow> printable_name H n"
| "printable_rdata H C E (RD_MX p n) \<longleftrightarrow> printable_name H n"
| "printable_rdata H C E (RD_SRV p w q n) \<longleftrightarrow> printable_name H n"
| "printable_rdata H C E (RD_SOA m r s f t e i) \<longleftrightarrow> printable_name H m \<and> printable_name H r"
| "printable_rdata H C E (RD_TXT ts) \<longleftrightarrow>
     length ts = 1 \<and> concat ts = join '' '' (split_whitespace (concat ts)) \<and>
     list_all text_word (split_whitespace (concat ts))"
| "printable_rdata H C E (RD_NAPTR p q f s r n) \<longleftrightarrow>
     printable_string f \<and> printable_string s \<and> printable_string r \<and> printable_name H n"
| "printable_rdata H C E (RD_TLSA u s m d) \<longleftrightarrow>
     plain_word (hex_encode E d) \<and> hex_decode C (hex_encode E d) = Some d"
| "printable_rdata H C E (RD_SSHFP a f d) \<longleftrightarrow>
     plain_word (hex_encode E d) \<and> hex_decode C (hex_encode E d) = Some d"
| "printable_rdata H C E (RD_DNSSEC (DNSKEY z s r a k)) \<longleftrightarrow>
     algorithm_from_u8 H (algorithm_to_u8 H a) = a \<and>
     plain_word (base64_encode E k) \<and> base64_decode C (base64_encode E k) = Some k"
| "printable_rdata H C E (RD_DNSSEC (SIG t a l ottl expires begins tag signer sig)) \<longleftrightarrow>
     printable_type H E t \<and> algorithm_from_u8 H (algorithm_to_u8 H a) = a \<and> printable_name H signer \<and>
     plain_word (base64_encode E sig) \<and> base64_decode C (base64_encode E sig) = Some sig"
| "printable_rdata H C E (RD_DNSSEC (NSEC n ts)) \<longleftrightarrow>
     printable_name H n \<and> ts \<noteq> [] \<and> list_all (printable_type H E) ts"
| "printable_rdata H C E (RD_DNSSEC (DS tag a dt d)) \<longleftrightarrow>
     algorithm_from_u8 H (algorithm_to_u8 H a) = a \<and> digest_type_from_u8 H (digest_number E dt) = Some dt \<and>
     plain_word (hex_encode E d) \<and> hex_decode C (hex_encode E d) = Some d"
| "printable_rdata H C E (RD_CAA critical issuer) \<longleftrightarrow>
     (case issuer of None \<Rightarrow> True | Some n \<Rightarrow> printable_name H n)"
| "printable_rdata H C E (RD_other t) \<longleftrightarrow> False"

definition printable :: "'n hickory \<Rightarrow> codecs \<Rightarrow> encoders \<Rightarrow> 'n rr \<Rightarrow> bool" where
  "printable H C E r \<longleftrightarrow>
     printable_name H (rr_name r) \<and> \<not> starts_with (name_display H (rr_name r)) ''$'' \<and>
     (case rr_data r of
        None \<Rightarrow> False
      | Some d \<Rightarrow> rr_type r = rdata_type H d \<and> printable_rdata H C E d)"

definition record_words :: "'n hickory \<Rightarrow> encoders \<Rightarrow> 'n rr \<Rightarrow> string list" where
  "record_words H E r =
     name_display H (rr_name r) # show_nat (unat (rr_ttl r)) # ''IN'' #
       (case rr_data r of None \<Rightarrow> [] | Some d \<Rightarrow> rdata_words H E d)"

definition record_line :: "'n hickory \<Rightarrow> encoders \<Rightarrow> 'n rr \<Rightarrow> string" where
  "record_line H E r = join '' '' (record_words H E r)"

definition print_zone :: "'n hickory \<Rightarrow> encoders \<Rightarrow> 'n rr list \<Rightarrow> string" where
  "print_zone H E rs = concat (map (\<lambda>r. record_line H E r @ [newline]) rs)"

section \<open>What the printed words are\<close>

lemma visible: "32 < code c \<Longrightarrow> code c < 128 \<Longrightarrow> \<not> is_whitespace [c]"
  by (simp add: is_whitespace_def white_space_codes_def)

lemma dquote_simps [simp]:
  "dquote \<noteq> CHR ''(''" "dquote \<noteq> CHR '')''" "dquote \<noteq> CHR '';''" "code dquote = 34"
  "CHR ''('' \<noteq> dquote" "CHR '')'' \<noteq> dquote" "CHR '';'' \<noteq> dquote"
  by code_simp+

lemma plain_wordI:
  "w \<noteq> [] \<Longrightarrow> \<forall>c \<in> set w. code c < 128 \<and> 32 < code c \<and> c \<notin> {CHR ''('', CHR '')'', CHR '';''} \<Longrightarrow>
     plain_word w"
  by (auto simp: plain_word_def is_word_def dest!: visible)

lemma show_nat_char: "c \<in> set (show_nat n) \<Longrightarrow> code c < 128 \<and> 32 < code c \<and> c \<notin> {CHR ''('', CHR '')'', CHR '';'', dquote}"
  by (drule show_nat_codes) auto

lemma plain_show_nat [simp]: "plain_word (show_nat n)"
  by (rule plain_wordI) (auto dest: show_nat_char)

lemma plain_show_i32 [simp]: "plain_word (show_i32 w)"
  by (rule plain_wordI) (auto simp: show_i32_def dest: show_nat_char split: if_splits)

lemma plain_show_ipv4 [simp]: "plain_word (show_ipv4 a)"
  by (rule plain_wordI) (auto simp: show_ipv4_def dest: show_nat_char split: prod.splits)

lemma plain_show_ipv6: "gs \<noteq> [] \<Longrightarrow> plain_word (show_ipv6 gs)"
proof (rule plain_wordI)
  assume "gs \<noteq> []"
  then show "show_ipv6 gs \<noteq> []"
    using join_hd [of "map (\<lambda>g. show_hex (unat g)) gs" "'':''"] by (simp add: show_ipv6_def hd_map)
  have "c \<in> set (show_hex n) \<Longrightarrow> code c < 128 \<and> 32 < code c \<and> c \<notin> {CHR ''('', CHR '')'', CHR '';''}" for c n
    by (drule show_hex_codes) auto
  then show "\<forall>c \<in> set (show_ipv6 gs). code c < 128 \<and> 32 < code c \<and> c \<notin> {CHR ''('', CHR '')'', CHR '';''}"
    using set_join [of "'':''" "map (\<lambda>g. show_hex (unat g)) gs"] by (fastforce simp: show_ipv6_def)
qed

lemma plain_quoted: "printable_string s \<Longrightarrow> plain_word (quoted s)"
  by (auto simp: printable_string_def quoted_def plain_word_def is_word_def visible)

lemma plain_literals [simp]:
  "plain_word ''A''" "plain_word ''AAAA''" "plain_word ''NS''" "plain_word ''CNAME''" "plain_word ''PTR''"
  "plain_word ''MX''" "plain_word ''SRV''" "plain_word ''SOA''" "plain_word ''TXT''" "plain_word ''NAPTR''"
  "plain_word ''RRSIG''" "plain_word ''NSEC''" "plain_word ''DS''" "plain_word ''CAA''" "plain_word ''128''"
  "plain_word ''0''" "plain_word ''issue''" "plain_word ''TLSA''" "plain_word ''SSHFP''" "plain_word ''DNSKEY''" "plain_word ''IN''" "plain_word ''3''"
  by (auto intro!: plain_wordI)

lemma plain_word_IN: "plain_word ''IN''" and plain_word_TXT: "plain_word ''TXT''"
  by simp_all

lemma plain_name: "printable_name H n \<Longrightarrow> plain_word (name_display H n)"
  by (simp add: printable_name_def Let_def)

lemma printable_type_word: "printable_type H E t \<Longrightarrow> plain_word (rtype_text E t)"
  by (simp add: printable_type_def)

lemma printable_name_string: "printable_name H n \<Longrightarrow> printable_string (name_display H n)"
  by (simp add: printable_name_def printable_string_def Let_def)

lemma rdata_words_plain:
  "printable_rdata H C E d \<Longrightarrow> (\<And>ts. d \<noteq> RD_TXT ts) \<Longrightarrow> list_all plain_word (rdata_words H E d)"
  by (cases "(H, C, E, d)" rule: printable_rdata.cases)
     (auto simp: plain_name plain_quoted printable_type_word printable_name_string printable_string_def [of "[]"]
       list_all_iff intro: plain_show_ipv6 split: option.splits)

lemma is_word_quote [simp]:
  "is_word [dquote]" "is_word w \<Longrightarrow> is_word (w @ [dquote])" "is_word w \<Longrightarrow> is_word (dquote # w)"
  using visible [of dquote] by (auto simp: is_word_def)

lemma close_quote_words: "\<forall>w \<in> set ws. is_word w \<Longrightarrow> \<forall>w \<in> set (close_quote ws). is_word w"
  by (induction ws rule: close_quote.induct) simp_all

lemma quote_words_words: "\<forall>w \<in> set ws. is_word w \<Longrightarrow> \<forall>w \<in> set (quote_words ws). is_word w"
  unfolding quote_words_def by (rule close_quote_words) (simp split: list.splits)

lemma join_close_quote: "ws \<noteq> [] \<Longrightarrow> join '' '' (close_quote ws) = join '' '' ws @ [dquote]"
proof (induction ws rule: close_quote.induct)
  case (3 w v ws)
  then show ?case by (cases ws) auto
qed auto

lemma join_quote_words: "join '' '' (quote_words ws) = quoted (join '' '' ws)"
proof (cases ws)
  case (Cons w ws')
  then have "join '' '' (quote_words ws) = join '' '' ((dquote # w) # ws') @ [dquote]"
    by (simp add: quote_words_def join_close_quote)
  then show ?thesis using Cons by (cases ws') (simp_all add: quoted_def)
qed (simp add: quote_words_def quoted_def)

lemma quote_words_nonempty [simp]: "quote_words ws \<noteq> []"
proof -
  have "close_quote vs \<noteq> []" for vs by (induction vs rule: close_quote.induct) auto
  then show ?thesis by (simp add: quote_words_def)
qed

lemma trim_quoted: "dquote \<notin> set s \<Longrightarrow> trim_matches dquote (quoted s) = s"
proof -
  assume s: "dquote \<notin> set s"
  have keep: "dropWhile (\<lambda>x. x = dquote) t = t" if "dquote \<notin> set t" for t
    using that by (cases t) auto
  show ?thesis
  proof (cases s)
    case (Cons c cs)
    with s have "dropWhile (\<lambda>x. x = dquote) (quoted s) = s @ [dquote]" by (auto simp: quoted_def)
    with s show ?thesis by (simp add: trim_matches_def keep)
  qed (simp add: trim_matches_def quoted_def)
qed

text \<open>The text of a TXT record, as its words.\<close>

lemma text_words:
  assumes "list_all text_word ws"
  shows "\<forall>w \<in> set ws. is_word w" and "set (join '' '' ws) \<inter> {CHR ''('', CHR '')'', dquote} = {}"
proof -
  have "dquote \<noteq> CHR '' ''" by code_simp
  with assms show "\<forall>w \<in> set ws. is_word w" "set (join '' '' ws) \<inter> {CHR ''('', CHR '')'', dquote} = {}"
    using set_join [of "'' ''" ws] by (auto simp: list_all_iff text_word_def)
qed

lemma rdata_words_words:
  assumes "printable_rdata H C E d"
  shows "\<forall>w \<in> set (rdata_words H E d). is_word w" and "rdata_words H E d \<noteq> []"
proof -
  have "\<forall>w \<in> set (rdata_words H E d). is_word w \<and> rdata_words H E d \<noteq> []"
  proof (cases "\<exists>ts. d = RD_TXT ts")
    case True
    then obtain ts where d: "d = RD_TXT ts" by blast
    with assms have "\<forall>w \<in> set (quote_words (split_whitespace (concat ts))). is_word w"
      by (intro quote_words_words text_words(1)) simp
    with d show ?thesis using plain_word_TXT by (simp add: plain_word_def)
  next
    case False
    with rdata_words_plain [OF assms] show ?thesis by (force simp: list_all_iff plain_word_def)
  qed
  moreover show "rdata_words H E d \<noteq> []"
    using assms by (cases "(H, C, E, d)" rule: printable_rdata.cases) auto
  ultimately show "\<forall>w \<in> set (rdata_words H E d). is_word w" by blast
qed

lemma record_words_words: "printable H C E r \<Longrightarrow> \<forall>w \<in> set (record_words H E r). is_word w"
  using plain_show_nat plain_word_IN
  by (auto simp: printable_def record_words_def plain_word_def dest: plain_name rdata_words_words(1) split: option.splits)

section \<open>The parser inverts the printer\<close>

lemma parse_printed_name: "printable_name H n \<Longrightarrow> parse_domain_name H (name_display H n) origin = Some n"
  by (simp add: printable_name_def parse_domain_name_def Let_def)

lemma parse_printed_owner: "printable_name H n \<Longrightarrow> parse_owner H (name_display H n) origin k = Inr n"
  by (auto simp: printable_name_def parse_owner_def Let_def ends_with_dot_def)

lemma parse_uint_printed: "parse_uint (show_nat (unat v)) = Some (v :: 'w::len word)"
  by (simp add: parse_uint_show unsigned_less)

lemma dnskey_bits_flags:
  "(dnskey_bits z s r AND 0x0100 \<noteq> 0) = z" "(dnskey_bits z s r AND 0x0001 \<noteq> 0) = s"
  "(dnskey_bits z s r AND 0x8000 \<noteq> 0) = r"
  by (cases z; cases s; cases r; simp add: dnskey_bits_def)+

lemma parse_printed_type: "printable_type H E t \<Longrightarrow> rtype_from_str H (rtype_text E t) = Some t"
  by (simp add: printable_type_def)

lemma parse_printed_types:
  "list_all (printable_type H E) ts \<Longrightarrow> List.map_filter (rtype_from_str H) (map (rtype_text E) ts) = ts"
  by (induction ts) (simp_all add: List.map_filter_simps parse_printed_type)

lemma printed_issuer:
  assumes "printable_name H n"
  shows "trim_matches dquote (quoted (name_display H n)) = name_display H n" "name_display H n \<noteq> []"
    "name_display H n \<noteq> '';''" "name_from_str H (name_display H n) = Some n"
  using assms by (auto simp: printable_name_def Let_def trim_quoted ends_with_dot_def)

lemma parse_printed_rdata:
  assumes "printable_rdata H C E d" and "parts = owner # ttl # ''IN'' # rdata_words H E d"
  shows "parse_rdata H C origin (hd (rdata_words H E d)) parts 4 k = Inr (Some d)"
proof -
  have three: "parse_uint ''3'' = Some (3 :: u8)" "parse_uint ''0'' = Some (0 :: u8)"
    "parse_uint ''128'' = Some (128 :: u8)" "(128 :: u8) AND 128 \<noteq> 0" by code_simp+
  note base = three assms(2) parse_rdata_def part_def parts_from_def field_def parse_uint_printed parse_printed_name
    parse_ipv4_show parse_ipv6_show parse_i32_show trim_quoted dnskey_bits_flags printable_string_def
  note types = parse_rdata_A_def parse_rdata_AAAA_def parse_rdata_NS_def parse_rdata_CNAME_def
    parse_rdata_PTR_def parse_rdata_MX_def parse_rdata_SRV_def parse_rdata_SOA_def soa_name_def
    parse_rdata_NAPTR_def parse_rdata_TLSA_def parse_rdata_SSHFP_def parse_rdata_DNSKEY_def parse_rdata_RRSIG_def
    parse_rdata_NSEC_def parse_rdata_DS_def parse_rdata_CAA_def
  show ?thesis
  proof (cases "\<exists>ts. d = RD_TXT ts")
    case True
    then obtain t where d: "d = RD_TXT [t]" and t: "t = join '' '' (split_whitespace t)"
      and ws: "list_all text_word (split_whitespace t)"
      using assms(1) by (auto simp: length_Suc_conv)
    have "dquote \<notin> set t" using text_words(2) [OF ws] by (simp flip: t)
    then have "trim_matches dquote (join '' '' (quote_words (split_whitespace t))) = t"
      by (simp add: join_quote_words trim_quoted flip: t)
    then show ?thesis using d by (simp add: base parse_rdata_TXT_def)
  next
    case False
    with assms(1) show ?thesis
      by (cases "(H, C, E, d)" rule: printable_rdata.cases) (simp_all add: base types parse_printed_type parse_printed_types printed_issuer split: option.splits)
  qed
qed

text \<open>Neither a comment nor a parenthesis is in a printed line.\<close>

lemma plain_line:
  assumes "list_all plain_word ws"
  shows "set (join '' '' ws) \<inter> {CHR ''('', CHR '')'', CHR '';''} = {}"
  using assms set_join [of "'' ''" ws] by (auto simp: list_all_iff plain_word_def)

lemma strip_comment_quoted:
  assumes "CHR '';'' \<notin> set s" and "dquote \<notin> set s" and "dquote \<notin> set t"
  shows "strip_comment (s @ quoted t) = s @ quoted t"
proof (cases "CHR '';'' \<in> set t")
  case True
  then have "takeWhile (\<lambda>x. x \<noteq> CHR '';'') (s @ quoted t) = s @ dquote # takeWhile (\<lambda>x. x \<noteq> CHR '';'') t"
    using assms(1) by (auto simp: quoted_def takeWhile_append)
  moreover have "filter (\<lambda>c. c = dquote) s = []"
    "filter (\<lambda>c. c = dquote) (takeWhile (\<lambda>x. x \<noteq> CHR '';'') t) = []"
    using assms(2,3) by (auto simp: filter_empty_conv dest!: set_takeWhileD)
  ultimately show ?thesis by (simp add: strip_comment_def before_char_def quoted_def)
next
  case False
  with assms(1) show ?thesis by (simp add: strip_comment_def before_char_def quoted_def)
qed

lemma record_line_bare:
  assumes "printable H C E r"
  shows "strip_comment (record_line H E r) = record_line H E r \<and>
    set (record_line H E r) \<inter> {CHR ''('', CHR '')''} = {}"
proof -
  from assms obtain d where d: "rr_data r = Some d" "printable_rdata H C E d"
    and n: "printable_name H (rr_name r)"
    by (auto simp: printable_def split: option.splits)
  let ?pre = "[name_display H (rr_name r), show_nat (unat (rr_ttl r)), ''IN'']"
  show ?thesis
  proof (cases "\<exists>ts. d = RD_TXT ts")
    case True
    then obtain t where t: "d = RD_TXT [t]" "t = join '' '' (split_whitespace t)"
      and ws: "list_all text_word (split_whitespace t)"
      using d(2) by (auto simp: length_Suc_conv)
    let ?s = "join '' '' (?pre @ [''TXT'']) @ '' ''"
    have line: "record_line H E r = ?s @ quoted t"
      using join_append [of "?pre @ [''TXT'']" "quote_words (split_whitespace t)" "'' ''"]
      by (simp add: record_line_def record_words_def d(1) t(1) join_quote_words flip: t(2))
    have pre: "set (join '' '' (?pre @ [''TXT''])) \<inter> {CHR ''('', CHR '')'', CHR '';''} = {}"
      by (rule plain_line) (simp add: plain_name [OF n])
    have "dquote \<notin> set '' IN TXT ''" by code_simp
    moreover have "dquote \<notin> set (name_display H (rr_name r))" "dquote \<notin> set (show_nat (unat (rr_ttl r)))"
      using n show_nat_char by (auto simp: printable_name_def Let_def)
    ultimately have "dquote \<notin> set ?s" by auto
    moreover have "CHR '';'' \<notin> set ?s" using pre by auto
    moreover have q: "set t \<inter> {CHR ''('', CHR '')'', dquote} = {}"
      using text_words(2) [OF ws] by (simp flip: t(2))
    ultimately have "strip_comment (?s @ quoted t) = ?s @ quoted t" by (intro strip_comment_quoted) auto
    with pre q show ?thesis unfolding line by (auto simp: quoted_def)
  next
    case False
    then have "list_all plain_word (record_words H E r)"
      using rdata_words_plain [OF d(2)] plain_name [OF n] by (auto simp: record_words_def d(1))
    from plain_line [OF this] show ?thesis
      by (auto simp: record_line_def strip_comment_def before_char_def)
  qed
qed

lemma parse_record_line:
  assumes "printable H C E r"
  shows "parse_resource_record H C (record_line H E r) origin dflt k = Inr (Some r)"
proof -
  from assms obtain d where d: "rr_data r = Some d" "printable_rdata H C E d" "rr_type r = rdata_type H d"
    and n: "printable_name H (rr_name r)"
    by (auto simp: printable_def split: option.splits)
  let ?ws = "rdata_words H E d"
  let ?parts = "name_display H (rr_name r) # show_nat (unat (rr_ttl r)) # ''IN'' # ?ws"
  have split: "split_whitespace (record_line H E r) = ?parts"
    using split_join [OF record_words_words [OF assms]] by (simp add: record_line_def record_words_def d(1))
  obtain w ws where ws: "?ws = w # ws" using rdata_words_words(2) [OF d(2)] by (cases ?ws) auto
  have "from_rdata H (rr_name r) (rr_ttl r) d = r" using d by (cases r) (simp add: from_rdata_def)
  then show ?thesis
    using parse_printed_rdata [OF d(2) refl, of origin "name_display H (rr_name r)"
        "show_nat (unat (rr_ttl r))" k] parse_printed_owner [OF n]
    by (simp add: parse_resource_record_def split Let_def part_def ws parse_uint_printed)
qed

lemma record_line_line:
  assumes "printable H C E r"
  shows "trim (record_line H E r) = record_line H E r" and "newline \<notin> set (record_line H E r)"
    and "record_line H E r \<noteq> []" and "last (record_line H E r) \<noteq> carriage_return"
    and "\<not> starts_with (record_line H E r) ''$''" and "\<not> starts_with (record_line H E r) '';''"
proof -
  have ws: "record_words H E r \<noteq> []" by (simp add: record_words_def)
  note line = word_line [OF ws record_words_words [OF assms], folded record_line_def]
  show "trim (record_line H E r) = record_line H E r" "newline \<notin> set (record_line H E r)"
    "record_line H E r \<noteq> []" "last (record_line H E r) \<noteq> carriage_return"
    by (rule line)+
  let ?n = "name_display H (rr_name r)"
  have "plain_word ?n" "\<not> starts_with ?n ''$''"
    using assms plain_name by (auto simp: printable_def)
  then obtain c cs where n: "?n = c # cs" "c \<noteq> CHR ''$''" "c \<noteq> CHR '';''"
    by (cases ?n) (auto simp: plain_word_def is_word_def starts_with_def)
  then have "hd (record_line H E r) = c" using line(5) by (simp add: record_words_def)
  with n line(3) show "\<not> starts_with (record_line H E r) ''$''" "\<not> starts_with (record_line H E r) '';''"
    by (cases "record_line H E r"; auto simp: starts_with_def)+
qed

lemma preprocess_print_zone:
  assumes "\<forall>r \<in> set rs. printable H C E r"
  shows "preprocess_zone_content (print_zone H E rs) = map (record_line H E) rs"
proof -
  have lines: "str_lines (print_zone H E rs) = map (record_line H E) rs"
    using str_lines_print [of "map (record_line H E) rs"] assms record_line_line(2,4)
    by (fastforce simp: print_zone_def comp_def)
  have bare: "bare (record_line H E r) = record_line H E r" if "r \<in> set rs" for r
    using that assms record_line_bare record_line_line(1) by metis
  then have "no_parens l" if "l \<in> set (map (record_line H E) rs)" for l
    using that assms record_line_bare by (fastforce simp: no_parens_def)
  moreover have "map bare (map (record_line H E) rs) = map (record_line H E) rs" using bare by simp
  moreover have "filter (\<lambda>l. l \<noteq> []) (map (record_line H E) rs) = map (record_line H E) rs"
    using assms record_line_line(3) by (fastforce intro!: filter_True)
  ultimately show ?thesis
    by (simp add: preprocess_zone_content_def lines foldl_outside preprocess_finish_def del: map_map)
qed

lemma file_records_print:
  "\<forall>r \<in> set rs. printable H C E r \<Longrightarrow> file_records H C st k (map (record_line H E) rs) = Inr rs"
  by (induction rs arbitrary: k)
     (auto simp: line_directive_def line_record_def Let_def record_line_line parse_record_line)

section \<open>What is not kept\<close>

text \<open>
  Data outside \<open>printable_rdata\<close>: two quoted strings of a TXT record become one string with the inner
  quotes in it, and a CAA record with a tag other than \<open>issue\<close> and \<open>issuewild\<close> is loaded as an \<open>issue\<close>
  record without an issuer, whatever its value.
\<close>

lemma txt_strings_merged:
  assumes "s \<noteq> []" and "dquote \<notin> set s" and "t \<noteq> []" and "dquote \<notin> set t"
  shows "parse_rdata_TXT [quoted s, quoted t] 0 = Inr (Some (RD_TXT [s @ dquote # CHR '' '' # dquote # t]))"
proof -
  obtain a s' b t' where s: "s = a # s'" "a \<noteq> dquote" and t: "t = t' @ [b]" "b \<noteq> dquote"
    using assms by (cases s; cases t rule: rev_cases) auto
  then show ?thesis
    by (simp add: parse_rdata_TXT_def parts_from_def quoted_def trim_matches_def)
qed

lemma caa_other_tag:
  assumes "parse_uint flags = Some (f :: u8)" and "tag \<notin> {''issue'', ''issuewild''}"
  shows "parse_rdata_CAA H [flags, tag, value] 0 n = Inr (Some (RD_CAA (f AND 0x80 \<noteq> 0) None))"
  using assms by (simp add: parse_rdata_CAA_def field_def part_def parts_from_def Let_def)

section \<open>A transferred zone, written and loaded again\<close>

lemma parse_print_zone:
  assumes "name_from_str H origin_name = Some origin" and "\<forall>r \<in> set (r # rs). printable H C E r"
    and "is_soa r" and "extract_soa_data r = Some soa"
  shows "parse_zone_file H C (Some (print_zone H E (r # rs))) origin_name =
    Inr (zone_of_records H origin soa (r # rs))"
  using assms(1,3,4)
  by (simp only: parse_zone_file_eq preprocess_print_zone [OF assms(2)] file_records_print [OF assms(2)])
     (simp add: load_records_def)

lemma soa_record_data:
  assumes "rdata_types H"
  shows "is_soa (get_soa_record H z)" and "extract_soa_data (get_soa_record H z) = Some (zone_soa z)"
  using assms by (auto simp: is_soa_def get_soa_record_def Let_def extract_soa_data_def rdata_types_def)

text \<open>The records a transfer carries for a name and a type other than SOA are those of the zone.\<close>

lemma transfer_rrset:
  assumes "rdata_types H" and "t \<noteq> RT_SOA"
  shows "mset (rrset_of H n t (get_all_records H (zone_of_records H origin soa rs))) = mset (rrset_of H n t rs)"
proof -
  let ?z = "zone_of_records H origin soa rs"
  let ?here = "\<lambda>r. name_eq H (rr_name r) n \<and> rr_type r = t"
  have soa: "rr_type (get_soa_record H ?z) \<noteq> t" using assms soa_record_data(1) [of H ?z] by (auto simp: is_soa_def)
  have "mset (rrset_of H n t (get_all_records H ?z)) = filter_mset ?here (mset (axfr_middle H ?z))"
    using soa by (subst get_all_records_shape) (simp add: rrset_of_def)
  also have "\<dots> = filter_mset ?here (filter_mset (\<lambda>r. rr_type r \<noteq> RT_SOA) (mset rs))"
    by (simp add: axfr_middle_mset [OF wf_zone_of_records] all_records_zone_of_records)
  also have "\<dots> = mset (rrset_of H n t rs)"
    unfolding rrset_of_def mset_filter filter_filter_mset using assms(2) by (intro filter_mset_cong) auto
  finally show ?thesis .
qed

section \<open>An example\<close>

definition sample_encoders :: encoders where
  "sample_encoders =
     \<lparr>hex_encode = (\<lambda>bs. concat (map (\<lambda>b. [hex_char (unat b div 16), hex_char (unat b mod 16)]) bs)),
      base64_encode = map (\<lambda>b. char_of (unat b)),
      rtype_text = (\<lambda>t. if t = RT_SOA then ''SOA'' else if t = RT_NS then ''NS'' else ''A''),
      digest_number = (\<lambda>_. 2)\<rparr>"

definition sample_soa :: "string list rr" where
  "sample_soa = from_rdata sample example_com 3600
     (RD_SOA (''ns1'' # example_com) (''admin'' # example_com) 2024 7200 (- 1) 1209600 86400)"

definition sample_records :: "string list rr list" where
  "sample_records =
     [from_rdata sample (''*'' # example_com) 300 (RD_AAAA [0x2001, 0xdb8, 0, 0, 0, 0, 0, 1]),
      from_rdata sample (''spf'' # example_com) 60 (RD_TXT [''v=spf1 a; mx -all'']),
      from_rdata sample example_com 3600 (RD_DNSSEC (DNSKEY True True False ECDSAP256SHA256 [65, 66])),
      from_rdata sample example_com 3600 (RD_DNSSEC (SIG RT_SOA ECDSAP256SHA256 2 3600 20 10 7 example_com [67])),
      from_rdata sample example_com 3600 (RD_DNSSEC (NSEC (''spf'' # example_com) [RT_NS, RT_SOA])),
      from_rdata sample example_com 60 (RD_CAA True (Some [''ca'', ''test''])),
      from_rdata sample (''_443'' # example_com) 60 (RD_TLSA 3 1 1 [0xab, 0xcd])]"

lemma sample_records_printable:
  "\<forall>r \<in> set (sample_soa # sample_records). printable sample sample_codecs sample_encoders r"
  by code_simp

lemma sample_soa_data: "is_soa sample_soa" "sample_from_str ''example.com.'' = Some example_com"
  by code_simp+

section \<open>Property\<close>

text \<open>
  C14. A zone file written by the printer loads into the zone of exactly the records written, in
  their order: names, TTLs and the data of every record type the parser reads come back unchanged
  through comment stripping, line joining and parsing, semicolons inside quoted text included.
\<close>

theorem zone_file_roundtrip:
  assumes "name_from_str H origin_name = Some origin"
    and "\<forall>r \<in> set (r # rs). printable H C E r"
    and "is_soa r" and "extract_soa_data r = Some soa"
  shows "parse_zone_file H C (Some (print_zone H E (r # rs))) origin_name =
    Inr (zone_of_records H origin soa (r # rs))"
  using assms by (rule parse_print_zone)

theorem zone_file_roundtrip_witness:
  "\<exists>soa. extract_soa_data sample_soa = Some soa \<and>
     parse_zone_file sample sample_codecs
       (Some (print_zone sample sample_encoders (sample_soa # sample_records))) ''example.com.'' =
     Inr (zone_of_records sample example_com soa (sample_soa # sample_records))"
proof -
  obtain soa where soa: "extract_soa_data sample_soa = Some soa"
    using sample_soa_data(1) by (auto simp: is_soa_def)
  have "name_from_str sample ''example.com.'' = Some example_com" using sample_soa_data(2) by simp
  with soa show ?thesis
    using zone_file_roundtrip [OF _ sample_records_printable sample_soa_data(1) soa] by simp
qed

text \<open>
  C31. A secondary keeps the zone. Writing the records of a transfer to a zone file, in the order they
  were sent, and loading that file gives a zone with the same origin and SOA data and, for every
  name and every type other than SOA, the same records, or none where the zone has none.
\<close>

theorem transfer_file_roundtrip:
  assumes "rdata_types H" and "name_from_str H origin_name = Some origin"
    and "z = zone_of_records H origin soa rs" and "\<forall>r \<in> set (get_all_records H z). printable H C E r"
  shows "\<exists>z'. parse_zone_file H C (Some (print_zone H E (get_all_records H z))) origin_name = Inr z' \<and>
    zone_origin z' = origin \<and> zone_soa z' = soa \<and>
    (\<forall>n t. t \<noteq> RT_SOA \<longrightarrow> map_option mset (zone_lookup H z' n t) = map_option mset (zone_lookup H z n t))"
proof -
  let ?all = "get_all_records H z"
  obtain rest where all: "?all = get_soa_record H z # rest" using get_all_records_shape [of H z] by simp
  have soa: "zone_soa z = soa" "zone_origin z = origin" using assms(3) by simp_all
  have "parse_zone_file H C (Some (print_zone H E ?all)) origin_name = Inr (zone_of_records H origin soa ?all)"
    unfolding all using assms(2,4) soa_record_data [OF assms(1), of z] soa
    by (intro parse_print_zone) (simp_all add: all)
  moreover have "map_option mset (zone_lookup H (zone_of_records H origin soa ?all) n t) =
      map_option mset (zone_lookup H z n t)" if "t \<noteq> RT_SOA" for n t
    using transfer_rrset [OF assms(1) that, of n origin soa rs]
    by (auto simp: assms(3) lookup_zone_of_records)
  ultimately show ?thesis by (intro exI [of _ "zone_of_records H origin soa ?all"]) simp
qed

definition sample_zone :: "string list zone" where
  "sample_zone = zone_of_records sample example_com (the (extract_soa_data sample_soa)) (sample_soa # sample_records)"

lemma sample_transfer_printable:
  "\<forall>r \<in> set (get_all_records sample sample_zone). printable sample sample_codecs sample_encoders r"
  by code_simp

theorem transfer_file_roundtrip_witness:
  "\<exists>z'. parse_zone_file sample sample_codecs
       (Some (print_zone sample sample_encoders (get_all_records sample sample_zone))) ''example.com.'' = Inr z' \<and>
     map_option mset (zone_lookup sample z' (''spf'' # example_com) RT_TXT) =
       map_option mset (zone_lookup sample sample_zone (''spf'' # example_com) RT_TXT)"
proof -
  have "name_from_str sample ''example.com.'' = Some example_com" using sample_soa_data(2) by simp
  from transfer_file_roundtrip [OF sample_rdata_types this sample_zone_def sample_transfer_printable]
  show ?thesis by blast
qed

end
