(* ===== verification/Protocol.thy ===== *)
theory Protocol
  imports Zone
begin

text \<open>
  \<open>src/protocol.rs\<close>: \<open>QueryProcessor::process_query\<close>, from a query message to the response. The
  zone store behind its read lock is an argument; the logging calls are left out. What the
  response is made of rests on the zone interface only (\<open>zi\<close>, the interpretation of
  \<open>zone_interface\<close>).
\<close>

section \<open>State and operations\<close>

text \<open>Errors of \<open>anyhow\<close> are represented by their message.\<close>

type_synonym anyhow = string

definition first_query :: "'n message \<Rightarrow> 'n question option" where
  "first_query query = (case msg_queries query of [] \<Rightarrow> None | q # _ \<Rightarrow> Some q)"

definition response_header :: "'n hickory \<Rightarrow> 'n message \<Rightarrow> 'n message" where
  "response_header H query =
     (message_new H)\<lparr>msg_id := msg_id query, msg_type := MT_Response, msg_op_code := OP_Query,
        msg_recursion_desired := msg_recursion_desired query, msg_recursion_available := False\<rparr>"

definition add_query :: "'n question \<Rightarrow> 'n message \<Rightarrow> 'n message" where
  "add_query q m = m\<lparr>msg_queries := msg_queries m @ [q]\<rparr>"

definition add_answers :: "'n rr list \<Rightarrow> 'n message \<Rightarrow> 'n message" where
  "add_answers rs m = m\<lparr>msg_answers := msg_answers m @ rs\<rparr>"

definition add_name_servers :: "'n rr list \<Rightarrow> 'n message \<Rightarrow> 'n message" where
  "add_name_servers rs m = m\<lparr>msg_name_servers := msg_name_servers m @ rs\<rparr>"

text \<open>Whether a record is a signature over records of a type.\<close>

definition sig_covers :: "record_type \<Rightarrow> 'n rr \<Rightarrow> bool" where
  "sig_covers t r =
     (case rr_data r of Some (RD_DNSSEC (SIG covered _ _ _ _ _ _ _ _)) \<Rightarrow> covered = t | _ \<Rightarrow> False)"

definition covering_rrsigs :: "'n hickory \<Rightarrow> 'n zone \<Rightarrow> 'n \<Rightarrow> record_type \<Rightarrow> 'n rr list" where
  "covering_rrsigs H z qname qtype =
     (case zone_lookup H z qname RT_SIG of
        Some rrsigs \<Rightarrow> filter (sig_covers qtype) rrsigs
      | None \<Rightarrow> [])"

text \<open>A CNAME record and, when its target has records of the type, those.\<close>

definition chase_cname :: "'n hickory \<Rightarrow> 'n zone \<Rightarrow> record_type \<Rightarrow> 'n rr \<Rightarrow> 'n rr list" where
  "chase_cname H z qtype cname_record =
     cname_record #
     (case rr_data cname_record of
        Some (RD_CNAME target) \<Rightarrow>
          (case zone_lookup H z target qtype of Some target_records \<Rightarrow> target_records | None \<Rightarrow> [])
      | _ \<Rightarrow> [])"

definition lookup_or_wildcard ::
  "'n hickory \<Rightarrow> 'n zone \<Rightarrow> 'n \<Rightarrow> record_type \<Rightarrow> 'n rr list option" where
  "lookup_or_wildcard H z qname t =
     (if contains_name H z qname then zone_lookup H z qname t else lookup_wildcard H z qname t)"

definition answer_query ::
  "'n hickory \<Rightarrow> 'n zone \<Rightarrow> 'n \<Rightarrow> record_type \<Rightarrow> bool \<Rightarrow> 'n message \<Rightarrow> 'n message" where
  "answer_query H z qname qtype dnssec response =
     (case lookup_or_wildcard H z qname qtype of
        Some records \<Rightarrow>
          (add_answers (records @ (if dnssec then covering_rrsigs H z qname qtype else [])) response)
            \<lparr>msg_response_code := NoError\<rparr>
      | None \<Rightarrow>
          (case lookup_or_wildcard H z qname RT_CNAME of
             Some cname_records \<Rightarrow>
               (add_answers (concat (map (chase_cname H z qtype) cname_records)) response)
                 \<lparr>msg_response_code := NoError\<rparr>
           | None \<Rightarrow>
               if contains_name H z qname then
                 add_name_servers [get_soa_record H z] (response\<lparr>msg_response_code := NoError\<rparr>)
               else
                 add_name_servers [get_soa_record H z] (response\<lparr>msg_response_code := NXDomain\<rparr>)))"

definition add_authority :: "'n hickory \<Rightarrow> 'n zone \<Rightarrow> 'n message \<Rightarrow> 'n message" where
  "add_authority H z response =
     (if msg_response_code response = NoError \<and> msg_answers response \<noteq> [] then
        (case zone_lookup H z (zone_origin z) RT_NS of
           Some ns_records \<Rightarrow> add_name_servers ns_records response
         | None \<Rightarrow> response)
      else response)"

definition add_edns :: "'n hickory \<Rightarrow> 'n message \<Rightarrow> bool \<Rightarrow> 'n message \<Rightarrow> 'n message" where
  "add_edns H query dnssec response =
     (if msg_edns query \<noteq> None then
        (let e = (edns_new H)\<lparr>max_payload := 4096, edns_version := 0\<rparr>;
             e = (if dnssec then e\<lparr>dnssec_ok := True\<rparr> else e)
         in response\<lparr>msg_edns := Some e\<rparr>)
      else response)"

definition process_query :: "'n hickory \<Rightarrow> 'n zone_store \<Rightarrow> 'n message \<Rightarrow> anyhow + 'n message" where
  "process_query H st query =
     (let response = response_header H query in
      if msg_op_code query \<noteq> OP_Query then Inr (response\<lparr>msg_response_code := NotImp\<rparr>)
      else
        case first_query query of
          None \<Rightarrow> Inr (response\<lparr>msg_response_code := FormErr\<rparr>)
        | Some question \<Rightarrow>
            if q_type question = RT_AXFR then
              Inr ((add_query question response)\<lparr>msg_authoritative := True\<rparr>)
            else
              (let response = add_query question response;
                   qname = q_name question;
                   qtype = q_type question;
                   dnssec = (case msg_edns query of Some e \<Rightarrow> dnssec_ok e | None \<Rightarrow> False)
               in case find_zone H st qname of
                    None \<Rightarrow> Inr (response\<lparr>msg_response_code := Refused\<rparr>)
                  | Some z \<Rightarrow>
                      Inr (add_edns H query dnssec (add_authority H z
                        (answer_query H z qname qtype dnssec (response\<lparr>msg_authoritative := True\<rparr>))))))"

section \<open>Fields the steps leave alone\<close>

lemmas message_steps = add_query_def add_answers_def add_name_servers_def response_header_def

lemma add_authority_frame [simp]:
  "msg_id (add_authority H z m) = msg_id m"
  "msg_type (add_authority H z m) = msg_type m"
  "msg_op_code (add_authority H z m) = msg_op_code m"
  "msg_authoritative (add_authority H z m) = msg_authoritative m"
  "msg_truncated (add_authority H z m) = msg_truncated m"
  "msg_recursion_desired (add_authority H z m) = msg_recursion_desired m"
  "msg_recursion_available (add_authority H z m) = msg_recursion_available m"
  "msg_response_code (add_authority H z m) = msg_response_code m"
  "msg_queries (add_authority H z m) = msg_queries m"
  "msg_answers (add_authority H z m) = msg_answers m"
  "msg_additionals (add_authority H z m) = msg_additionals m"
  "msg_edns (add_authority H z m) = msg_edns m"
  by (simp_all add: add_authority_def add_name_servers_def split: option.split)

lemma add_edns_frame [simp]:
  "msg_id (add_edns H q d m) = msg_id m"
  "msg_type (add_edns H q d m) = msg_type m"
  "msg_op_code (add_edns H q d m) = msg_op_code m"
  "msg_authoritative (add_edns H q d m) = msg_authoritative m"
  "msg_truncated (add_edns H q d m) = msg_truncated m"
  "msg_recursion_desired (add_edns H q d m) = msg_recursion_desired m"
  "msg_recursion_available (add_edns H q d m) = msg_recursion_available m"
  "msg_response_code (add_edns H q d m) = msg_response_code m"
  "msg_queries (add_edns H q d m) = msg_queries m"
  "msg_answers (add_edns H q d m) = msg_answers m"
  "msg_name_servers (add_edns H q d m) = msg_name_servers m"
  "msg_additionals (add_edns H q d m) = msg_additionals m"
  by (simp_all add: add_edns_def Let_def)

lemma answer_query_frame [simp]:
  "msg_id (answer_query H z n t d m) = msg_id m"
  "msg_type (answer_query H z n t d m) = msg_type m"
  "msg_op_code (answer_query H z n t d m) = msg_op_code m"
  "msg_authoritative (answer_query H z n t d m) = msg_authoritative m"
  "msg_truncated (answer_query H z n t d m) = msg_truncated m"
  "msg_recursion_desired (answer_query H z n t d m) = msg_recursion_desired m"
  "msg_recursion_available (answer_query H z n t d m) = msg_recursion_available m"
  "msg_queries (answer_query H z n t d m) = msg_queries m"
  "msg_additionals (answer_query H z n t d m) = msg_additionals m"
  "msg_edns (answer_query H z n t d m) = msg_edns m"
  by (simp_all add: answer_query_def add_answers_def add_name_servers_def split: option.split)

text \<open>The query that reaches the zone lookup, with its question and its zone.\<close>

definition resolves :: "'n hickory \<Rightarrow> 'n zone_store \<Rightarrow> 'n message \<Rightarrow> 'n question \<Rightarrow> 'n zone \<Rightarrow> bool" where
  "resolves H st query q z \<longleftrightarrow>
     msg_op_code query = OP_Query \<and> first_query query = Some q \<and> q_type q \<noteq> RT_AXFR \<and>
     find_zone H st (q_name q) = Some z"

definition wants_dnssec :: "'n message \<Rightarrow> bool" where
  "wants_dnssec query = (case msg_edns query of Some e \<Rightarrow> dnssec_ok e | None \<Rightarrow> False)"

lemma process_query_resolves:
  assumes "resolves H st query q z"
  shows "process_query H st query =
    Inr (add_edns H query (wants_dnssec query) (add_authority H z
      (answer_query H z (q_name q) (q_type q) (wants_dnssec query)
        ((add_query q (response_header H query))\<lparr>msg_authoritative := True\<rparr>))))"
  using assms by (simp add: process_query_def resolves_def wants_dnssec_def Let_def)

text \<open>Every query takes one of five ways.\<close>

lemma process_query_cases [case_names notimp formerr axfr refused resolved]:
  assumes "msg_op_code query \<noteq> OP_Query \<Longrightarrow> P"
    and "msg_op_code query = OP_Query \<Longrightarrow> first_query query = None \<Longrightarrow> P"
    and "\<And>q. msg_op_code query = OP_Query \<Longrightarrow> first_query query = Some q \<Longrightarrow> q_type q = RT_AXFR \<Longrightarrow> P"
    and "\<And>q. msg_op_code query = OP_Query \<Longrightarrow> first_query query = Some q \<Longrightarrow> q_type q \<noteq> RT_AXFR \<Longrightarrow>
      find_zone H st (q_name q) = None \<Longrightarrow> P"
    and "\<And>q z. resolves H st query q z \<Longrightarrow> P"
  shows P
  using assms unfolding resolves_def by (metis option.exhaust)

section \<open>What the sections are made of\<close>

lemma response_header_simps [simp]:
  "msg_id (response_header H query) = msg_id query"
  "msg_type (response_header H query) = MT_Response"
  "msg_op_code (response_header H query) = OP_Query"
  "msg_recursion_desired (response_header H query) = msg_recursion_desired query"
  "\<not> msg_recursion_available (response_header H query)"
  by (simp_all add: response_header_def)

lemma fresh_response [simp]:
  assumes "fresh_message (message_new H)"
  shows "\<not> msg_authoritative (response_header H query)" "\<not> msg_truncated (response_header H query)"
    "msg_response_code (response_header H query) = NoError"
    "msg_queries (response_header H query) = []" "msg_answers (response_header H query) = []"
    "msg_name_servers (response_header H query) = []" "msg_additionals (response_header H query) = []"
    "msg_edns (response_header H query) = None"
  using assms by (simp_all add: response_header_def fresh_message_def)

text \<open>The records that answer a question, and the response code.\<close>

definition zone_answers :: "'n hickory \<Rightarrow> 'n zone \<Rightarrow> 'n \<Rightarrow> record_type \<Rightarrow> bool \<Rightarrow> 'n rr list" where
  "zone_answers H z qname qtype dnssec =
     (case lookup_or_wildcard H z qname qtype of
        Some rs \<Rightarrow> rs @ (if dnssec then covering_rrsigs H z qname qtype else [])
      | None \<Rightarrow>
          (case lookup_or_wildcard H z qname RT_CNAME of
             Some cs \<Rightarrow> concat (map (chase_cname H z qtype) cs) | None \<Rightarrow> []))"

definition no_records :: "'n hickory \<Rightarrow> 'n zone \<Rightarrow> 'n \<Rightarrow> record_type \<Rightarrow> bool" where
  "no_records H z qname qtype \<longleftrightarrow>
     lookup_or_wildcard H z qname qtype = None \<and> lookup_or_wildcard H z qname RT_CNAME = None"

lemma lookup_wildcard_Some:
  "lookup_wildcard H z n t = Some rs \<Longrightarrow>
     \<exists>k w. name_from_labels H (''*'' # drop k (name_iter H n)) = Some w \<and> zone_lookup H z w t = Some rs"
proof -
  have "wildcard_loop H z t labels ks = Some rs \<Longrightarrow>
     \<exists>k w. name_from_labels H (''*'' # drop k labels) = Some w \<and> zone_lookup H z w t = Some rs" for labels ks
    by (induction ks) (auto split: option.splits)
  then show "lookup_wildcard H z n t = Some rs \<Longrightarrow> ?thesis"
    by (simp add: lookup_wildcard_def Let_def)
qed

lemma lookup_or_wildcard_Some:
  "lookup_or_wildcard H z n t = Some rs \<Longrightarrow> \<exists>w. zone_lookup H z w t = Some rs"
  by (auto simp: lookup_or_wildcard_def dest: lookup_wildcard_Some split: if_splits)

lemma lookup_or_wildcard_nonempty:
  "wf_zone H z \<Longrightarrow> lookup_or_wildcard H z n t = Some rs \<Longrightarrow> rs \<noteq> []"
  using lookup_or_wildcard_Some zi.rrset_nonempty by metis

lemma zone_answers_empty_iff:
  assumes "wf_zone H z"
  shows "zone_answers H z n t d = [] \<longleftrightarrow> no_records H z n t"
  using lookup_or_wildcard_nonempty [OF assms]
  by (fastforce simp: zone_answers_def no_records_def chase_cname_def split: option.splits)

lemma answer_query_sections:
  "msg_answers (answer_query H z n t d m) = msg_answers m @ zone_answers H z n t d"
  "msg_name_servers (answer_query H z n t d m) =
     msg_name_servers m @ (if no_records H z n t then [get_soa_record H z] else [])"
  "msg_response_code (answer_query H z n t d m) =
     (if no_records H z n t \<and> \<not> contains_name H z n then NXDomain else NoError)"
  by (auto simp: answer_query_def add_answers_def add_name_servers_def zone_answers_def no_records_def
      split: option.split)

definition apex_ns :: "'n hickory \<Rightarrow> 'n zone \<Rightarrow> 'n rr list" where
  "apex_ns H z = (case zone_lookup H z (zone_origin z) RT_NS of Some ns \<Rightarrow> ns | None \<Rightarrow> [])"

lemma add_authority_sections:
  "msg_name_servers (add_authority H z m) =
     msg_name_servers m @ (if msg_response_code m = NoError \<and> msg_answers m \<noteq> [] then apex_ns H z else [])"
  by (simp add: add_authority_def add_name_servers_def apex_ns_def split: option.split)

text \<open>The three sections and the code of the response to a query that reaches a zone.\<close>

lemma process_query_total: "\<exists>r. process_query H st query = Inr r"
  by (rule process_query_cases [where query = query and H = H and st = st])
     (simp_all add: process_query_def resolves_def Let_def)

lemma resolved_response:
  assumes "fresh_message (message_new H)" and "resolves H st query q z" and "wf_zone H z"
    and "process_query H st query = Inr r"
  shows "msg_authoritative r"
    and "msg_answers r = zone_answers H z (q_name q) (q_type q) (wants_dnssec query)"
    and "msg_name_servers r =
      (if no_records H z (q_name q) (q_type q) then [get_soa_record H z] else apex_ns H z)"
    and "msg_response_code r =
      (if no_records H z (q_name q) (q_type q) \<and> \<not> contains_name H z (q_name q) then NXDomain else NoError)"
  using process_query_resolves [OF assms(2)] assms(1,4) zone_answers_empty_iff [OF assms(3)]
  by (auto simp: answer_query_sections add_authority_sections add_query_def)

text \<open>Records of a lookup are records of the zone.\<close>

lemma lookup_all_records:
  assumes "zone_lookup H z n t = Some rs" and "r \<in> set rs"
  shows "r \<in># all_records z"
proof -
  from assms(1) obtain tm where "hm_get (name_key H) (zone_records z) n = Some tm"
    and "hm_get (\<lambda>t. t) tm t = Some rs"
    by (auto simp: zone_lookup_def split: option.splits)
  then obtain n' where "(n', tm) \<in> set (zone_records z)" and "(t, rs) \<in> set tm"
    by (auto dest!: hm_get_Some_in)
  with assms(2) show ?thesis by (force simp: all_records_def)
qed

lemma zone_answers_in_zone:
  assumes "x \<in> set (zone_answers H z n t d)"
  shows "x \<in># all_records z"
proof -
  have in_zone: "y \<in># all_records z" if "lookup_or_wildcard H z n t' = Some rs" "y \<in> set rs" for y t' rs
    using that by (auto dest!: lookup_or_wildcard_Some intro: lookup_all_records)
  have sigs: "y \<in># all_records z" if "y \<in> set (covering_rrsigs H z n t)" for y
    using that by (cases "zone_lookup H z n RT_SIG")
      (auto simp: covering_rrsigs_def intro: lookup_all_records)
  have chased: "y \<in># all_records z" if "c \<in># all_records z" "y \<in> set (chase_cname H z t c)" for c y
    using that by (auto simp: chase_cname_def intro: lookup_all_records [OF sym]
        split: option.splits rdata.splits)
  show ?thesis using assms
    by (auto simp: zone_answers_def split: option.splits if_splits
        intro: in_zone sigs chased in_zone [OF sym])
qed

lemma process_query_header:
  assumes "process_query H st query = Inr r"
  shows "msg_id r = msg_id query" and "msg_type r = MT_Response" and "msg_op_code r = OP_Query"
    and "msg_recursion_desired r = msg_recursion_desired query" and "\<not> msg_recursion_available r"
  using assms
  by (auto simp: process_query_def Let_def add_query_def split: if_splits option.splits)

lemma process_query_payload:
  assumes "fresh_message (message_new H)" and "process_query H st query = Inr r" and "msg_edns r = Some e"
  shows "max_payload e = 4096"
  using assms
  by (auto simp: process_query_def Let_def add_query_def add_edns_def split: if_splits option.splits)

lemma find_zone_stored:
  assumes "wf_store H st" and "find_zone H st n = Some z"
  shows "z \<in> stored st"
  using assms store_get_Some(1) [OF assms(1)] store_loop_Some(1)
  by (auto simp: find_zone_def split: option.splits)

lemma find_zone_encloses:
  assumes "wf_store H st" and "find_zone H st n = Some z"
  shows "name_eq H (zone_origin z) n \<or> name_zone_of H (zone_origin z) n"
  using assms store_get_Some(2) [OF assms(1)] store_loop_Some(2) [of H n st z]
  by (auto simp: find_zone_def split: option.splits)

lemma positive_answer:
  assumes "fresh_message (message_new H)"
    and "resolves H st query q (zone_of_records H origin soa rs)"
    and "rrset_of H (q_name q) (q_type q) rs \<noteq> []"
  shows "\<exists>r. process_query H st query = Inr r \<and> msg_authoritative r \<and> msg_response_code r = NoError \<and>
    msg_answers r = rrset_of H (q_name q) (q_type q) rs @
      (if wants_dnssec query then filter (sig_covers (q_type q)) (rrset_of H (q_name q) RT_SIG rs) else []) \<and>
    msg_name_servers r = rrset_of H origin RT_NS rs"
proof -
  let ?z = "zone_of_records H origin soa rs"
  have look: "lookup_or_wildcard H ?z (q_name q) (q_type q) = Some (rrset_of H (q_name q) (q_type q) rs)"
    using assms(3) zi.rrset_name [of H ?z "q_name q" "q_type q"]
    by (auto simp: lookup_or_wildcard_def lookup_zone_of_records)
  have "apex_ns H ?z = rrset_of H origin RT_NS rs"
    by (simp add: apex_ns_def lookup_zone_of_records)
  moreover have "covering_rrsigs H ?z (q_name q) (q_type q) =
      filter (sig_covers (q_type q)) (rrset_of H (q_name q) RT_SIG rs)"
    by (simp add: covering_rrsigs_def lookup_zone_of_records)
  moreover obtain r where r: "process_query H st query = Inr r" using process_query_total by blast
  ultimately show ?thesis using look resolved_response [OF assms(1,2) wf_zone_of_records r] r
    by (simp add: zone_answers_def no_records_def)
qed

section \<open>Properties\<close>

text \<open>A query of one question, as a client sends it.\<close>

definition query_for :: "string list \<Rightarrow> record_type \<Rightarrow> edns option \<Rightarrow> string list message" where
  "query_for n t e =
     sample_message\<lparr>msg_id := 4660, msg_recursion_desired := True,
       msg_queries := [\<lparr>q_name = n, q_type = t\<rparr>], msg_edns := e\<rparr>"



text \<open>
  Everything in a response comes from the zone found for the name: each answer is one of its
  records, the authority section holds its records or its SOA record only, and a response to a query
  that reaches no zone (unsupported opcode, no question, no zone) has neither.
\<close>

theorem response_from_zone:
  assumes "fresh_message (message_new H)" and "\<forall>z \<in> stored st. wf_zone H z" and "wf_store H st"
    and "process_query H st query = Inr r"
    and "x \<in> set (msg_answers r @ msg_name_servers r)"
  shows "\<exists>q z. resolves H st query q z \<and> z \<in> stored st \<and>
    (x \<in># all_records z \<or> x = get_soa_record H z \<and> x \<notin> set (msg_answers r))"
proof (cases rule: process_query_cases [where query = query and H = H and st = st])
  case (resolved q z)
  have z: "z \<in> stored st"
    using resolved find_zone_stored [OF assms(3)] unfolding resolves_def by blast
  with assms(2) have wf: "wf_zone H z" by blast
  have ns: "y \<in># all_records z" if "y \<in> set (apex_ns H z)" for y
    using that by (cases "zone_lookup H z (zone_origin z) RT_NS")
      (auto simp: apex_ns_def intro: lookup_all_records)
  note r = resolved_response [OF assms(1) resolved wf assms(4)]
  have "x \<in># all_records z \<or> x = get_soa_record H z \<and> x \<notin> set (msg_answers r)"
    using assms(5) r(2,3) ns zone_answers_in_zone [of x H z]
      zone_answers_empty_iff [OF wf] by (auto split: if_splits)
  with resolved z show ?thesis by blast
qed (use assms in \<open>auto simp: process_query_def add_query_def Let_def\<close>)

theorem response_from_zone_witness:
  "let r = from_rdata sample (''www'' # example_com) 3600 (RD_A (192, 0, 2, 1)) in
   (case process_query sample test_store (query_for (''www'' # example_com) RT_A None) of
      Inr m \<Rightarrow> r \<in> set (msg_answers m) | Inl _ \<Rightarrow> False) \<and>
   (\<exists>z \<in> stored test_store. r \<in># all_records z)"
proof -
  let ?r = "from_rdata sample (''www'' # example_com) 3600 (RD_A (192, 0, 2, 1))"
  let ?q = "query_for (''www'' # example_com) RT_A None"
  have "(case process_query sample test_store ?q of
      Inr m \<Rightarrow> msg_answers m = [?r] | Inl _ \<Rightarrow> False)" by code_simp
  then obtain m where m: "process_query sample test_store ?q = Inr m" "msg_answers m = [?r]"
    by (auto split: sum.splits)
  have "stored test_store = {create_test_zone}"
    by (simp add: stored_def test_store_def add_zone_def hm_insert_def zone_store_new_def)
  then have "\<forall>z \<in> stored test_store. wf_zone sample z" using wf_create_test_zone by simp
  from response_from_zone [OF sample_fresh this wf_test_store m(1), of ?r] m
  show ?thesis by (auto simp: Let_def)
qed

text \<open>
  A positive answer is exact. For a zone loaded with the records \<open>rs\<close>, a question whose name
  and type own records is answered with those records in load order, followed, when the client set
  the DNSSEC-OK bit, by the signatures at that name over that type; the authority section is the
  zone's own NS set, the code is \<open>NoError\<close> and the answer is authoritative.
\<close>

theorem positive_answer_exact:
  assumes "fresh_message (message_new H)"
    and "resolves H st query q (zone_of_records H origin soa rs)"
    and "rrset_of H (q_name q) (q_type q) rs \<noteq> []"
  shows "\<exists>r. process_query H st query = Inr r \<and> msg_authoritative r \<and> msg_response_code r = NoError \<and>
    msg_answers r = rrset_of H (q_name q) (q_type q) rs @
      (if wants_dnssec query then filter (sig_covers (q_type q)) (rrset_of H (q_name q) RT_SIG rs) else []) \<and>
    msg_name_servers r = rrset_of H origin RT_NS rs"
  by (rule positive_answer [OF assms])

theorem positive_answer_exact_witness:
  "let n = ''www'' # example_com;
       a = from_rdata sample n 3600 (RD_A (192, 0, 2, 1));
       sig = from_rdata sample n 3600 (RD_DNSSEC (SIG RT_A RSASHA256 3 3600 9 1 7 example_com [1]));
       sig2 = from_rdata sample n 3600 (RD_DNSSEC (SIG RT_TXT RSASHA256 3 3600 9 1 7 example_com [2]));
       st = add_zone sample zone_store_new (zone_of_records sample example_com test_soa [a, sig2, sig])
   in \<exists>r. process_query sample st
        (query_for n RT_A (Some \<lparr>max_payload = 1232, edns_version = 0, dnssec_ok = True\<rparr>)) = Inr r \<and>
      msg_answers r = [a, sig] \<and> msg_name_servers r = []"
proof -
  define n where "n = ''www'' # example_com"
  define a where "a = from_rdata sample n 3600 (RD_A (192, 0, 2, 1))"
  define sig where "sig = from_rdata sample n 3600 (RD_DNSSEC (SIG RT_A RSASHA256 3 3600 9 1 7 example_com [1]))"
  define sig2 where "sig2 = from_rdata sample n 3600 (RD_DNSSEC (SIG RT_TXT RSASHA256 3 3600 9 1 7 example_com [2]))"
  define z where "z = zone_of_records sample example_com test_soa [a, sig2, sig]"
  define st where "st = add_zone sample zone_store_new z"
  define q where "q = query_for n RT_A (Some \<lparr>max_payload = 1232, edns_version = 0, dnssec_ok = True\<rparr>)"
  note defs = n_def a_def sig_def sig2_def z_def st_def q_def
  have "find_zone sample st n = Some z" unfolding defs by code_simp
  then have res: "resolves sample st q \<lparr>q_name = n, q_type = RT_A\<rparr> z"
    by (simp add: resolves_def q_def query_for_def sample_message_def first_query_def)
  have sets: "rrset_of sample n RT_A [a, sig2, sig] = [a]"
    "rrset_of sample n RT_SIG [a, sig2, sig] = [sig2, sig]"
    "rrset_of sample example_com RT_NS [a, sig2, sig] = []"
    "filter (sig_covers RT_A) [sig2, sig] = [sig]" "wants_dnssec q"
    unfolding defs by code_simp+
  from positive_answer_exact [OF sample_fresh res [unfolded z_def]] sets
  have "\<exists>r. process_query sample st q = Inr r \<and> msg_answers r = [a, sig] \<and> msg_name_servers r = []"
    by fastforce
  then show ?thesis unfolding Let_def defs .
qed

text \<open>A wildcard above the name owns records of the type.\<close>

definition wildcard_exists :: "'n hickory \<Rightarrow> 'n rr list \<Rightarrow> 'n \<Rightarrow> record_type \<Rightarrow> bool" where
  "wildcard_exists H rs n t \<longleftrightarrow>
     (\<exists>k \<in> set [1..<length (name_iter H n)].
        case name_from_labels H (''*'' # drop k (name_iter H n)) of
          None \<Rightarrow> False
        | Some w \<Rightarrow> \<exists>r \<in> set rs. name_eq H (rr_name r) w \<and> rr_type r = t)"

lemma lookup_wildcard_None_iff:
  "lookup_wildcard H (zone_of_records H origin soa rs) n t = None \<longleftrightarrow> \<not> wildcard_exists H rs n t"
proof -
  have "wildcard_loop H z t labels ks = None \<longleftrightarrow>
      (\<forall>k \<in> set ks. case name_from_labels H (''*'' # drop k labels) of
         None \<Rightarrow> True | Some w \<Rightarrow> zone_lookup H z w t = None)" for z labels ks
    by (induction ks) (auto split: option.splits)
  moreover have "(case w of None \<Rightarrow> True
      | Some w \<Rightarrow> zone_lookup H (zone_of_records H origin soa rs) w t = None) \<longleftrightarrow>
      \<not> (case w of None \<Rightarrow> False | Some w \<Rightarrow> \<exists>r \<in> set rs. name_eq H (rr_name r) w \<and> rr_type r = t)" for w
    by (auto simp: lookup_zone_of_records rrset_of_def filter_empty_conv split: option.split)
  ultimately show ?thesis by (simp add: lookup_wildcard_def Let_def wildcard_exists_def)
qed

text \<open>
  C3. Negative answers. For a zone loaded with the records \<open>rs\<close>, the code is \<open>NXDomain\<close> exactly
  when no record is owned by the name and no wildcard above it owns records of the type or a CNAME,
  and \<open>NoError\<close> otherwise. A response without answers carries the zone's SOA record, with the SOA
  minimum as its TTL, as its whole authority section; that is the case when the name has neither
  records of the type nor a CNAME, itself or, when it owns nothing, through a wildcard.
\<close>

theorem negative_answer:
  assumes "fresh_message (message_new H)"
    and "resolves H st query q (zone_of_records H origin soa rs)"
    and "process_query H st query = Inr r"
  shows "msg_response_code r =
      (if (\<forall>x \<in> set rs. \<not> name_eq H (rr_name x) (q_name q)) \<and>
          \<not> wildcard_exists H rs (q_name q) (q_type q) \<and> \<not> wildcard_exists H rs (q_name q) RT_CNAME
       then NXDomain else NoError) \<and>
    (msg_answers r = [] \<longleftrightarrow>
       (if \<exists>x \<in> set rs. name_eq H (rr_name x) (q_name q)
        then rrset_of H (q_name q) (q_type q) rs = [] \<and> rrset_of H (q_name q) RT_CNAME rs = []
        else \<not> wildcard_exists H rs (q_name q) (q_type q) \<and> \<not> wildcard_exists H rs (q_name q) RT_CNAME)) \<and>
    (msg_answers r = [] \<longrightarrow> msg_name_servers r =
       [from_rdata H origin (minimum soa) (RD_SOA (mname soa) (rname soa) (serial soa) (refresh soa)
          (retry soa) (expire soa) (minimum soa))])"
proof -
  let ?z = "zone_of_records H origin soa rs"
  have none: "lookup_or_wildcard H ?z (q_name q) t = None \<longleftrightarrow>
      (if \<exists>x \<in> set rs. name_eq H (rr_name x) (q_name q) then rrset_of H (q_name q) t rs = []
       else \<not> wildcard_exists H rs (q_name q) t)" for t
    by (simp add: lookup_or_wildcard_def contains_zone_of_records lookup_zone_of_records
        lookup_wildcard_None_iff)
  note r = resolved_response [OF assms(1,2) wf_zone_of_records assms(3)]
  have empty: "msg_answers r = [] \<longleftrightarrow> no_records H ?z (q_name q) (q_type q)"
    by (simp add: r(2) zone_answers_empty_iff [OF wf_zone_of_records])
  have "msg_response_code r =
      (if (\<forall>x \<in> set rs. \<not> name_eq H (rr_name x) (q_name q)) \<and>
          \<not> wildcard_exists H rs (q_name q) (q_type q) \<and> \<not> wildcard_exists H rs (q_name q) RT_CNAME
       then NXDomain else NoError)"
    by (simp add: r(4) no_records_def none contains_zone_of_records)
  moreover have "msg_answers r = [] \<longrightarrow> msg_name_servers r = [get_soa_record H ?z]"
    using r(3) empty by simp
  ultimately show ?thesis
    by (simp add: empty no_records_def none get_soa_record_def Let_def del: not_ex)
qed

theorem negative_answer_witness:
  "let n = ''nope'' # example_com;
       a = from_rdata sample (''www'' # example_com) 3600 (RD_A (192, 0, 2, 1));
       st = add_zone sample zone_store_new (zone_of_records sample example_com test_soa [a])
   in \<exists>r. process_query sample st (query_for n RT_A None) = Inr r \<and> msg_response_code r = NXDomain"
proof -
  define n where "n = ''nope'' # example_com"
  define a where "a = from_rdata sample (''www'' # example_com) 3600 (RD_A (192, 0, 2, 1))"
  define z where "z = zone_of_records sample example_com test_soa [a]"
  define st where "st = add_zone sample zone_store_new z"
  note defs = n_def a_def z_def st_def
  have "find_zone sample st n = Some z" unfolding defs by code_simp
  then have res: "resolves sample st (query_for n RT_A None) \<lparr>q_name = n, q_type = RT_A\<rparr> z"
    by (simp add: resolves_def query_for_def sample_message_def first_query_def)
  have no: "\<forall>x \<in> set [a]. \<not> name_eq sample (rr_name x) n" "\<not> wildcard_exists sample [a] n RT_A"
    "\<not> wildcard_exists sample [a] n RT_CNAME"
    unfolding defs by code_simp+
  obtain r where r: "process_query sample st (query_for n RT_A None) = Inr r"
    using process_query_total by blast
  from negative_answer [OF sample_fresh res [unfolded z_def] r] no have "msg_response_code r = NXDomain"
    by simp
  with r show ?thesis unfolding Let_def defs by blast
qed

text \<open>
  C30. EDNS. A response carries an OPT record exactly when the query did and reached a zone, always
  announcing a payload of 4096 bytes and version 0, with the DNSSEC-OK bit copied from the query.
  Without a zone (an unsupported opcode, no question, a transfer or a refused name) there is none.
\<close>

theorem edns_negotiation:
  assumes "fresh_message (message_new H)" and "\<not> dnssec_ok (edns_new H)"
    and "process_query H st query = Inr r"
  shows "msg_edns r =
    (if \<exists>q z. resolves H st query q z
     then map_option (\<lambda>e. \<lparr>max_payload = 4096, edns_version = 0, dnssec_ok = dnssec_ok e\<rparr>) (msg_edns query)
     else None)"
proof (cases rule: process_query_cases [where query = query and H = H and st = st])
  case (resolved q z)
  have "e = \<lparr>max_payload = max_payload e, edns_version = edns_version e, dnssec_ok = dnssec_ok e\<rparr>"
    for e :: edns by simp
  then have "msg_edns r = map_option
      (\<lambda>e. \<lparr>max_payload = 4096, edns_version = 0, dnssec_ok = dnssec_ok e\<rparr>) (msg_edns query)"
    using process_query_resolves [OF resolved] assms
    by (cases "msg_edns query")
       (auto simp: add_edns_def wants_dnssec_def Let_def add_query_def intro!: edns.equality)
  with resolved show ?thesis by auto
qed (use assms in \<open>auto simp: process_query_def resolves_def add_query_def Let_def\<close>)

theorem edns_negotiation_witness:
  "\<exists>r. process_query sample test_store (query_for (''www'' # example_com) RT_A
       (Some \<lparr>max_payload = 512, edns_version = 0, dnssec_ok = True\<rparr>)) = Inr r \<and>
     msg_edns r = Some \<lparr>max_payload = 4096, edns_version = 0, dnssec_ok = True\<rparr>"
proof -
  define q where "q = query_for (''www'' # example_com) RT_A
       (Some \<lparr>max_payload = 512, edns_version = 0, dnssec_ok = True\<rparr>)"
  have "find_zone sample test_store (''www'' # example_com) = Some create_test_zone" by code_simp
  then have "resolves sample test_store q \<lparr>q_name = ''www'' # example_com, q_type = RT_A\<rparr> create_test_zone"
    by (simp add: resolves_def q_def query_for_def sample_message_def first_query_def)
  moreover obtain r where r: "process_query sample test_store q = Inr r"
    using process_query_total by blast
  moreover have "\<not> dnssec_ok (edns_new sample)" by code_simp
  ultimately have "msg_edns r = Some \<lparr>max_payload = 4096, edns_version = 0, dnssec_ok = True\<rparr>"
    using edns_negotiation [OF sample_fresh _ r] by (auto simp: q_def query_for_def)
  with r show ?thesis unfolding q_def by blast
qed

text \<open>
  A name that owns nothing and matches a wildcard is answered with the wildcard's own records:
  their owner is the wildcard, never the name that was asked for, and no signature is added even
  when the client set the DNSSEC-OK bit, although the wildcard may have some.
\<close>

theorem wildcard_answer:
  assumes "fresh_message (message_new H)" and "resolves H st query q z" and "wf_zone H z"
    and "\<not> contains_name H z (q_name q)" and "lookup_wildcard H z (q_name q) (q_type q) = Some rs"
    and "process_query H st query = Inr r"
  shows "msg_answers r = rs \<and> msg_response_code r = NoError \<and>
    (\<forall>x \<in> set rs. rr_type x = q_type q \<and> \<not> name_eq H (rr_name x) (q_name q) \<and>
       (\<exists>k w. name_from_labels H (''*'' # drop k (name_iter H (q_name q))) = Some w \<and> name_eq H (rr_name x) w))"
proof -
  from lookup_wildcard_Some [OF assms(5)] obtain k w where
    w: "name_from_labels H (''*'' # drop k (name_iter H (q_name q))) = Some w"
      "zone_lookup H z w (q_type q) = Some rs" by blast
  have sig: "covering_rrsigs H z (q_name q) (q_type q) = []"
    using zi.no_name_no_rrset [OF assms(4)] by (simp add: covering_rrsigs_def)
  have "\<not> name_eq H w (q_name q)"
    using zi.rrset_name [OF w(2)] assms(4) hm_get_cong [of "name_key H" w "q_name q" "zone_records z"]
    by (auto simp: contains_name_def hm_contains_key_def name_eq_def)
  then have "\<forall>x \<in> set rs. rr_type x = q_type q \<and> \<not> name_eq H (rr_name x) (q_name q) \<and>
      name_eq H (rr_name x) w"
    using zi.rrset_type [OF assms(3) w(2)] zi.rrset_owner [OF assms(3) w(2)]
    by (simp add: name_eq_def)
  with w(1) resolved_response [OF assms(1-3,6)] assms(4,5) sig show ?thesis
    by (auto simp: zone_answers_def no_records_def lookup_or_wildcard_def)
qed

theorem wildcard_answer_witness:
  "let wild = ''*'' # example_com; n = ''a'' # example_com;
       a = from_rdata sample wild 60 (RD_A (192, 0, 2, 9));
       sig = from_rdata sample wild 60 (RD_DNSSEC (SIG RT_A RSASHA256 2 60 9 1 7 example_com [1]));
       st = add_zone sample zone_store_new (zone_of_records sample example_com test_soa [a, sig])
   in \<exists>r. process_query sample st
        (query_for n RT_A (Some \<lparr>max_payload = 1232, edns_version = 0, dnssec_ok = True\<rparr>)) = Inr r \<and>
      msg_answers r = [a]"
proof -
  define wild where "wild = ''*'' # example_com"
  define n where "n = ''a'' # example_com"
  define a where "a = from_rdata sample wild 60 (RD_A (192, 0, 2, 9))"
  define sig where "sig = from_rdata sample wild 60 (RD_DNSSEC (SIG RT_A RSASHA256 2 60 9 1 7 example_com [1]))"
  define z where "z = zone_of_records sample example_com test_soa [a, sig]"
  define st where "st = add_zone sample zone_store_new z"
  define q where "q = query_for n RT_A (Some \<lparr>max_payload = 1232, edns_version = 0, dnssec_ok = True\<rparr>)"
  note defs = wild_def n_def a_def sig_def z_def st_def q_def
  have "find_zone sample st n = Some z" unfolding defs by code_simp
  then have res: "resolves sample st q \<lparr>q_name = n, q_type = RT_A\<rparr> z"
    by (simp add: resolves_def q_def query_for_def sample_message_def first_query_def)
  have wf: "wf_zone sample z" unfolding z_def by (rule wf_zone_of_records)
  have w: "\<not> contains_name sample z n" "lookup_wildcard sample z n RT_A = Some [a]"
    unfolding defs by code_simp+
  obtain r where r: "process_query sample st q = Inr r" using process_query_total by blast
  from wildcard_answer [OF sample_fresh res wf _ _ r] w have "msg_answers r = [a]" by simp
  with r show ?thesis unfolding Let_def defs by blast
qed

end
