(* ===== verification/Answer_Spec.thy ===== *)
theory Answer_Spec
  imports Protocol
begin

text \<open>
  What an answer is, said over the list of the records of a zone and without its hash maps: the
  specification that \<open>process_query\<close> refines (\<open>src/protocol.rs\<close>, on \<open>src/zone.rs\<close>).
\<close>

section \<open>The specification\<close>

text \<open>The wildcards above a name, the closest first; candidates that are no names are left out.\<close>

definition wildcard_names :: "'n hickory \<Rightarrow> 'n \<Rightarrow> 'n list" where
  "wildcard_names H n =
     List.map_filter (\<lambda>k. name_from_labels H (''*'' # drop k (name_iter H n))) [1..<length (name_iter H n)]"

text \<open>
  The records of a type for a name: its own when it owns any record, of whatever type, and else
  those of the closest wildcard that has some.
\<close>

definition spec_rrset :: "'n hickory \<Rightarrow> 'n rr list \<Rightarrow> 'n \<Rightarrow> record_type \<Rightarrow> 'n rr list" where
  "spec_rrset H rs n t =
     (if \<exists>r \<in> set rs. name_eq H (rr_name r) n then rrset_of H n t rs
      else concat (take 1 (filter (\<lambda>s. s \<noteq> []) (map (\<lambda>w. rrset_of H w t rs) (wildcard_names H n)))))"

definition spec_answers :: "'n hickory \<Rightarrow> 'n rr list \<Rightarrow> 'n \<Rightarrow> record_type \<Rightarrow> bool \<Rightarrow> 'n rr list" where
  "spec_answers H rs n t dnssec =
     (if spec_rrset H rs n t \<noteq> [] then
        spec_rrset H rs n t @ (if dnssec then filter (sig_covers t) (rrset_of H n RT_SIG rs) else [])
      else concat (map (\<lambda>c. c # (case rr_data c of Some (RD_CNAME target) \<Rightarrow> rrset_of H target t rs | _ \<Rightarrow> []))
                    (spec_rrset H rs n RT_CNAME)))"

definition soa_rr :: "'n hickory \<Rightarrow> 'n \<Rightarrow> 'n soa_record \<Rightarrow> 'n rr" where
  "soa_rr H origin soa = from_rdata H origin (minimum soa)
     (RD_SOA (mname soa) (rname soa) (serial soa) (refresh soa) (retry soa) (expire soa) (minimum soa))"

text \<open>The code, the answers and the authority section for a question about a name of the zone.\<close>

definition spec_response ::
  "'n hickory \<Rightarrow> 'n \<Rightarrow> 'n soa_record \<Rightarrow> 'n rr list \<Rightarrow> 'n question \<Rightarrow> bool \<Rightarrow>
   response_code \<times> 'n rr list \<times> 'n rr list" where
  "spec_response H origin soa rs q dnssec =
     (let answers = spec_answers H rs (q_name q) (q_type q) dnssec in
      if answers \<noteq> [] then (NoError, answers, rrset_of H origin RT_NS rs)
      else (if \<exists>r \<in> set rs. name_eq H (rr_name r) (q_name q) then NoError else NXDomain, [], [soa_rr H origin soa]))"

section \<open>The zone implements it\<close>

lemma wildcard_loop_spec:
  "wildcard_loop H (zone_of_records H origin soa rs) t labels ks =
     (case filter (\<lambda>s. s \<noteq> []) (map (\<lambda>w. rrset_of H w t rs)
        (List.map_filter (\<lambda>k. name_from_labels H (''*'' # drop k labels)) ks)) of
        [] \<Rightarrow> None | s # _ \<Rightarrow> Some s)"
  by (induction ks) (auto simp: lookup_zone_of_records map_filter_simps split: option.split)

lemma lookup_or_wildcard_spec:
  "lookup_or_wildcard H (zone_of_records H origin soa rs) n t =
     (if spec_rrset H rs n t = [] then None else Some (spec_rrset H rs n t))"
proof (cases "\<exists>r \<in> set rs. name_eq H (rr_name r) n")
  case False
  let ?sets = "filter (\<lambda>s. s \<noteq> []) (map (\<lambda>w. rrset_of H w t rs) (wildcard_names H n))"
  have wild: "lookup_or_wildcard H (zone_of_records H origin soa rs) n t =
      (case ?sets of [] \<Rightarrow> None | s # _ \<Rightarrow> Some s)"
    using False by (simp add: lookup_or_wildcard_def contains_zone_of_records lookup_wildcard_def Let_def
        wildcard_loop_spec wildcard_names_def)
  have spec: "spec_rrset H rs n t = concat (take 1 ?sets)" using False by (simp add: spec_rrset_def)
  have "s \<noteq> []" if "?sets = s # ss" for s ss
    using that by (metis (mono_tags, lifting) filter_eq_Cons_iff)
  then show ?thesis unfolding wild spec by (cases ?sets) simp_all
qed (simp add: lookup_or_wildcard_def contains_zone_of_records spec_rrset_def lookup_zone_of_records)

lemma zone_answers_spec:
  "zone_answers H (zone_of_records H origin soa rs) n t dnssec = spec_answers H rs n t dnssec"
proof -
  have "chase_cname H (zone_of_records H origin soa rs) t =
      (\<lambda>c. c # (case rr_data c of Some (RD_CNAME target) \<Rightarrow> rrset_of H target t rs | _ \<Rightarrow> []))"
    by (auto simp: chase_cname_def lookup_zone_of_records fun_eq_iff split: option.split rdata.split)
  then show ?thesis
    by (auto simp: zone_answers_def spec_answers_def lookup_or_wildcard_spec covering_rrsigs_def
        lookup_zone_of_records)
qed

lemma resolved_spec:
  assumes "fresh_message (message_new H)" and "resolves H st query q (zone_of_records H origin soa rs)"
    and "process_query H st query = Inr r"
  shows "msg_authoritative r \<and> (msg_response_code r, msg_answers r, msg_name_servers r) =
    spec_response H origin soa rs q (wants_dnssec query)"
proof -
  let ?z = "zone_of_records H origin soa rs"
  note r = resolved_response [OF assms(1,2) wf_zone_of_records assms(3)]
  have "no_records H ?z (q_name q) (q_type q) \<longleftrightarrow> spec_answers H rs (q_name q) (q_type q) (wants_dnssec query) = []"
    using zone_answers_empty_iff [OF wf_zone_of_records] zone_answers_spec by metis
  moreover have "apex_ns H ?z = rrset_of H origin RT_NS rs"
    by (simp add: apex_ns_def lookup_zone_of_records zone_of_records_frame)
  moreover have "get_soa_record H ?z = soa_rr H origin soa"
    by (simp add: get_soa_record_def soa_rr_def Let_def zone_of_records_frame)
  ultimately show ?thesis
    using r by (simp add: spec_response_def Let_def contains_zone_of_records zone_answers_spec)
qed

text \<open>A record set holds records of its type.\<close>

lemma spec_rrset_type:
  assumes "x \<in> set (spec_rrset H rs n t)"
  shows "rr_type x = t"
proof (cases "\<exists>r \<in> set rs. name_eq H (rr_name r) n")
  case False
  with assms obtain w where "x \<in> set (rrset_of H w t rs)"
    by (auto simp: spec_rrset_def dest!: in_set_takeD)
  then show ?thesis by (simp add: rrset_of_def)
qed (use assms in \<open>simp add: spec_rrset_def rrset_of_def\<close>)

section \<open>Properties\<close>

text \<open>
  C2. \<open>process_query\<close> refines the specification of an answer. For a zone loaded with the records
  \<open>rs\<close>, the code, the answers and the authority section of the response are those of
  \<open>spec_response\<close> for every question that reaches the zone: the name's own records or those of
  the closest wildcard, with the signatures over them on request; else its CNAME records, each
  with the records of its target; else the SOA record, with NXDomain when the name owns nothing.
\<close>

theorem query_refines_spec:
  assumes "fresh_message (message_new H)"
    and "resolves H st query q (zone_of_records H origin soa rs)"
  shows "\<exists>r. process_query H st query = Inr r \<and> msg_authoritative r \<and>
    (msg_response_code r, msg_answers r, msg_name_servers r) =
      spec_response H origin soa rs q (wants_dnssec query)"
proof -
  obtain r where r: "process_query H st query = Inr r" using process_query_total by blast
  with resolved_spec [OF assms r] show ?thesis by blast
qed

text \<open>An alias below a wildcard: \<open>x\<close> is answered by the wildcard's CNAME and its target's address.\<close>

theorem query_refines_spec_witness:
  "let wild = ''*'' # example_com; www = ''www'' # example_com;
       c = from_rdata sample wild 60 (RD_CNAME www);
       a = from_rdata sample www 60 (RD_A (192, 0, 2, 9));
       ns = from_rdata sample example_com 60 (RD_NS www);
       st = add_zone sample zone_store_new (zone_of_records sample example_com test_soa [ns, c, a])
   in \<exists>r. process_query sample st (query_for (''x'' # example_com) RT_A None) = Inr r \<and>
        msg_answers r = [c, a] \<and> msg_name_servers r = [ns]"
proof -
  define n where "n = ''x'' # example_com"
  define c where "c = from_rdata sample (''*'' # example_com) 60 (RD_CNAME (''www'' # example_com))"
  define a where "a = from_rdata sample (''www'' # example_com) 60 (RD_A (192, 0, 2, 9))"
  define ns where "ns = from_rdata sample example_com 60 (RD_NS (''www'' # example_com))"
  define z where "z = zone_of_records sample example_com test_soa [ns, c, a]"
  define st where "st = add_zone sample zone_store_new z"
  note defs = n_def c_def a_def ns_def z_def st_def
  have "find_zone sample st n = Some z" unfolding defs by code_simp
  then have res: "resolves sample st (query_for n RT_A None) \<lparr>q_name = n, q_type = RT_A\<rparr> z"
    by (simp add: resolves_def query_for_def sample_message_def first_query_def)
  have "spec_response sample example_com test_soa [ns, c, a] \<lparr>q_name = n, q_type = RT_A\<rparr>
      (wants_dnssec (query_for n RT_A None)) = (NoError, [c, a], [ns])"
    unfolding defs by code_simp
  with query_refines_spec [OF sample_fresh res [unfolded z_def]]
  have "\<exists>r. process_query sample st (query_for n RT_A None) = Inr r \<and>
      msg_answers r = [c, a] \<and> msg_name_servers r = [ns]" by auto
  then show ?thesis unfolding Let_def defs .
qed

text \<open>
  C38. A CNAME is followed once. When a name has aliases and none of their targets owns a record of
  the type asked for, as when the targets are aliases themselves, the answers are those CNAME records
  alone with code NoError: no record of the type asked for is delivered, whatever is behind the
  second alias.
\<close>

theorem cname_followed_once:
  assumes "fresh_message (message_new H)" and "resolves H st query q (zone_of_records H origin soa rs)"
    and "spec_rrset H rs (q_name q) (q_type q) = []" and "spec_rrset H rs (q_name q) RT_CNAME = cs" and "cs \<noteq> []"
    and "\<forall>c \<in> set cs. \<exists>target. rr_data c = Some (RD_CNAME target) \<and> rrset_of H target (q_type q) rs = []"
  shows "\<exists>r. process_query H st query = Inr r \<and> msg_response_code r = NoError \<and> msg_answers r = cs \<and>
    (\<forall>x \<in> set (msg_answers r). rr_type x = RT_CNAME \<and> rr_type x \<noteq> q_type q)"
proof -
  obtain r where r: "process_query H st query = Inr r" using process_query_total by blast
  have alone: "c # (case rr_data c of Some (RD_CNAME target) \<Rightarrow> rrset_of H target (q_type q) rs | _ \<Rightarrow> []) = [c]"
    if "c \<in> set cs" for c using that assms(6) by force
  have single: "concat (map (\<lambda>c. [c]) cs) = cs" for cs :: "'a rr list" by (induction cs) auto
  let ?chase = "\<lambda>c. c # (case rr_data c of Some (RD_CNAME target) \<Rightarrow> rrset_of H target (q_type q) rs | _ \<Rightarrow> [])"
  have flat: "map ?chase cs = map (\<lambda>c. [c]) cs" using alone by (rule map_cong [OF refl])
  have "spec_answers H rs (q_name q) (q_type q) (wants_dnssec query) = concat (map ?chase cs)"
    using assms(3,4) by (simp add: spec_answers_def)
  also have "\<dots> = cs" unfolding flat by (rule single)
  finally have "spec_answers H rs (q_name q) (q_type q) (wants_dnssec query) = cs" .
  then have ans: "msg_response_code r = NoError" "msg_answers r = cs"
    using resolved_spec [OF assms(1,2) r] assms(5) by (simp_all add: spec_response_def Let_def)
  have "q_type q \<noteq> RT_CNAME" using assms(3-5) by auto
  moreover have "rr_type x = RT_CNAME" if "x \<in> set cs" for x
    using that unfolding assms(4) [symmetric] by (rule spec_rrset_type)
  ultimately show ?thesis using r ans by auto
qed

theorem cname_followed_once_witness:
  "let c1 = from_rdata sample (''a'' # example_com) 60 (RD_CNAME (''b'' # example_com));
       c2 = from_rdata sample (''b'' # example_com) 60 (RD_CNAME (''c'' # example_com));
       a = from_rdata sample (''c'' # example_com) 60 (RD_A (192, 0, 2, 5));
       st = add_zone sample zone_store_new (zone_of_records sample example_com test_soa [c1, c2, a])
   in \<exists>r. process_query sample st (query_for (''a'' # example_com) RT_A None) = Inr r \<and> msg_answers r = [c1]"
proof -
  define n where "n = ''a'' # example_com"
  define c1 where "c1 = from_rdata sample n 60 (RD_CNAME (''b'' # example_com))"
  define c2 where "c2 = from_rdata sample (''b'' # example_com) 60 (RD_CNAME (''c'' # example_com))"
  define a where "a = from_rdata sample (''c'' # example_com) 60 (RD_A (192, 0, 2, 5))"
  define z where "z = zone_of_records sample example_com test_soa [c1, c2, a]"
  define st where "st = add_zone sample zone_store_new z"
  let ?q = "\<lparr>q_name = n, q_type = RT_A\<rparr>"
  note defs = n_def c1_def c2_def a_def z_def st_def
  have "find_zone sample st n = Some z" unfolding defs by code_simp
  then have res: "resolves sample st (query_for n RT_A None) ?q z"
    by (simp add: resolves_def query_for_def sample_message_def first_query_def)
  have none: "spec_rrset sample [c1, c2, a] (q_name ?q) (q_type ?q) = []"
    and cname: "spec_rrset sample [c1, c2, a] (q_name ?q) RT_CNAME = [c1]"
    and target: "rrset_of sample (''b'' # example_com) (q_type ?q) [c1, c2, a] = []"
    unfolding defs by code_simp+
  have "\<forall>c \<in> set [c1]. \<exists>target. rr_data c = Some (RD_CNAME target) \<and>
      rrset_of sample target (q_type ?q) [c1, c2, a] = []"
    using target by (simp add: c1_def)
  from cname_followed_once [OF sample_fresh res [unfolded z_def] none cname _ this]
  have "\<exists>r. process_query sample st (query_for n RT_A None) = Inr r \<and> msg_answers r = [c1]" by auto
  then show ?thesis unfolding Let_def defs .
qed

end
