(* ===== verification/Ratelimit.thy ===== *)
theory Ratelimit
  imports Rust_Std
begin

text \<open>
  \<open>src/ratelimit.rs\<close>: the per-client rate limiter. An \<open>Instant\<close> is a number of nanoseconds and
  \<open>duration_since\<close> saturates at zero, as subtraction of naturals does. The mutex is held for the
  whole of \<open>check_rate_limit\<close>, so concurrent calls are a sequence of calls; every call of
  \<open>Instant::now()\<close> is an input. The locale \<open>sliding_window\<close> says what the server relies on, and
  the limiter is shown to take the decisions of a list of accepted queries.
\<close>

section \<open>State and operations\<close>

type_synonym instant = nat
type_synonym duration = nat

definition duration_since :: "instant \<Rightarrow> instant \<Rightarrow> duration" where
  "duration_since now earlier = now - earlier"

definition from_secs :: "nat \<Rightarrow> duration" where
  "from_secs s = s * 1000000000"

datatype ip_addr = V4 ipv4 | V6 ipv6

record client_state =
  queries :: "instant list"

record rate_limiter =
  clients :: "(ip_addr, client_state) hash_map"
  max_qps :: u32
  window :: duration
  last_cleanup :: instant

text \<open>
  The readings of the clock during one call, in order: for \<open>elapsed\<close>, in \<open>cleanup\<close>, for
  \<open>last_cleanup\<close> and for \<open>now\<close>. The second and third are not used when no cleanup is due.
\<close>

record ticks =
  t_elapsed :: instant
  t_cleanup :: instant
  t_stamp :: instant
  t_now :: instant

definition rate_limiter_new :: "u32 \<Rightarrow> instant \<Rightarrow> rate_limiter" where
  "rate_limiter_new qps now =
     \<lparr>clients = [], max_qps = qps, window = from_secs 1, last_cleanup = now\<rparr>"

definition retain_recent :: "instant \<Rightarrow> duration \<Rightarrow> client_state \<Rightarrow> client_state" where
  "retain_recent now w client =
     client\<lparr>queries := filter (\<lambda>timestamp. duration_since now timestamp < w) (queries client)\<rparr>"

definition cleanup :: "instant \<Rightarrow> rate_limiter \<Rightarrow> rate_limiter" where
  "cleanup now inner =
     inner\<lparr>clients := hm_retain (\<lambda>_ client.
        let client = retain_recent now (window inner) client in (client, queries client \<noteq> []))
        (clients inner)\<rparr>"

definition check_rate_limit :: "ticks \<Rightarrow> ip_addr \<Rightarrow> rate_limiter \<Rightarrow> bool \<times> rate_limiter" where
  "check_rate_limit tk addr inner =
     (let inner =
            (if from_secs 60 < duration_since (t_elapsed tk) (last_cleanup inner)
             then (cleanup (t_cleanup tk) inner)\<lparr>last_cleanup := t_stamp tk\<rparr>
             else inner);
          now = t_now tk;
          client = retain_recent now (window inner)
            (case hm_get (\<lambda>a. a) (clients inner) addr of Some c \<Rightarrow> c | None \<Rightarrow> \<lparr>queries = []\<rparr>);
          store = (\<lambda>c. inner\<lparr>clients := hm_insert (\<lambda>a. a) (clients inner) addr c\<rparr>)
      in if unat (max_qps inner) \<le> length (queries client) then (False, store client)
         else (True, store (client\<lparr>queries := queries client @ [now]\<rparr>)))"

section \<open>The contract of a sliding window\<close>

text \<open>The decisions of a limiter that remembers every accepted query.\<close>

fun spec_run :: "nat \<Rightarrow> nat \<Rightarrow> (instant \<times> 'a) list \<Rightarrow> (instant \<times> 'a) list \<Rightarrow> bool list" where
  "spec_run W L h [] = []"
| "spec_run W L h ((t, a) # es) =
     (let ok = length (filter (\<lambda>(t', b). b = a \<and> t - t' < W) h) < L
      in ok # spec_run W L (if ok then h @ [(t, a)] else h) es)"

definition accepted :: "'e list \<Rightarrow> bool list \<Rightarrow> 'e list" where
  "accepted es bs = map fst (filter snd (zip es bs))"

definition in_window :: "nat \<Rightarrow> instant \<Rightarrow> 'a \<Rightarrow> (instant \<times> 'a) list \<Rightarrow> nat" where
  "in_window W u a h = length (filter (\<lambda>(t, b). b = a \<and> u \<le> t \<and> t < u + W) h)"

lemma length_spec_run [simp]: "length (spec_run W L h es) = length es"
  by (induction W L h es rule: spec_run.induct) (simp_all add: Let_def)

lemma in_window_push:
  assumes "\<forall>u a. in_window W u a h \<le> L"
    and "length (filter (\<lambda>(t', b). b = a \<and> t - t' < W) h) < L"
  shows "in_window W u c (h @ [(t, a)]) \<le> L"
proof (cases "c = a \<and> u \<le> t \<and> t < u + W")
  case True
  have "in_window W u c h = length (filter (\<lambda>(t', b). b = c \<and> u \<le> t' \<and> t' < u + W) h)"
    by (simp add: in_window_def)
  also have "\<dots> \<le> length (filter (\<lambda>(t', b). b = a \<and> t - t' < W) h)"
    using True by (induction h) auto
  finally show ?thesis using assms(2) True by (simp add: in_window_def)
next
  case False
  then show ?thesis using assms(1) by (auto simp: in_window_def)
qed

lemma spec_run_bounded:
  assumes "\<forall>u a. in_window W u a h \<le> L"
  shows "in_window W u a (h @ accepted es (spec_run W L h es)) \<le> L"
  using assms
proof (induction W L h es arbitrary: u a rule: spec_run.induct)
  case (2 W L h t b es)
  let ?ok = "length (filter (\<lambda>(t', c). c = b \<and> t - t' < W) h) < L"
  let ?h = "if ?ok then h @ [(t, b)] else h"
  have "in_window W v c ?h \<le> L" for v c
    using in_window_push [OF "2.prems", of b t] "2.prems" by simp
  then have "in_window W u a (?h @ accepted es (spec_run W L ?h es)) \<le> L"
    using "2.IH" [of ?ok] by simp
  moreover have "h @ accepted ((t, b) # es) (spec_run W L h ((t, b) # es)) =
      ?h @ accepted es (spec_run W L ?h es)"
    by (simp add: accepted_def Let_def)
  ultimately show ?case by simp
qed (simp add: accepted_def)

text \<open>A sequence of calls, and the queries it is about.\<close>

fun run_checks :: "('t \<Rightarrow> 'a \<Rightarrow> 's \<Rightarrow> bool \<times> 's) \<Rightarrow> ('t \<times> 'a) list \<Rightarrow> 's \<Rightarrow> bool list \<times> 's" where
  "run_checks check [] s = ([], s)"
| "run_checks check ((t, a) # es) s =
     (let (b, s') = check t a s; (bs, s'') = run_checks check es s' in (b # bs, s''))"

definition stamps :: "('t \<Rightarrow> instant) \<Rightarrow> ('t \<times> 'a) list \<Rightarrow> (instant \<times> 'a) list" where
  "stamps time es = map (\<lambda>(t, a). (time t, a)) es"

text \<open>
  What the server relies on: a decision looks only at the live stamps of the client, and a call adds
  a stamp to the client it allows and changes nothing else that is still live.
\<close>

locale sliding_window =
  fixes W L :: nat
    and inv :: "'s \<Rightarrow> bool"
    and ok :: "'t \<Rightarrow> bool"
    and time :: "'t \<Rightarrow> instant"
    and check :: "'t \<Rightarrow> 'a \<Rightarrow> 's \<Rightarrow> bool \<times> 's"
    and live :: "'s \<Rightarrow> 'a \<Rightarrow> instant \<Rightarrow> instant list"
  assumes decision: "inv s \<Longrightarrow> ok t \<Longrightarrow> fst (check t a s) \<longleftrightarrow> length (live s a (time t)) < L"
    and live_check: "inv s \<Longrightarrow> ok t \<Longrightarrow> time t \<le> u \<Longrightarrow>
      live (snd (check t a s)) b u =
        live s b u @ (if b = a \<and> fst (check t a s) \<and> u - time t < W then [time t] else [])"
    and inv_check: "inv s \<Longrightarrow> ok t \<Longrightarrow> inv (snd (check t a s))"
begin

definition remembers :: "(instant \<times> 'a) list \<Rightarrow> 's \<Rightarrow> instant \<Rightarrow> bool" where
  "remembers h s now \<longleftrightarrow>
     (\<forall>u a. now \<le> u \<longrightarrow> live s a u = map fst (filter (\<lambda>(t, b). b = a \<and> u - t < W) h))"

lemma remembers_check:
  assumes "inv s" and "ok t" and "now \<le> time t" and "remembers h s now"
  shows "fst (check t a s) \<longleftrightarrow> length (filter (\<lambda>(t', b). b = a \<and> time t - t' < W) h) < L"
    and "remembers (if fst (check t a s) then h @ [(time t, a)] else h) (snd (check t a s)) (time t)"
  using assms decision [OF assms(1,2), of a] live_check [OF assms(1,2)] unfolding remembers_def by auto

lemma run_spec:
  assumes "inv s" and "\<forall>e \<in> set es. ok (fst e) \<and> now \<le> time (fst e)"
    and "sorted (map fst (stamps time es))" and "remembers h s now"
  shows "fst (run_checks check es s) = spec_run W L h (stamps time es)" and "inv (snd (run_checks check es s))"
proof -
  have "fst (run_checks check es s) = spec_run W L h (stamps time es) \<and> inv (snd (run_checks check es s))"
    using assms
  proof (induction es arbitrary: s h now)
    case (Cons e es)
    obtain t a where e: "e = (t, a)" by (cases e)
    have t: "ok t" "now \<le> time t" and later: "\<forall>e \<in> set es. ok (fst e) \<and> time t \<le> time (fst e)"
      and sorted: "sorted (map fst (stamps time es))"
      using Cons.prems(2,3) by (auto simp: stamps_def e)
    note step = remembers_check [OF Cons.prems(1) t Cons.prems(4), of a]
    obtain b s' where c: "check t a s = (b, s')" by (cases "check t a s") auto
    then have "inv s'" using inv_check [OF Cons.prems(1) t(1), of a] by simp
    from Cons.IH [OF this later sorted, of "if b then h @ [(time t, a)] else h"]
    show ?case using step c by (auto simp: e stamps_def Let_def split: prod.split)
  qed (simp add: stamps_def)
  then show "fst (run_checks check es s) = spec_run W L h (stamps time es)" and "inv (snd (run_checks check es s))" by auto
qed

end

section \<open>The limiter is a sliding window\<close>

definition limiter_inv :: "nat \<Rightarrow> nat \<Rightarrow> rate_limiter \<Rightarrow> bool" where
  "limiter_inv W L rl \<longleftrightarrow> hm_wf (\<lambda>a. a) (clients rl) \<and> window rl = W \<and> unat (max_qps rl) = L"

definition ticks_ok :: "ticks \<Rightarrow> bool" where
  "ticks_ok tk \<longleftrightarrow> t_elapsed tk \<le> t_cleanup tk \<and> t_cleanup tk \<le> t_stamp tk \<and> t_stamp tk \<le> t_now tk"

definition stored_stamps :: "rate_limiter \<Rightarrow> ip_addr \<Rightarrow> instant list" where
  "stored_stamps rl a =
     (case hm_get (\<lambda>a. a) (clients rl) a of Some c \<Rightarrow> queries c | None \<Rightarrow> [])"

definition live_stamps :: "rate_limiter \<Rightarrow> ip_addr \<Rightarrow> instant \<Rightarrow> instant list" where
  "live_stamps rl a u = filter (\<lambda>t. duration_since u t < window rl) (stored_stamps rl a)"

lemma hm_get_retain:
  "hm_wf key m \<Longrightarrow> hm_get key (hm_retain (\<lambda>_ v. (g v, P v)) m) k =
     (case hm_get key m k of Some v \<Rightarrow> if P v then Some (g v) else None | None \<Rightarrow> None)"
proof (induction m)
  case (Cons p m)
  obtain k' v where p: "p = (k', v)" by (cases p)
  have "hm_wf key m" using Cons.prems by (simp add: hm_wf_def)
  moreover have "hm_get key m k = None" if "key k' = key k"
    using Cons.prems that by (force simp: hm_get_None_iff hm_wf_def p)
  ultimately show ?case using Cons.IH by (auto simp: p)
qed simp

lemma hm_wf_retain: "hm_wf key m \<Longrightarrow> hm_wf key (hm_retain (\<lambda>_ v. (g v, P v)) m)"
proof -
  have "map (key \<circ> fst) (hm_retain (\<lambda>_ v. (g v, P v)) m) = map (key \<circ> fst) (filter (P \<circ> snd) m)"
    by (induction m) auto
  then show "hm_wf key m \<Longrightarrow> ?thesis" by (simp add: hm_wf_def distinct_map_filter)
qed

lemma cleanup_simps [simp]:
  "window (cleanup t rl) = window rl" "max_qps (cleanup t rl) = max_qps rl"
  by (simp_all add: cleanup_def)

lemma cleanup_wf: "hm_wf (\<lambda>a. a) (clients rl) \<Longrightarrow> hm_wf (\<lambda>a. a) (clients (cleanup t rl))"
  by (simp add: cleanup_def Let_def hm_wf_retain)

lemma cleanup_stamps:
  "hm_wf (\<lambda>a. a) (clients rl) \<Longrightarrow> stored_stamps (cleanup t rl) a = live_stamps rl a t"
  by (auto simp: stored_stamps_def live_stamps_def cleanup_def Let_def hm_get_retain retain_recent_def
      split: option.split)

lemma filter_recent_mono:
  "t \<le> u \<Longrightarrow> filter (\<lambda>x. duration_since t x < W \<and> duration_since u x < W) xs =
     filter (\<lambda>x. duration_since u x < W) xs"
  by (induction xs) (auto simp: duration_since_def)

text \<open>The state in which the decision is taken, after the cleanup that may be due.\<close>

definition cleaned :: "ticks \<Rightarrow> rate_limiter \<Rightarrow> rate_limiter" where
  "cleaned tk rl =
     (if from_secs 60 < duration_since (t_elapsed tk) (last_cleanup rl)
      then (cleanup (t_cleanup tk) rl)\<lparr>last_cleanup := t_stamp tk\<rparr> else rl)"

lemma cleaned_inv: "limiter_inv W L rl \<Longrightarrow> limiter_inv W L (cleaned tk rl)"
  by (simp add: limiter_inv_def cleaned_def cleanup_wf)

lemma cleaned_live:
  assumes "limiter_inv W L rl" and "ticks_ok tk" and "t_now tk \<le> u"
  shows "live_stamps (cleaned tk rl) a u = live_stamps rl a u"
proof -
  have [simp]: "stored_stamps (rl\<lparr>last_cleanup := x\<rparr>) a = stored_stamps rl a" for rl x
    by (simp add: stored_stamps_def)
  have "t_cleanup tk \<le> u" using assms(2,3) by (simp add: ticks_ok_def)
  with assms(1) show ?thesis
    by (simp add: live_stamps_def cleaned_def limiter_inv_def cleanup_stamps filter_recent_mono)
qed

lemma client_state_update [simp]: "c\<lparr>queries := ts\<rparr> = \<lparr>queries = ts\<rparr>" for c :: client_state
  by (cases c) simp

lemma check_rate_limit_eq:
  "check_rate_limit tk a rl =
     (let rl' = cleaned tk rl; now = live_stamps rl' a (t_now tk); ok = length now < unat (max_qps rl')
      in (ok, rl'\<lparr>clients := hm_insert (\<lambda>a. a) (clients rl') a
           \<lparr>queries = now @ (if ok then [t_now tk] else [])\<rparr>\<rparr>))"
  by (auto simp: check_rate_limit_def cleaned_def [symmetric] Let_def retain_recent_def live_stamps_def
      stored_stamps_def split: option.split)

lemma check_limiter_inv: "limiter_inv W L rl \<Longrightarrow> limiter_inv W L (snd (check_rate_limit tk a rl))"
  using cleaned_inv [of W L rl tk] by (simp add: check_rate_limit_eq Let_def limiter_inv_def hm_simps)

interpretation sw: sliding_window W L "limiter_inv W L" ticks_ok t_now check_rate_limit live_stamps
  for W L
proof
  fix rl :: rate_limiter and tk a b u
  assume inv: "limiter_inv W L rl" and tk: "ticks_ok tk"
  note inv' = cleaned_inv [OF inv, of tk] and live = cleaned_live [OF inv tk]
  show dec: "fst (check_rate_limit tk a rl) = (length (live_stamps rl a (t_now tk)) < L)"
    using inv' live by (simp add: check_rate_limit_eq Let_def limiter_inv_def)
  show "limiter_inv W L (snd (check_rate_limit tk a rl))" using inv by (rule check_limiter_inv)
  assume u: "t_now tk \<le> u"
  have "filter (\<lambda>t. duration_since u t < W) (live_stamps (cleaned tk rl) a (t_now tk)) =
      live_stamps (cleaned tk rl) a u"
    using inv' u by (simp add: live_stamps_def limiter_inv_def filter_recent_mono)
  then show "live_stamps (snd (check_rate_limit tk a rl)) b u =
      live_stamps rl b u @
        (if b = a \<and> fst (check_rate_limit tk a rl) \<and> u - t_now tk < W then [t_now tk] else [])"
    using inv' live [OF u] by (auto simp: check_rate_limit_eq Let_def limiter_inv_def live_stamps_def
        stored_stamps_def hm_simps duration_since_def)
qed

lemma new_inv: "limiter_inv (from_secs 1) (unat qps) (rate_limiter_new qps t0)"
  by (simp add: limiter_inv_def rate_limiter_new_def)

lemma new_remembers: "sw.remembers (from_secs 1) [] (rate_limiter_new qps t0) 0"
  by (simp add: sw.remembers_def live_stamps_def stored_stamps_def rate_limiter_new_def)

text \<open>A run of the clock: each call reads it in order, and later calls read later times.\<close>

definition clock_run :: "(ticks \<times> ip_addr) list \<Rightarrow> bool" where
  "clock_run es \<longleftrightarrow> (\<forall>e \<in> set es. ticks_ok (fst e)) \<and> sorted (map (t_now \<circ> fst) es)"

lemma limiter_run:
  assumes "clock_run es"
  shows "fst (run_checks check_rate_limit es (rate_limiter_new qps t0)) =
      spec_run (from_secs 1) (unat qps) [] (stamps t_now es)"
    and "limiter_inv (from_secs 1) (unat qps)
      (snd (run_checks check_rate_limit es (rate_limiter_new qps t0)))"
proof -
  have "map fst (stamps t_now es) = map (t_now \<circ> fst) es" by (simp add: stamps_def case_prod_beta)
  then have "\<forall>e \<in> set es. ticks_ok (fst e) \<and> 0 \<le> t_now (fst e)" "sorted (map fst (stamps t_now es))"
    using assms by (simp_all add: clock_run_def)
  note run = sw.run_spec [OF new_inv this new_remembers]
  show "fst (run_checks check_rate_limit es (rate_limiter_new qps t0)) =
      spec_run (from_secs 1) (unat qps) [] (stamps t_now es)"
    and "limiter_inv (from_secs 1) (unat qps)
      (snd (run_checks check_rate_limit es (rate_limiter_new qps t0)))"
    by (rule run)+
qed

lemma limiter_bound:
  assumes "clock_run es"
  shows "length (filter (\<lambda>(tk, b). b = a \<and> u \<le> t_now tk \<and> t_now tk < u + 1000000000)
      (accepted es (fst (run_checks check_rate_limit es (rate_limiter_new qps t0))))) \<le> unat qps"
proof -
  let ?bs = "spec_run (from_secs 1) (unat qps) [] (stamps t_now es)"
  have "\<forall>u c. in_window (from_secs 1) u c [] \<le> unat qps" by (simp add: in_window_def)
  from spec_run_bounded [OF this, of u a "stamps t_now es"]
  have bound: "in_window (from_secs 1) u a (accepted (stamps t_now es) ?bs) \<le> unat qps" by simp
  have acc: "accepted (stamps t_now es) bs = stamps t_now (accepted es bs)" for bs
    unfolding accepted_def stamps_def by (simp add: zip_map1 filter_map comp_def case_prod_beta)
  have win: "in_window (from_secs 1) u a (stamps t_now xs) =
      length (filter (\<lambda>(tk, b). b = a \<and> u \<le> t_now tk \<and> t_now tk < u + 1000000000) xs)" for xs
    by (induction xs) (auto simp: in_window_def stamps_def from_secs_def)
  from bound show ?thesis by (simp only: limiter_run(1) [OF assms] acc win)
qed

lemma clock_run_filter: "clock_run es \<Longrightarrow> clock_run (filter P es)"
  by (auto simp: clock_run_def intro: sorted_filter)

lemma spec_run_client:
  "map snd (filter (\<lambda>(e, b). snd e = a) (zip es (spec_run W L h es))) =
     spec_run W L (filter (\<lambda>e. snd e = a) h) (filter (\<lambda>e. snd e = a) es)"
proof (induction W L h es rule: spec_run.induct)
  case (2 W L h t b es)
  have "filter (\<lambda>(t', c). c = b \<and> t - t' < W) (filter (\<lambda>e. snd e = b) h) =
      filter (\<lambda>(t', c). c = b \<and> t - t' < W) h"
    by (auto simp: case_prod_beta intro: filter_cong)
  then show ?case using 2 [OF refl] by (auto simp: Let_def)
qed simp

section \<open>Properties\<close>

text \<open>Two clients, calls every half second, with the clock in nanoseconds.\<close>

definition tick :: "instant \<Rightarrow> ticks" where
  "tick t = \<lparr>t_elapsed = t, t_cleanup = t, t_stamp = t, t_now = t\<rparr>"

definition sample_calls :: "(ticks \<times> ip_addr) list" where
  "sample_calls =
     [(tick 0, V4 (10, 0, 0, 1)), (tick 500000000, V4 (10, 0, 0, 1)),
      (tick 600000000, V4 (10, 0, 0, 2)), (tick 1000000000, V4 (10, 0, 0, 1)),
      (tick 61000000001, V4 (10, 0, 0, 1))]"

lemma sample_clock: "clock_run sample_calls"
  by (simp add: clock_run_def sample_calls_def ticks_ok_def tick_def)

text \<open>
  C5. The limiter takes the decisions of its specification: over any run of calls, with any number
  of clients and with the cleanup of stale clients happening whenever it is due, a query is allowed
  exactly when fewer than \<open>max_qps\<close> queries of that client were allowed in the second before it.
\<close>

theorem rate_limiter_refines:
  assumes "\<forall>e \<in> set es. ticks_ok (fst e)" and "sorted (map (t_now \<circ> fst) es)"
  shows "fst (run_checks check_rate_limit es (rate_limiter_new qps t0)) =
    spec_run 1000000000 (unat qps) [] (stamps t_now es)"
  using limiter_run(1) [of es qps t0] assms by (simp add: clock_run_def from_secs_def)

theorem rate_limiter_refines_witness:
  "fst (run_checks check_rate_limit sample_calls (rate_limiter_new 1 0)) = [True, False, True, True, True] \<and>
   spec_run 1000000000 1 [] (stamps t_now sample_calls) = [True, False, True, True, True]"
proof -
  have "spec_run 1000000000 1 [] (stamps t_now sample_calls) = [True, False, True, True, True]"
    by (simp add: stamps_def sample_calls_def tick_def Let_def)
  with rate_limiter_refines [of sample_calls 1 0] sample_clock show ?thesis
    by (simp add: clock_run_def)
qed

text \<open>
  No client is allowed more than \<open>max_qps\<close> queries in any period of one second, wherever the
  period starts.
\<close>

theorem rate_limit_bound:
  assumes "\<forall>e \<in> set es. ticks_ok (fst e)" and "sorted (map (t_now \<circ> fst) es)"
  shows "length (filter (\<lambda>(tk, b). b = a \<and> u \<le> t_now tk \<and> t_now tk < u + 1000000000)
      (accepted es (fst (run_checks check_rate_limit es (rate_limiter_new qps t0))))) \<le> unat qps"
  using limiter_bound [of es a u qps t0] assms by (simp add: clock_run_def)

theorem rate_limit_bound_witness:
  "length (filter (\<lambda>(tk, b). b = V4 (10, 0, 0, 1) \<and> 0 \<le> t_now tk \<and> t_now tk < 0 + 1000000000)
     (accepted sample_calls (fst (run_checks check_rate_limit sample_calls (rate_limiter_new 1 0))))) \<le> 1"
  using rate_limit_bound [of sample_calls "V4 (10, 0, 0, 1)" 0 1 0] sample_clock
  by (simp add: clock_run_def)

text \<open>
  Clients do not affect each other: the decisions for a client in a run of calls are those of
  the run of its own calls alone, whatever the others do and whichever call triggers a cleanup.
\<close>

theorem rate_limit_independent:
  assumes "\<forall>e \<in> set es. ticks_ok (fst e)" and "sorted (map (t_now \<circ> fst) es)"
  shows "map snd (filter (\<lambda>(e, b). snd e = a)
      (zip es (fst (run_checks check_rate_limit es (rate_limiter_new qps t0))))) =
    fst (run_checks check_rate_limit (filter (\<lambda>e. snd e = a) es) (rate_limiter_new qps t1))"
proof -
  have run: "clock_run es" using assms by (simp add: clock_run_def)
  let ?s = "\<lambda>xs. spec_run (from_secs 1) (unat qps) [] (stamps t_now xs)"
  have "map snd (filter (\<lambda>(e, b). snd e = a) (zip es bs)) =
      map snd (filter (\<lambda>(e, b). snd e = a) (zip (stamps t_now es) bs))" for bs :: "bool list"
    by (induction es arbitrary: bs) (auto simp: stamps_def zip_Cons1 split: list.split)
  moreover have "filter (\<lambda>e. snd e = a) (stamps t_now es) = stamps t_now (filter (\<lambda>e. snd e = a) es)"
    by (simp add: stamps_def filter_map comp_def case_prod_beta)
  ultimately have "map snd (filter (\<lambda>(e, b). snd e = a) (zip es (?s es))) = ?s (filter (\<lambda>e. snd e = a) es)"
    using spec_run_client [of a "stamps t_now es" "from_secs 1" "unat qps" "[]"] by simp
  with limiter_run(1) [OF run] limiter_run(1) [OF clock_run_filter [OF run]] show ?thesis by simp
qed

theorem rate_limit_independent_witness:
  "map snd (filter (\<lambda>(e, b). snd e = V4 (10, 0, 0, 1))
      (zip sample_calls (fst (run_checks check_rate_limit sample_calls (rate_limiter_new 1 0))))) =
    fst (run_checks check_rate_limit (filter (\<lambda>e. snd e = V4 (10, 0, 0, 1)) sample_calls)
      (rate_limiter_new 1 7))"
  using rate_limit_independent [of sample_calls "V4 (10, 0, 0, 1)" 1 0 7] sample_clock
  by (simp add: clock_run_def)

text \<open>Every tracked client stores at most \<open>max_qps\<close> stamps.\<close>

definition stamps_bounded :: "rate_limiter \<Rightarrow> bool" where
  "stamps_bounded rl \<longleftrightarrow> (\<forall>(a, c) \<in> set (clients rl). length (queries c) \<le> unat (max_qps rl))"

lemma hm_retain_in:
  assumes "(k, v) \<in> set (hm_retain (\<lambda>_ v. (g v, P v)) m)"
  shows "\<exists>v'. (k, v') \<in> set m \<and> v = g v' \<and> P v'"
proof -
  have "hm_retain (\<lambda>_ v. (g v, P v)) m = map (\<lambda>(k, v). (k, g v)) (filter (P \<circ> snd) m)"
    by (induction m) auto
  with assms show ?thesis by auto
qed

lemma cleaned_clients:
  assumes "(a, c) \<in> set (clients (cleanup t rl))"
  shows "\<exists>c'. (a, c') \<in> set (clients rl) \<and> queries c = filter (\<lambda>x. duration_since t x < window rl) (queries c') \<and>
    queries c \<noteq> []"
  using hm_retain_in [OF assms [unfolded cleanup_def Let_def, simplified]] by (auto simp: retain_recent_def)

lemma cleaned_bounded: "stamps_bounded rl \<Longrightarrow> stamps_bounded (cleaned tk rl)"
  by (fastforce simp: stamps_bounded_def cleaned_def dest: cleaned_clients
      intro: order_trans [OF length_filter_le])

lemma check_bounded:
  assumes "stamps_bounded rl"
  shows "stamps_bounded (snd (check_rate_limit tk a rl))"
proof -
  let ?rl = "cleaned tk rl"
  have b: "stamps_bounded ?rl" using assms by (rule cleaned_bounded)
  have "length (stored_stamps ?rl a) \<le> unat (max_qps ?rl)"
    using b by (auto simp: stored_stamps_def stamps_bounded_def split: option.split dest: hm_get_Some_in)
  then have "length (live_stamps ?rl a u) \<le> unat (max_qps ?rl)" for u
    using length_filter_le order_trans unfolding live_stamps_def by blast
  with b show ?thesis
    by (fastforce simp: check_rate_limit_eq Let_def stamps_bounded_def hm_insert_def dest!: hm_upsert_in)
qed

text \<open>
  Memory. Every client in the map stores at most \<open>max_qps\<close> stamps, which every call preserves;
  and after a call that comes more than 60 seconds after the last cleanup, every other client still
  in the map has stamps, all of them younger than one second at the cleanup.
\<close>

theorem rate_limiter_memory:
  assumes "stamps_bounded rl" and "limiter_inv (from_secs 1) L rl"
  shows "stamps_bounded (snd (check_rate_limit tk a rl)) \<and>
    (last_cleanup rl + 60000000000 < t_elapsed tk \<longrightarrow>
      last_cleanup (snd (check_rate_limit tk a rl)) = t_stamp tk \<and>
      (\<forall>(b, c) \<in> set (clients (snd (check_rate_limit tk a rl))). b \<noteq> a \<longrightarrow>
         queries c \<noteq> [] \<and> (\<forall>t \<in> set (queries c). t_cleanup tk - t < 1000000000)))"
proof -
  have "queries c \<noteq> [] \<and> (\<forall>t \<in> set (queries c). t_cleanup tk - t < 1000000000)"
    if due: "last_cleanup rl + 60000000000 < t_elapsed tk"
      and c: "(b, c) \<in> set (clients (snd (check_rate_limit tk a rl)))" "b \<noteq> a" for b c
  proof -
    have "60000000000 < t_elapsed tk - last_cleanup rl" using due by simp
    then have "(b, c) \<in> set (clients (cleanup (t_cleanup tk) rl))"
      using c by (auto simp: check_rate_limit_eq Let_def hm_insert_def cleaned_def from_secs_def
          duration_since_def dest!: hm_upsert_in)
    from cleaned_clients [OF this] assms(2) show ?thesis
      by (auto simp: limiter_inv_def from_secs_def duration_since_def)
  qed
  then show ?thesis using check_bounded [OF assms(1)]
    by (auto simp: check_rate_limit_eq Let_def cleaned_def from_secs_def duration_since_def)
qed

theorem rate_limiter_memory_witness:
  "let rl = snd (check_rate_limit (tick 0) (V4 (10, 0, 0, 1)) (rate_limiter_new 1 0));
       rl' = snd (check_rate_limit (tick 60000000001) (V4 (10, 0, 0, 2)) rl)
   in map fst (clients rl) = [V4 (10, 0, 0, 1)] \<and> map fst (clients rl') = [V4 (10, 0, 0, 2)] \<and>
      stamps_bounded rl'"
proof -
  define rl where "rl = snd (check_rate_limit (tick 0) (V4 (10, 0, 0, 1)) (rate_limiter_new 1 0))"
  have "stamps_bounded rl" unfolding rl_def
    by (rule check_bounded) (simp add: stamps_bounded_def rate_limiter_new_def)
  moreover have "limiter_inv (from_secs 1) 1 rl" unfolding rl_def
    by (rule sw.inv_check) (use new_inv [of 1 0] in \<open>simp_all add: ticks_ok_def tick_def\<close>)
  ultimately have "stamps_bounded (snd (check_rate_limit (tick 60000000001) (V4 (10, 0, 0, 2)) rl))"
    using rate_limiter_memory [of rl 1 "tick 60000000001"] by blast
  moreover have "map fst (clients rl) = [V4 (10, 0, 0, 1)]"
    "map fst (clients (snd (check_rate_limit (tick 60000000001) (V4 (10, 0, 0, 2)) rl))) = [V4 (10, 0, 0, 2)]"
    unfolding rl_def by code_simp+
  ultimately show ?thesis by (simp add: rl_def Let_def)
qed

end
