(* ===== verification/Metrics.thy ===== *)
theory Metrics
  imports Complex_Main Dns_Data
begin

text \<open>
  \<open>src/metrics.rs\<close>: the server's counters. A counter is a 64-bit word: \<open>fetch_add\<close> wraps. Each
  counter is changed by at most one atomic operation of a call, so that calls from several tasks
  add up whatever their order; the theorems show the counters to be functions of the recorded
  events. An \<open>f64\<close> is its exact value, without rounding, or one of the results of a division by
  zero. The summary in the log is the list of its lines, each with the values it prints.
\<close>

section \<open>State and operations\<close>

datatype protocol = Udp | Tcp

datatype f64 = Finite rat | Infinite | NaN

definition f64_div :: "nat \<Rightarrow> nat \<Rightarrow> f64" where
  "f64_div a b =
     (if b \<noteq> 0 then Finite (of_nat a / of_nat b) else if a = 0 then NaN else Infinite)"

record metrics =
  total_queries :: u64
  udp_queries :: u64
  tcp_queries :: u64
  edns_queries :: u64
  noerror_responses :: u64
  nxdomain_responses :: u64
  servfail_responses :: u64
  refused_responses :: u64
  formerr_responses :: u64
  query_types :: "(record_type, u64) hash_map"
  total_latency_us :: u64
  min_latency_us :: u64
  max_latency_us :: u64
  rate_limited :: u64
  errors :: u64
  tcp_connections :: u64
  tcp_queries_per_connection :: u64
  tcp_connection_timeouts :: u64
  start_time :: nat

definition metrics_new :: "nat \<Rightarrow> metrics" where
  "metrics_new now =
     \<lparr>total_queries = 0, udp_queries = 0, tcp_queries = 0, edns_queries = 0,
      noerror_responses = 0, nxdomain_responses = 0, servfail_responses = 0,
      refused_responses = 0, formerr_responses = 0, query_types = [],
      total_latency_us = 0, min_latency_us = - 1, max_latency_us = 0,
      rate_limited = 0, errors = 0, tcp_connections = 0, tcp_queries_per_connection = 0,
      tcp_connection_timeouts = 0, start_time = now\<rparr>"

definition record_tcp_connection :: "metrics \<Rightarrow> metrics" where
  "record_tcp_connection m = m\<lparr>tcp_connections := tcp_connections m + 1\<rparr>"

definition record_tcp_connection_closed :: "u64 \<Rightarrow> metrics \<Rightarrow> metrics" where
  "record_tcp_connection_closed queries_handled m =
     m\<lparr>tcp_queries_per_connection := tcp_queries_per_connection m + queries_handled\<rparr>"

definition record_tcp_connection_timeout :: "metrics \<Rightarrow> metrics" where
  "record_tcp_connection_timeout m = m\<lparr>tcp_connection_timeouts := tcp_connection_timeouts m + 1\<rparr>"

definition record_query :: "protocol \<Rightarrow> bool \<Rightarrow> metrics \<Rightarrow> metrics" where
  "record_query p edns m =
     (let m = m\<lparr>total_queries := total_queries m + 1\<rparr>;
          m = (case p of Udp \<Rightarrow> m\<lparr>udp_queries := udp_queries m + 1\<rparr>
                       | Tcp \<Rightarrow> m\<lparr>tcp_queries := tcp_queries m + 1\<rparr>)
      in if edns then m\<lparr>edns_queries := edns_queries m + 1\<rparr> else m)"

definition record_response :: "response_code \<Rightarrow> metrics \<Rightarrow> metrics" where
  "record_response rc m =
     (case rc of
        NoError \<Rightarrow> m\<lparr>noerror_responses := noerror_responses m + 1\<rparr>
      | NXDomain \<Rightarrow> m\<lparr>nxdomain_responses := nxdomain_responses m + 1\<rparr>
      | ServFail \<Rightarrow> m\<lparr>servfail_responses := servfail_responses m + 1\<rparr>
      | Refused \<Rightarrow> m\<lparr>refused_responses := refused_responses m + 1\<rparr>
      | FormErr \<Rightarrow> m\<lparr>formerr_responses := formerr_responses m + 1\<rparr>
      | _ \<Rightarrow> m)"

text \<open>
  The counters by type are plain integers under a lock, not atomics: \<open>+= 1\<close> wraps in a release build,
  which is what is modelled; a build with overflow checks would panic after \<open>2 ^ 64 - 1\<close> queries of a
  type.
\<close>

definition record_query_type :: "record_type \<Rightarrow> metrics \<Rightarrow> metrics" where
  "record_query_type qtype m =
     m\<lparr>query_types := hm_upsert (\<lambda>t. t) (query_types m) qtype 0 (\<lambda>n. n + 1)\<rparr>"

text \<open>\<open>latency.as_micros() as u64\<close> of a duration in nanoseconds.\<close>

definition as_micros :: "nat \<Rightarrow> u64" where
  "as_micros latency = of_nat (latency div 1000)"

definition record_latency :: "nat \<Rightarrow> metrics \<Rightarrow> metrics" where
  "record_latency latency m =
     (let latency_us = as_micros latency in
      m\<lparr>total_latency_us := total_latency_us m + latency_us,
        min_latency_us := min (min_latency_us m) latency_us,
        max_latency_us := max (max_latency_us m) latency_us\<rparr>)"

definition record_rate_limited :: "metrics \<Rightarrow> metrics" where
  "record_rate_limited m = m\<lparr>rate_limited := rate_limited m + 1\<rparr>"

definition record_error :: "metrics \<Rightarrow> metrics" where
  "record_error m = m\<lparr>errors := errors m + 1\<rparr>"

record metrics_snapshot =
  snap_total_queries :: u64
  snap_udp_queries :: u64
  snap_tcp_queries :: u64
  snap_edns_queries :: u64
  snap_noerror_responses :: u64
  snap_nxdomain_responses :: u64
  snap_servfail_responses :: u64
  snap_refused_responses :: u64
  snap_formerr_responses :: u64
  snap_query_types :: "(record_type, u64) hash_map"
  snap_avg_latency_us :: u64
  snap_min_latency_us :: u64
  snap_max_latency_us :: u64
  snap_rate_limited :: u64
  snap_errors :: u64
  snap_tcp_connections :: u64
  snap_avg_queries_per_connection :: f64
  snap_tcp_connection_timeouts :: u64
  snap_uptime :: nat

definition get_snapshot :: "nat \<Rightarrow> metrics \<Rightarrow> metrics_snapshot" where
  "get_snapshot now m =
     (let total = total_queries m;
          total_latency = total_latency_us m;
          avg = (if 0 < total then total_latency div total else 0);
          min_latency = min_latency_us m;
          tcp_conn = tcp_connections m;
          tcp_total = tcp_queries_per_connection m
      in \<lparr>snap_total_queries = total, snap_udp_queries = udp_queries m,
          snap_tcp_queries = tcp_queries m, snap_edns_queries = edns_queries m,
          snap_noerror_responses = noerror_responses m,
          snap_nxdomain_responses = nxdomain_responses m,
          snap_servfail_responses = servfail_responses m,
          snap_refused_responses = refused_responses m,
          snap_formerr_responses = formerr_responses m,
          snap_query_types = query_types m,
          snap_avg_latency_us = avg,
          snap_min_latency_us = (if min_latency = - 1 then 0 else min_latency),
          snap_max_latency_us = max_latency_us m,
          snap_rate_limited = rate_limited m, snap_errors = errors m,
          snap_tcp_connections = tcp_conn,
          snap_avg_queries_per_connection =
            (if 0 < tcp_conn then f64_div (unat tcp_total) (unat tcp_conn) else Finite 0),
          snap_tcp_connection_timeouts = tcp_connection_timeouts m,
          snap_uptime = now - start_time m\<rparr>)"

text \<open>The lines of the summary. \<open>types.sort_by\<close> is stable.\<close>

datatype log_line =
    Log_title
  | Log_uptime nat
  | Log_total u64
  | Log_protocol u64 u64 u64
  | Log_responses u64 u64 u64 u64 u64
  | Log_query_types
  | Log_query_type record_type u64
  | Log_performance f64 f64 f64 f64
  | Log_rate_limited u64
  | Log_errors u64
  | Log_tcp u64 f64 u64

definition snapshot_log :: "metrics_snapshot \<Rightarrow> log_line list" where
  "snapshot_log s =
     [Log_title, Log_uptime (snap_uptime s), Log_total (snap_total_queries s),
      Log_protocol (snap_udp_queries s) (snap_tcp_queries s) (snap_edns_queries s),
      Log_responses (snap_noerror_responses s) (snap_nxdomain_responses s)
        (snap_servfail_responses s) (snap_refused_responses s) (snap_formerr_responses s)] @
     (if snap_query_types s \<noteq> [] then
        Log_query_types #
        map (\<lambda>(qtype, count). Log_query_type qtype count)
          (take 10 (sort_by (\<lambda>a b. snd b \<le> snd a) (snap_query_types s)))
      else []) @
     (if 0 < snap_total_queries s then
        [Log_performance (f64_div (unat (snap_avg_latency_us s)) 1000)
           (f64_div (unat (snap_min_latency_us s)) 1000)
           (f64_div (unat (snap_max_latency_us s)) 1000)
           (f64_div (unat (snap_total_queries s) * 1000000000) (snap_uptime s))]
      else []) @
     (if 0 < snap_rate_limited s then [Log_rate_limited (snap_rate_limited s)] else []) @
     (if 0 < snap_errors s then [Log_errors (snap_errors s)] else []) @
     (if 0 < snap_tcp_connections s then
        [Log_tcp (snap_tcp_connections s) (snap_avg_queries_per_connection s)
           (snap_tcp_connection_timeouts s)]
      else [])"

definition log_summary :: "nat \<Rightarrow> metrics \<Rightarrow> log_line list" where
  "log_summary now m = snapshot_log (get_snapshot now m)"

section \<open>The counters as functions of the recorded events\<close>

datatype metrics_event =
    Ev_tcp_connection
  | Ev_tcp_closed u64
  | Ev_tcp_timeout
  | Ev_query protocol bool
  | Ev_response response_code
  | Ev_query_type record_type
  | Ev_latency nat
  | Ev_rate_limited
  | Ev_error

fun apply_event :: "metrics_event \<Rightarrow> metrics \<Rightarrow> metrics" where
  "apply_event Ev_tcp_connection = record_tcp_connection"
| "apply_event (Ev_tcp_closed n) = record_tcp_connection_closed n"
| "apply_event Ev_tcp_timeout = record_tcp_connection_timeout"
| "apply_event (Ev_query p e) = record_query p e"
| "apply_event (Ev_response rc) = record_response rc"
| "apply_event (Ev_query_type t) = record_query_type t"
| "apply_event (Ev_latency d) = record_latency d"
| "apply_event Ev_rate_limited = record_rate_limited"
| "apply_event Ev_error = record_error"

abbreviation record_all :: "metrics_event list \<Rightarrow> metrics \<Rightarrow> metrics" where
  "record_all es m \<equiv> fold apply_event es m"

definition count_events :: "(metrics_event \<Rightarrow> bool) \<Rightarrow> metrics_event list \<Rightarrow> nat" where
  "count_events P es = length (filter P es)"

lemma count_events_simps [simp]:
  "count_events P [] = 0"
  "count_events P (e # es) = (if P e then Suc (count_events P es) else count_events P es)"
  by (simp_all add: count_events_def)

lemma count_events_mset: "mset es = mset es' \<Longrightarrow> count_events P es = count_events P es'"
  unfolding count_events_def by (metis mset_filter size_mset)

fun event_latency :: "metrics_event \<Rightarrow> u64 list" where
  "event_latency (Ev_latency d) = [as_micros d]"
| "event_latency _ = []"

definition latencies :: "metrics_event list \<Rightarrow> u64 list" where
  "latencies es = concat (map event_latency es)"

fun event_closed :: "metrics_event \<Rightarrow> u64" where
  "event_closed (Ev_tcp_closed n) = n"
| "event_closed _ = 0"

lemmas record_defs =
  record_tcp_connection_def record_tcp_connection_closed_def record_tcp_connection_timeout_def
  record_query_def record_response_def record_query_type_def record_latency_def
  record_rate_limited_def record_error_def

text \<open>Each counter is its start value and one per event that concerns it.\<close>

lemma counter_fold:
  assumes "\<And>e m. f (apply_event e m) = f m + (if P e then 1 else (0 :: u64))"
  shows "f (record_all es m) = f m + of_nat (count_events P es)"
  by (induction es arbitrary: m) (auto simp: assms ac_simps)

lemma query_counters:
  "total_queries (record_all es m) = total_queries m + of_nat (count_events (\<lambda>e. \<exists>p d. e = Ev_query p d) es)"
  "udp_queries (record_all es m) = udp_queries m + of_nat (count_events (\<lambda>e. \<exists>d. e = Ev_query Udp d) es)"
  "tcp_queries (record_all es m) = tcp_queries m + of_nat (count_events (\<lambda>e. \<exists>d. e = Ev_query Tcp d) es)"
  "edns_queries (record_all es m) = edns_queries m + of_nat (count_events (\<lambda>e. \<exists>p. e = Ev_query p True) es)"
  "rate_limited (record_all es m) = rate_limited m + of_nat (count_events (\<lambda>e. e = Ev_rate_limited) es)"
  "errors (record_all es m) = errors m + of_nat (count_events (\<lambda>e. e = Ev_error) es)"
  "tcp_connections (record_all es m) = tcp_connections m + of_nat (count_events (\<lambda>e. e = Ev_tcp_connection) es)"
  "tcp_connection_timeouts (record_all es m) =
     tcp_connection_timeouts m + of_nat (count_events (\<lambda>e. e = Ev_tcp_timeout) es)"
  by (rule counter_fold, case_tac e; auto simp: record_defs Let_def split: protocol.split response_code.split)+

text \<open>The response counter of a code, if it has one.\<close>

fun response_counter :: "response_code \<Rightarrow> (metrics \<Rightarrow> u64) option" where
  "response_counter NoError = Some noerror_responses"
| "response_counter NXDomain = Some nxdomain_responses"
| "response_counter ServFail = Some servfail_responses"
| "response_counter Refused = Some refused_responses"
| "response_counter FormErr = Some formerr_responses"
| "response_counter _ = None"

lemma response_counters:
  "response_counter rc = Some f \<Longrightarrow>
     f (record_all es m) = f m + of_nat (count_events (\<lambda>e. e = Ev_response rc) es)"
proof (rule counter_fold)
  fix e m assume f: "response_counter rc = Some f"
  show "f (apply_event e m) = f m + (if e = Ev_response rc then 1 else 0)"
    by (cases rc; cases e; use f in \<open>auto simp: record_defs Let_def split: protocol.split response_code.split\<close>)
qed

lemma query_type_counter:
  "(case hm_get (\<lambda>t. t) (query_types (record_all es m)) t of Some n \<Rightarrow> n | None \<Rightarrow> 0) =
     (case hm_get (\<lambda>t. t) (query_types m) t of Some n \<Rightarrow> n | None \<Rightarrow> 0) +
     of_nat (count_events (\<lambda>e. e = Ev_query_type t) es)"
proof (rule counter_fold)
  fix e m
  show "(case hm_get (\<lambda>t. t) (query_types (apply_event e m)) t of Some n \<Rightarrow> n | None \<Rightarrow> 0) =
      (case hm_get (\<lambda>t. t) (query_types m) t of Some n \<Rightarrow> n | None \<Rightarrow> 0) +
      (if e = Ev_query_type t then 1 else 0)"
    by (cases e) (auto simp: record_defs Let_def hm_simps split: protocol.split response_code.split option.split)
qed

lemma latency_step:
  "total_latency_us (apply_event e m) = total_latency_us m + sum_list (event_latency e)"
  "min_latency_us (apply_event e m) = fold min (event_latency e) (min_latency_us m)"
  "max_latency_us (apply_event e m) = fold max (event_latency e) (max_latency_us m)"
  "tcp_queries_per_connection (apply_event e m) = tcp_queries_per_connection m + event_closed e"
  by (cases e; simp add: record_defs Let_def min.commute max.commute split: protocol.split response_code.split)+

lemma latency_fold:
  "total_latency_us (record_all es m) = total_latency_us m + sum_list (latencies es)"
  "min_latency_us (record_all es m) = fold min (latencies es) (min_latency_us m)"
  "max_latency_us (record_all es m) = fold max (latencies es) (max_latency_us m)"
  "tcp_queries_per_connection (record_all es m) =
     tcp_queries_per_connection m + sum_list (map event_closed es)"
  by (induction es arbitrary: m) (simp_all add: latencies_def latency_step add.assoc)

lemma fold_perm:
  assumes "mset xs = mset ys" and "\<And>a b c. f a (f b c) = f b (f a c)"
  shows "fold f xs z = fold f ys z"
  using fold_multiset_equiv [of xs f ys] assms by (auto simp: fun_eq_iff)

lemma latencies_perm: "mset es = mset es' \<Longrightarrow> mset (latencies es) = mset (latencies es')"
proof -
  have "mset (latencies es) = (\<Sum>e \<in># mset es. mset (event_latency e))" for es
    unfolding latencies_def by (induction es) auto
  then show "mset es = mset es' \<Longrightarrow> ?thesis" by simp
qed

lemma sum_list_perm: "mset xs = mset ys \<Longrightarrow> sum_list xs = sum_list ys" for xs :: "u64 list"
  by (metis sum_mset_sum_list)

lemma count_split:
  "count_events (\<lambda>e. \<exists>p d. e = Ev_query p d) es =
     count_events (\<lambda>e. \<exists>d. e = Ev_query Udp d) es + count_events (\<lambda>e. \<exists>d. e = Ev_query Tcp d) es"
  by (induction es) (auto intro: protocol.exhaust)

text \<open>Bounds of the extremes and of the sum of a list of latencies.\<close>

lemma fold_max_upper: "x \<in> set xs \<Longrightarrow> x \<le> fold max xs (z :: u64)" "z \<le> fold max xs (z :: u64)"
proof -
  have "z \<le> fold max xs z" for xs and z :: u64
    by (induction xs arbitrary: z) (auto intro: order_trans [OF max.cobounded2])
  then show "z \<le> fold max xs z" .
  show "x \<in> set xs \<Longrightarrow> x \<le> fold max xs (z :: u64)"
    using \<open>\<And>xs z. z \<le> fold max xs (z :: u64)\<close>
    by (induction xs arbitrary: z) (auto intro: order_trans [OF max.cobounded1])
qed

lemma fold_min_lower: "x \<in> set xs \<Longrightarrow> fold min xs (z :: u64) \<le> x"
proof -
  have le: "fold min xs z \<le> z" for xs and z :: u64
    by (induction xs arbitrary: z) (auto intro: order_trans [OF _ min.cobounded2])
  then show "x \<in> set xs \<Longrightarrow> fold min xs z \<le> x"
    by (induction xs arbitrary: z) (auto intro: order_trans [OF _ min.cobounded1])
qed

lemma sum_list_unat_le: "(\<And>x. x \<in> set xs \<Longrightarrow> x \<le> m) \<Longrightarrow> sum_list (map unat xs) \<le> length xs * unat (m :: u64)"
proof (induction xs)
  case (Cons x xs)
  then have "unat x \<le> unat m" by (simp add: word_le_nat_alt)
  with Cons show ?case by simp
qed simp

lemma unat_sum_list: "sum_list (map unat xs) < 2 ^ 64 \<Longrightarrow> unat (sum_list xs) = sum_list (map unat xs)"
  for xs :: "u64 list"
  by (induction xs) (auto simp: unat_word_ariths)

section \<open>Properties\<close>

text \<open>
  C25. The counters count. After any sequence of recorded events, every counter is the number of the
  events that concern it (modulo \<open>2 ^ 64\<close>): queries by protocol and with EDNS, responses by code,
  queries by type, rate-limited queries, errors, connections and timeouts; the total number of
  queries is the sum of those over UDP and TCP.
\<close>

theorem metrics_count_events:
  "let m = record_all es (metrics_new t0); n = (\<lambda>P. of_nat (count_events P es)) in
   total_queries m = n (\<lambda>e. \<exists>p d. e = Ev_query p d) \<and>
   total_queries m = udp_queries m + tcp_queries m \<and>
   udp_queries m = n (\<lambda>e. \<exists>d. e = Ev_query Udp d) \<and>
   edns_queries m = n (\<lambda>e. \<exists>p. e = Ev_query p True) \<and>
   noerror_responses m = n (\<lambda>e. e = Ev_response NoError) \<and>
   nxdomain_responses m = n (\<lambda>e. e = Ev_response NXDomain) \<and>
   servfail_responses m = n (\<lambda>e. e = Ev_response ServFail) \<and>
   refused_responses m = n (\<lambda>e. e = Ev_response Refused) \<and>
   formerr_responses m = n (\<lambda>e. e = Ev_response FormErr) \<and>
   (case hm_get (\<lambda>t. t) (query_types m) t of Some c \<Rightarrow> c | None \<Rightarrow> 0) = n (\<lambda>e. e = Ev_query_type t) \<and>
   rate_limited m = n (\<lambda>e. e = Ev_rate_limited) \<and>
   errors m = n (\<lambda>e. e = Ev_error) \<and>
   tcp_connections m = n (\<lambda>e. e = Ev_tcp_connection) \<and>
   tcp_connection_timeouts m = n (\<lambda>e. e = Ev_tcp_timeout)"
  using count_split [of es]
  by (simp add: Let_def query_counters query_type_counter response_counters [of NoError]
      response_counters [of NXDomain] response_counters [of ServFail] response_counters [of Refused]
      response_counters [of FormErr]) (simp add: metrics_new_def)

text \<open>
  Recording is independent of order: two interleavings of the same events leave the same
  counters, the same latency statistics and the same count for every query type.
\<close>

theorem metrics_order_independent:
  assumes "mset es = mset es'"
  shows "(record_all es m)\<lparr>query_types := []\<rparr> = (record_all es' m)\<lparr>query_types := []\<rparr> \<and>
    (case hm_get (\<lambda>t. t) (query_types (record_all es m)) t of Some c \<Rightarrow> c | None \<Rightarrow> 0) =
    (case hm_get (\<lambda>t. t) (query_types (record_all es' m)) t of Some c \<Rightarrow> c | None \<Rightarrow> 0)"
proof -
  note eq = count_events_mset [OF assms] latencies_perm [OF assms]
  have st: "start_time (record_all xs m) = start_time m" for xs
  proof (induction xs arbitrary: m)
    case (Cons e xs)
    have "start_time (apply_event e m) = start_time m"
      by (cases e) (auto simp: record_defs Let_def split: protocol.split response_code.split)
    with Cons show ?case by simp
  qed simp
  have "fold min (latencies es) (min_latency_us m) = fold min (latencies es') (min_latency_us m)"
    "fold max (latencies es) (max_latency_us m) = fold max (latencies es') (max_latency_us m)"
    by (rule fold_perm [OF eq(2)], simp add: min.left_commute max.left_commute)+
  moreover have "sum_list (map event_closed es) = sum_list (map event_closed es')"
    by (rule sum_list_perm) (use assms in simp)
  ultimately show ?thesis
    by (auto simp: query_counters query_type_counter latency_fold st eq(1) sum_list_perm [OF eq(2)]
        response_counters [of NoError] response_counters [of NXDomain] response_counters [of ServFail]
        response_counters [of Refused] response_counters [of FormErr] intro!: metrics.equality)
qed

theorem metrics_order_independent_witness:
  "(record_all [Ev_latency 3000, Ev_query Udp True, Ev_latency 9000] (metrics_new 0))\<lparr>query_types := []\<rparr> =
   (record_all [Ev_query Udp True, Ev_latency 9000, Ev_latency 3000] (metrics_new 0))\<lparr>query_types := []\<rparr>"
  using metrics_order_independent
    [of "[Ev_latency 3000, Ev_query Udp True, Ev_latency 9000]"
        "[Ev_query Udp True, Ev_latency 9000, Ev_latency 3000]" "metrics_new 0" RT_A]
  by simp

text \<open>
  C36. The latency statistics of a snapshot. The minimum never exceeds the maximum, whatever was
  recorded. The average does not either as long as at most one latency is recorded per query and the
  sums fit in 64 bits; packets that cannot be parsed have a latency and are no queries, so that enough of
  them break this condition.
\<close>

theorem snapshot_latency:
  "let s = get_snapshot now (record_all es (metrics_new t0));
       queries = count_events (\<lambda>e. \<exists>p d. e = Ev_query p d) es in
    snap_min_latency_us s \<le> snap_max_latency_us s \<and>
    (length (latencies es) \<le> queries \<and> sum_list (map unat (latencies es)) < 2 ^ 64 \<and> queries < 2 ^ 64 \<longrightarrow>
      snap_avg_latency_us s \<le> snap_max_latency_us s)"
proof -
  let ?m = "record_all es (metrics_new t0)" and ?xs = "latencies es"
  let ?n = "count_events (\<lambda>e. \<exists>p d. e = Ev_query p d) es"
  have max: "x \<le> max_latency_us ?m" if "x \<in> set ?xs" for x
    using fold_max_upper(1) [OF that] by (simp add: latency_fold)
  have avg: "total_latency_us ?m div total_queries ?m \<le> max_latency_us ?m"
    if one: "length ?xs \<le> ?n" and fit: "sum_list (map unat ?xs) < 2 ^ 64" "?n < 2 ^ 64"
  proof -
    have total: "unat (total_queries ?m) = ?n"
      using fit(2) by (simp add: query_counters metrics_new_def unat_of_nat)
    have sum: "unat (total_latency_us ?m) = sum_list (map unat ?xs)"
      using unat_sum_list [OF fit(1)] by (simp add: latency_fold metrics_new_def)
    have "sum_list (map unat ?xs) \<le> length ?xs * unat (max_latency_us ?m)"
      by (rule sum_list_unat_le) (rule max)
    also have "\<dots> \<le> ?n * unat (max_latency_us ?m)" using one by simp
    finally have "unat (total_latency_us ?m) div unat (total_queries ?m) \<le> unat (max_latency_us ?m)"
      unfolding total sum by (cases "?n = 0") (simp_all add: div_le_mono [THEN order_trans] less_mult_imp_div_less)
    then show ?thesis by (simp add: word_le_nat_alt unat_div)
  qed
  have "(if min_latency_us ?m = - 1 then 0 else min_latency_us ?m) \<le> max_latency_us ?m"
  proof (cases ?xs)
    case Nil
    then show ?thesis by (simp add: latency_fold metrics_new_def)
  next
    case (Cons x xs)
    then have x: "x \<in> set ?xs" by simp
    from fold_min_lower [OF this] have "min_latency_us ?m \<le> x" by (simp add: latency_fold)
    with max [OF x] show ?thesis by auto
  qed
  with avg show ?thesis by (simp add: get_snapshot_def Let_def)
qed

theorem snapshot_latency_witness:
  "let s = get_snapshot 9 (record_all [Ev_query Udp False, Ev_latency 3000, Ev_query Tcp True, Ev_latency 9000]
       (metrics_new 0)) in
    snap_min_latency_us s \<le> snap_max_latency_us s \<and> snap_avg_latency_us s \<le> snap_max_latency_us s"
  using snapshot_latency [of 9 "[Ev_query Udp False, Ev_latency 3000, Ev_query Tcp True, Ev_latency 9000]" 0]
  by (simp add: latencies_def as_micros_def ex_bool_eq Let_def)

end
