(* ===== verification/Dnssec.thy ===== *)
theory Dnssec
  imports Sample
begin

text \<open>
  \<open>src/dnssec.rs\<close>: key tags, DS digests, signature lifetimes, NSEC denial and the search for the
  DNSSEC records of a record set. An \<open>anyhow\<close> error is a value of \<open>dnssec_error\<close>, one
  constructor for each message.
\<close>

section \<open>Operations\<close>

record dnssec_config =
  validate_signatures :: bool
  require_dnssec :: bool
  auto_include_dnssec :: bool

definition dnssec_config_default :: dnssec_config where
  "dnssec_config_default =
     \<lparr>validate_signatures = False, require_dnssec = False, auto_include_dnssec = True\<rparr>"

datatype dnssec_error =
    Invalid_DS
  | Invalid_DNSKEY
  | Algorithm_mismatch algorithm algorithm
  | Key_tag_mismatch u16 u16
  | Owner_name_encoding
  | Unsupported_digest digest_type
  | Digest_mismatch bytes bytes
  | Invalid_RRSIG
  | Clock_before_epoch
  | Not_yet_valid u32 u32
  | Expired u32 u32
  | No_NSEC_proof

text \<open>The DNSKEY data in wire format, as both the key tag and the digest use it.\<close>

definition dnskey_wire :: "'n hickory \<Rightarrow> bool \<Rightarrow> bool \<Rightarrow> bool \<Rightarrow> algorithm \<Rightarrow> bytes \<Rightarrow> bytes" where
  "dnskey_wire H zone_key sep revoke alg public_key =
     to_be_bytes (dnskey_flags H zone_key sep revoke) @ [3] @ [algorithm_to_u8 H alg] @ public_key"

text \<open>
  The loop over the bytes with its index and the accumulator \<open>ac\<close>, whose additions wrap (a build
  with overflow checks panics instead; \<open>key_tag_loop_exact\<close> excludes both).
\<close>

fun key_tag_loop :: "nat \<Rightarrow> bytes \<Rightarrow> u32 \<Rightarrow> u32" where
  "key_tag_loop i [] ac = ac"
| "key_tag_loop i (byte # rest) ac =
     key_tag_loop (Suc i) rest
       (if i mod 2 = 0 then ac + push_bit 8 (ucast byte) else ac + ucast byte)"

definition compute_key_tag :: "'n hickory \<Rightarrow> 'n rr \<Rightarrow> dnssec_error + u16" where
  "compute_key_tag H dnskey =
     (case rr_data dnskey of
        Some (RD_DNSSEC (DNSKEY zone_key sep revoke alg public_key)) \<Rightarrow>
          (let rdata = dnskey_wire H zone_key sep revoke alg public_key;
               ac = key_tag_loop 0 rdata 0;
               ac = ac + and (drop_bit 16 ac) 0xFFFF
           in Inr (ucast (and ac 0xFFFF)))
      | _ \<Rightarrow> Inl Invalid_DNSKEY)"

definition ds_digest :: "codecs \<Rightarrow> digest_type \<Rightarrow> bytes \<Rightarrow> dnssec_error + bytes" where
  "ds_digest C dt digest_input =
     (case dt of
        SHA256 \<Rightarrow> Inr (sha256 C digest_input)
      | SHA384 \<Rightarrow> Inr (sha384 C digest_input)
      | SHA512 \<Rightarrow> Inr (sha512 C digest_input)
      | _ \<Rightarrow> Inl (Unsupported_digest dt))"

definition verify_ds :: "'n hickory \<Rightarrow> codecs \<Rightarrow> 'n rr \<Rightarrow> 'n rr \<Rightarrow> dnssec_error + unit" where
  "verify_ds H C ds dnskey =
     (case rr_data ds of
        Some (RD_DNSSEC (DS key_tag ds_alg digest_type digest)) \<Rightarrow>
          (case rr_data dnskey of
             Some (RD_DNSSEC (DNSKEY zone_key sep revoke alg public_key)) \<Rightarrow>
               if ds_alg \<noteq> alg then Inl (Algorithm_mismatch ds_alg alg)
               else
                 and_then (compute_key_tag H dnskey) (\<lambda>computed_key_tag.
                 if key_tag \<noteq> computed_key_tag then Inl (Key_tag_mismatch key_tag computed_key_tag)
                 else
                   and_then (ok_or Owner_name_encoding
                     (name_to_bytes H (name_to_lowercase H (rr_name dnskey)))) (\<lambda>owner_name_wire.
                   and_then (ds_digest C digest_type
                     (owner_name_wire @ dnskey_wire H zone_key sep revoke alg public_key)) (\<lambda>computed_digest.
                   if computed_digest \<noteq> digest then Inl (Digest_mismatch computed_digest digest)
                   else Inr ())))
           | _ \<Rightarrow> Inl Invalid_DNSKEY)
      | _ \<Rightarrow> Inl Invalid_DS)"

text \<open>The clock: seconds since the epoch, or \<open>None\<close> before it.\<close>

definition check_signature_validity :: "nat option \<Rightarrow> 'n rr \<Rightarrow> dnssec_error + unit" where
  "check_signature_validity clock rrsig =
     (case rr_data rrsig of
        Some (RD_DNSSEC (SIG _ _ _ _ sig_expiration sig_inception _ _ _)) \<Rightarrow>
          (case clock of
             None \<Rightarrow> Inl Clock_before_epoch
           | Some secs \<Rightarrow>
               (let now = of_nat secs :: u32 in
                if now < sig_inception then Inl (Not_yet_valid sig_inception now)
                else if sig_expiration < now then Inl (Expired sig_expiration now)
                else Inr ()))
      | _ \<Rightarrow> Inl Invalid_RRSIG)"

fun validate_nsec_denial :: "'n hickory \<Rightarrow> 'n \<Rightarrow> record_type \<Rightarrow> 'n rr list \<Rightarrow> dnssec_error + unit" where
  "validate_nsec_denial H query_name query_type [] = Inl No_NSEC_proof"
| "validate_nsec_denial H query_name query_type (nsec # rest) =
     (case rr_data nsec of
        Some (RD_DNSSEC (NSEC next_name types)) \<Rightarrow>
          (let owner_name = rr_name nsec;
               covers_name =
                 (if name_lt H owner_name next_name
                  then name_lt H owner_name query_name \<and> name_lt H query_name next_name
                  else name_lt H owner_name query_name \<or> name_lt H query_name next_name)
           in if covers_name then Inr ()
              else if name_eq H query_name owner_name \<and> query_type \<notin> set types then Inr ()
              else validate_nsec_denial H query_name query_type rest)
      | _ \<Rightarrow> validate_nsec_denial H query_name query_type rest)"

definition find_related_dnssec_records ::
  "'n hickory \<Rightarrow> 'n rr list \<Rightarrow> 'n \<Rightarrow> record_type \<Rightarrow> 'n rr list" where
  "find_related_dnssec_records H records name rtype =
     filter (\<lambda>r. case rr_data r of
                   Some (RD_DNSSEC (SIG covered _ _ _ _ _ _ _ _)) \<Rightarrow> name_eq H (rr_name r) name \<and> covered = rtype
                 | _ \<Rightarrow> False) records @
     filter (\<lambda>r. case rr_data r of Some (RD_DNSSEC (DNSKEY _ _ _ _ _)) \<Rightarrow> True | _ \<Rightarrow> False) records"

section \<open>Key tags\<close>

fun byte_sum :: "nat \<Rightarrow> bytes \<Rightarrow> nat" where
  "byte_sum i [] = 0"
| "byte_sum i (b # bs) = (if even i then 256 else 1) * unat b + byte_sum (Suc i) bs"

lemma unat_byte: "unat (b :: u8) < 256"
  by (rule order_less_le_trans [OF unsigned_less]) simp

lemma byte_sum_bound: "byte_sum i bs \<le> length bs * 65280"
proof (induction bs arbitrary: i)
  case (Cons b bs)
  have "unat b \<le> 255" using unat_byte [of b] by simp
  with Cons [of "Suc i"] show ?case by auto
qed simp

lemma byte_sum_index: "byte_sum k bs = (\<Sum>i<length bs. (if even (k + i) then 256 else 1) * unat (bs ! i))"
proof (induction bs arbitrary: k)
  case (Cons b bs)
  have "byte_sum (Suc k) bs = (\<Sum>i<length bs. (if even (k + Suc i) then 256 else 1) * unat (bs ! i))"
    unfolding Cons.IH by (rule sum.cong) simp_all
  then show ?case unfolding length_Cons sum.lessThan_Suc_shift byte_sum.simps by simp
qed simp

lemma unat_add_small: "unat x + unat y < 2 ^ 32 \<Longrightarrow> unat (x + y) = unat x + unat y" for x y :: u32
  by (simp add: unat_word_ariths)

lemma unat_shift8: "unat (push_bit 8 (ucast b) :: u32) = 256 * unat (b :: u8)"
proof -
  have "unat b < 256" by (rule unat_byte)
  then show ?thesis by (simp add: push_bit_eq_mult unat_word_ariths unsigned_ucast_eq take_bit_eq_mod)
qed

lemma unat_ucast_byte: "unat (ucast b :: u32) = unat (b :: u8)"
proof -
  have "unat b < 256" by (rule unat_byte)
  then show ?thesis by (simp add: unsigned_ucast_eq take_bit_eq_mod)
qed

text \<open>No addition of the loop overflows.\<close>

lemma key_tag_loop_exact:
  "unat ac + byte_sum i bs < 2 ^ 32 \<Longrightarrow> unat (key_tag_loop i bs ac) = unat ac + byte_sum i bs"
proof (induction i bs ac rule: key_tag_loop.induct)
  case (2 i b bs ac)
  let ?x = "if i mod 2 = 0 then push_bit 8 (ucast b) else ucast b :: u32"
  have x: "unat ?x = (if even i then 256 else 1) * unat b"
    by (simp add: unat_shift8 unat_ucast_byte even_iff_mod_2_eq_zero)
  have eq: "(if i mod 2 = 0 then ac + push_bit 8 (ucast b) else ac + ucast b) = ac + ?x" by simp
  have sum: "unat (ac + ?x) = unat ac + unat ?x"
    using "2.prems" x by (intro unat_add_small) simp
  show ?case using "2.IH" "2.prems" unfolding key_tag_loop.simps eq sum x by simp
qed simp

definition key_tag_spec :: "bytes \<Rightarrow> nat" where
  "key_tag_spec rdata =
     (let s = \<Sum>i<length rdata. (if even i then 256 else 1) * unat (rdata ! i)
      in (s + s div 2 ^ 16 mod 2 ^ 16) mod 2 ^ 16)"

lemma key_tag_fold:
  fixes ac :: u32
  assumes "unat ac \<le> 65535 * 65280"
  shows "unat (ucast (and (ac + and (drop_bit 16 ac) 0xFFFF) 0xFFFF) :: u16) =
    (unat ac + unat ac div 2 ^ 16 mod 2 ^ 16) mod 2 ^ 16"
proof -
  have mask: "unat (and x 0xFFFF) = unat x mod 2 ^ 16" for x :: u32
  proof -
    have "and x 0xFFFF = take_bit 16 x" by (simp add: take_bit_eq_mask mask_eq_exp_minus_1)
    then show ?thesis unfolding take_bit_eq_mod [symmetric] by (simp only: unsigned_take_bit_eq)
  qed
  have hi: "unat (and (drop_bit 16 ac) 0xFFFF) = unat ac div 2 ^ 16 mod 2 ^ 16"
    by (simp add: mask drop_bit_eq_div unat_div)
  have "unat (ac + and (drop_bit 16 ac) 0xFFFF) = unat ac + unat ac div 2 ^ 16 mod 2 ^ 16"
    using assms mod_less_divisor [of "2 ^ 16" "unat ac div 2 ^ 16"] by (subst unat_add_small) (simp_all add: hi)
  then show ?thesis by (simp add: unsigned_ucast_eq take_bit_eq_mod mask)
qed


section \<open>Denial of existence\<close>

text \<open>One NSEC record proves that a name has no records of a type.\<close>

definition nsec_proves :: "'n hickory \<Rightarrow> 'n \<Rightarrow> record_type \<Rightarrow> 'n \<Rightarrow> 'n \<Rightarrow> record_type list \<Rightarrow> bool" where
  "nsec_proves H q t owner next_name types \<longleftrightarrow>
     (if name_lt H owner next_name then name_lt H owner q \<and> name_lt H q next_name
      else name_lt H owner q \<or> name_lt H q next_name) \<or>
     name_eq H q owner \<and> t \<notin> set types"

lemma validate_nsec_iff:
  "validate_nsec_denial H q t rs = Inr () \<longleftrightarrow>
     (\<exists>r \<in> set rs. \<exists>nx ts. rr_data r = Some (RD_DNSSEC (NSEC nx ts)) \<and> nsec_proves H q t (rr_name r) nx ts)"
proof (induction rs)
  case (Cons r rs)
  show ?case
  proof (cases "\<exists>nx ts. rr_data r = Some (RD_DNSSEC (NSEC nx ts))")
    case True
    then obtain nx ts where r: "rr_data r = Some (RD_DNSSEC (NSEC nx ts))" by blast
    then have "validate_nsec_denial H q t (r # rs) =
        (if nsec_proves H q t (rr_name r) nx ts then Inr () else validate_nsec_denial H q t rs)"
      by (auto simp: Let_def nsec_proves_def)
    with Cons r show ?thesis by simp
  next
    case False
    then have "validate_nsec_denial H q t (r # rs) = validate_nsec_denial H q t rs"
      by (simp split: option.split rdata.split dnssec_rdata.split)
    with Cons False show ?thesis by auto
  qed
qed simp

text \<open>The NSEC chain of a zone: each name points to the next, the last to the first.\<close>

definition nsec_chain :: "'n hickory \<Rightarrow> u32 \<Rightarrow> ('n \<times> record_type list) list \<Rightarrow> 'n rr list" where
  "nsec_chain H ttl names =
     map2 (\<lambda>(n, ts) (nx, _). from_rdata H n ttl (RD_DNSSEC (NSEC nx ts))) names (rotate1 names)"

lemma chain_proof_iff:
  "validate_nsec_denial H q t (nsec_chain H ttl names) = Inr () \<longleftrightarrow>
     (\<exists>i < length names. nsec_proves H q t (fst (names ! i)) (fst (names ! (Suc i mod length names)))
        (snd (names ! i)))"
proof -
  have "nsec_chain H ttl names =
      map (\<lambda>i. from_rdata H (fst (names ! i)) ttl
         (RD_DNSSEC (NSEC (fst (names ! (Suc i mod length names))) (snd (names ! i))))) [0..<length names]"
    by (rule nth_equalityI) (simp_all add: nsec_chain_def nth_rotate1 case_prod_beta)
  then show ?thesis by (auto simp: validate_nsec_iff)
qed

text \<open>Facts of the canonical order.\<close>

lemma name_order_facts:
  assumes "name_order H"
  shows "\<not> name_lt H a a" and "name_lt H a b \<Longrightarrow> \<not> name_lt H b a"
    and "name_lt H a b \<Longrightarrow> name_lt H b c \<Longrightarrow> name_lt H a c"
    and "\<not> name_eq H a b \<Longrightarrow> name_lt H a b \<or> name_lt H b a"
    and "name_eq H a b \<Longrightarrow> name_lt H c a \<longleftrightarrow> name_lt H c b"
    and "name_eq H a b \<Longrightarrow> name_lt H a c \<longleftrightarrow> name_lt H b c"
  using assms unfolding name_order_def by (metis name_eq_def)+

text \<open>Names in canonical order, by index.\<close>

definition zone_names :: "'n hickory \<Rightarrow> ('n \<times> record_type list) list \<Rightarrow> bool" where
  "zone_names H names \<longleftrightarrow> names \<noteq> [] \<and> sorted_wrt (\<lambda>a b. name_lt H (fst a) (fst b)) names"

lemma zone_names_lt:
  "zone_names H names \<Longrightarrow> i < j \<Longrightarrow> j < length names \<Longrightarrow> name_lt H (fst (names ! i)) (fst (names ! j))"
  using sorted_wrt_nth_less [of "\<lambda>a b. name_lt H (fst a) (fst b)" names i j] by (simp add: zone_names_def)

text \<open>A link of the chain ends at a greater name, except the last one.\<close>

lemma link_lt_iff:
  assumes "name_order H" and "zone_names H names" and "i < length names"
  shows "name_lt H (fst (names ! i)) (fst (names ! (Suc i mod length names))) \<longleftrightarrow> Suc i < length names"
proof (cases "Suc i < length names")
  case True
  then show ?thesis using zone_names_lt [OF assms(2), of i "Suc i"] by simp
next
  case False
  then have "Suc i = length names" using assms(3) by simp
  then have next_name: "Suc i mod length names = 0" by simp
  have "\<not> name_lt H (fst (names ! i)) (fst (names ! 0))"
  proof (cases "i = 0")
    case False
    then show ?thesis
      using zone_names_lt [OF assms(2), of 0 i] assms(3) name_order_facts(2) [OF assms(1)] by blast
  qed (simp add: name_order_facts(1) [OF assms(1)])
  with False next_name show ?thesis by simp
qed


lemma zone_names_lt_iff:
  assumes "name_order H" and "zone_names H names" and "i < length names" and "j < length names"
  shows "name_lt H (fst (names ! i)) (fst (names ! j)) \<longleftrightarrow> i < j"
proof (cases i j rule: linorder_cases)
  case greater
  with zone_names_lt [OF assms(2), of j i] assms(3) name_order_facts(2) [OF assms(1)] show ?thesis by auto
qed (use zone_names_lt [OF assms(2), of i j] assms(4) name_order_facts(1) [OF assms(1)] in auto)

lemma zone_names_eq_iff:
  assumes "name_order H" and "zone_names H names" and "i < length names" and "j < length names"
  shows "name_eq H (fst (names ! i)) (fst (names ! j)) \<longleftrightarrow> i = j"
proof -
  have "name_eq H a b \<longleftrightarrow> \<not> name_lt H a b \<and> \<not> name_lt H b a" for a b
    using assms(1) unfolding name_order_def by blast
  then show ?thesis
    using zone_names_lt_iff [OF assms] zone_names_lt_iff [OF assms(1,2,4,3)] by auto
qed

text \<open>A name outside the chain falls into one of its gaps.\<close>

lemma chain_gap:
  assumes "name_order H" and "zone_names H names"
    and "\<forall>i < length names. \<not> name_eq H (fst (names ! i)) q"
  shows "\<exists>i < length names. nsec_proves H q t (fst (names ! i)) (fst (names ! (Suc i mod length names)))
    (snd (names ! i))"
proof -
  let ?n = "length names"
  have n: "0 < ?n" using assms(2) by (simp add: zone_names_def)
  note facts = name_order_facts [OF assms(1)]
  have above: "name_lt H q (fst (names ! i))" if "i < ?n" "\<not> name_lt H (fst (names ! i)) q" for i
    using assms(3) facts(4) that by blast
  show ?thesis
  proof (cases "\<exists>i < ?n. name_lt H (fst (names ! i)) q")
    case False
    then have "name_lt H q (fst (names ! 0))" using above n by blast
    moreover have "\<not> name_lt H (fst (names ! (?n - 1))) (fst (names ! (Suc (?n - 1) mod ?n)))"
      using link_lt_iff [OF assms(1,2), of "?n - 1"] n by simp
    ultimately show ?thesis using n by (intro exI [of _ "?n - 1"]) (simp add: nsec_proves_def)
  next
    case True
    define i where "i = Max {i. i < ?n \<and> name_lt H (fst (names ! i)) q}"
    have "i \<in> {i. i < ?n \<and> name_lt H (fst (names ! i)) q}"
      unfolding i_def by (rule Max_in) (use True in auto)
    then have i: "i < ?n" "name_lt H (fst (names ! i)) q" by auto
    have top: "j \<le> i" if "j < ?n" "name_lt H (fst (names ! j)) q" for j
      unfolding i_def by (rule Max_ge) (use that in auto)
    have "nsec_proves H q t (fst (names ! i)) (fst (names ! (Suc i mod ?n))) (snd (names ! i))"
    proof (cases "Suc i < ?n")
      case True
      then have "name_lt H q (fst (names ! Suc i))" using above top [of "Suc i"] by fastforce
      with True i show ?thesis by (auto simp: nsec_proves_def)
    next
      case False
      with i link_lt_iff [OF assms(1,2) i(1)] show ?thesis by (simp add: nsec_proves_def)
    qed
    with i(1) show ?thesis by blast
  qed
qed

lemma chain_keeps:
  assumes "name_order H" and "zone_names H names" and "j < length names"
    and "name_eq H (fst (names ! j)) q" and "t \<in> set (snd (names ! j))" and "i < length names"
  shows "\<not> nsec_proves H q t (fst (names ! i)) (fst (names ! (Suc i mod length names))) (snd (names ! i))"
proof -
  note facts = name_order_facts [OF assms(1)] and iff = zone_names_lt_iff [OF assms(1,2)]
  have lt: "name_lt H (fst (names ! k)) q \<longleftrightarrow> k < j" "name_lt H q (fst (names ! k)) \<longleftrightarrow> j < k"
    if "k < length names" for k
    using facts(5,6) [OF assms(4)] iff [OF that assms(3)] iff [OF assms(3) that] by simp_all
  have "name_eq H q (fst (names ! i)) \<longleftrightarrow> i = j"
    using zone_names_eq_iff [OF assms(1,2,6,3)] assms(4) by (auto simp: name_eq_def)
  moreover have "Suc i mod length names < length names" by (rule mod_less_divisor) (use assms(3) in linarith)
  moreover have "Suc i < length names \<or> Suc i mod length names = 0 \<and> i = length names - 1"
    using assms(6) by (metis Suc_lessI diff_Suc_1 mod_self)
  ultimately show ?thesis
    using link_lt_iff [OF assms(1,2,6)] lt assms(3,5,6) by (auto simp: nsec_proves_def)
qed


section \<open>Properties\<close>

lemma unat_inverse: "word_of_nat (unat w) = w" for w :: u16
  by simp

text \<open>
  C17. The key tag is the one of RFC 4034, appendix B: the sum of the key data's bytes, those at even
  positions weighted by 256, with the carry folded in once. Key data of up to 65535 bytes, the most
  a record can hold, never overflows the 32-bit accumulator.
\<close>

theorem compute_key_tag_rfc:
  assumes "rr_data dnskey = Some (RD_DNSSEC (DNSKEY zone_key sep revoke alg public_key))"
    and "length public_key \<le> 65531"
  shows "compute_key_tag H dnskey =
      Inr (word_of_nat (key_tag_spec (dnskey_wire H zone_key sep revoke alg public_key))) \<and>
    byte_sum 0 (dnskey_wire H zone_key sep revoke alg public_key) + 65535 < 2 ^ 32"
proof -
  let ?rdata = "dnskey_wire H zone_key sep revoke alg public_key"
  let ?ac = "key_tag_loop 0 ?rdata 0"
  have "length ?rdata \<le> 65535" using assms(2) by (simp add: dnskey_wire_def)
  then have bound: "byte_sum 0 ?rdata \<le> 65535 * 65280"
    using byte_sum_bound [of 0 ?rdata] by (meson mult_le_mono1 order_trans)
  then have ac: "unat ?ac = byte_sum 0 ?rdata" using key_tag_loop_exact [of 0 0 ?rdata] by simp
  have "unat (ucast (and (?ac + and (drop_bit 16 ?ac) 0xFFFF) 0xFFFF) :: u16) = key_tag_spec ?rdata"
    using key_tag_fold [of ?ac] bound
    by (simp add: ac key_tag_spec_def Let_def byte_sum_index [of 0, simplified, symmetric])
  then have "ucast (and (?ac + and (drop_bit 16 ?ac) 0xFFFF) 0xFFFF) = (word_of_nat (key_tag_spec ?rdata) :: u16)"
    using arg_cong [where f = "word_of_nat :: nat \<Rightarrow> u16"] unat_inverse by metis
  with bound show ?thesis by (simp add: compute_key_tag_def assms(1) Let_def)
qed


theorem compute_key_tag_rfc_witness:
  "compute_key_tag sample (from_rdata sample [''com''] 60 (RD_DNSSEC (DNSKEY True True False RSASHA256 [1, 2, 255]))) =
     Inr 1036 \<and> key_tag_spec [1, 1, 3, 8, 1, 2, 255] = 1036"
proof -
  let ?key = "from_rdata sample [''com''] 60 (RD_DNSSEC (DNSKEY True True False RSASHA256 [1, 2, 255]))"
  have "key_tag_spec [1, 1, 3, 8, 1, 2, 255] = 1036" by code_simp
  moreover have "dnskey_wire sample True True False RSASHA256 [1, 2, 255] = [1, 1, 3, 8, 1, 2, 255]"
    by code_simp
  ultimately show ?thesis using compute_key_tag_rfc [of ?key True True False RSASHA256 "[1, 2, 255]" sample]
    by simp
qed

text \<open>What \<open>verify_ds\<close> accepts.\<close>

lemma verify_ds_iff:
  "verify_ds H C ds k = Inr () \<longleftrightarrow>
     (\<exists>tag alg dt digest z s r p w.
        rr_data ds = Some (RD_DNSSEC (DS tag alg dt digest)) \<and>
        rr_data k = Some (RD_DNSSEC (DNSKEY z s r alg p)) \<and> compute_key_tag H k = Inr tag \<and>
        name_to_bytes H (name_to_lowercase H (rr_name k)) = Some w \<and>
        ds_digest C dt (w @ dnskey_wire H z s r alg p) = Inr digest)"
  by (auto simp: verify_ds_def res_simps
      split: option.splits rdata.splits dnssec_rdata.splits if_splits)

lemma ds_digest_hash:
  "ds_digest C dt x = Inr d \<Longrightarrow> \<exists>h \<in> {sha256 C, sha384 C, sha512 C}. \<forall>y. ds_digest C dt y = Inr (h y)"
  by (cases dt) (auto simp: ds_digest_def)

text \<open>
  C19. A DS record authenticates one key. If two DNSKEY records of the same owner both verify
  against one DS record and none of the hash functions collides on their digest inputs, they have
  the same algorithm, the same public key and the same flags.
\<close>

theorem verify_ds_binds_key:
  assumes "verify_ds H C ds k = Inr ()" and "verify_ds H C ds k' = Inr ()"
    and "rr_data k = Some (RD_DNSSEC (DNSKEY z s r a p))" and "rr_data k' = Some (RD_DNSSEC (DNSKEY z' s' r' a' p'))"
    and "name_to_lowercase H (rr_name k) = name_to_lowercase H (rr_name k')"
    and "name_to_bytes H (name_to_lowercase H (rr_name k)) = Some w"
    and "\<forall>h \<in> {sha256 C, sha384 C, sha512 C}.
      h (w @ dnskey_wire H z s r a p) = h (w @ dnskey_wire H z' s' r' a' p') \<longrightarrow>
      w @ dnskey_wire H z s r a p = w @ dnskey_wire H z' s' r' a' p'"
  shows "a = a' \<and> p = p' \<and> dnskey_flags H z s r = dnskey_flags H z' s' r'"
proof -
  from assms(1) obtain tag alg dt digest where ds: "rr_data ds = Some (RD_DNSSEC (DS tag alg dt digest))"
    and k: "alg = a" "ds_digest C dt (w @ dnskey_wire H z s r a p) = Inr digest"
    unfolding verify_ds_iff using assms(3,6) by auto
  from assms(2) have k': "alg = a'" "ds_digest C dt (w @ dnskey_wire H z' s' r' a' p') = Inr digest"
    unfolding verify_ds_iff using assms(4,5,6) ds by auto
  from ds_digest_hash [OF k(2)] obtain h where "h \<in> {sha256 C, sha384 C, sha512 C}"
    and h: "\<forall>y. ds_digest C dt y = Inr (h y)" by blast
  with k(2) k'(2) assms(7) have "dnskey_wire H z s r a p = dnskey_wire H z' s' r' a' p'" by auto
  then have "p = p'" "to_be_bytes (dnskey_flags H z s r) = to_be_bytes (dnskey_flags H z' s' r')"
    by (auto simp: dnskey_wire_def to_be_bytes_def)
  moreover have "to_be_bytes x = to_be_bytes y \<Longrightarrow> x = y" for x y
    unfolding to_be_bytes_def by (metis from_to_be_bytes list.inject)
  ultimately show ?thesis using k(1) k'(1) by auto
qed

theorem verify_ds_binds_key_witness:
  "let key = (\<lambda>n. from_rdata sample n 60 (RD_DNSSEC (DNSKEY True True False RSASHA256 [1, 2, 255])));
       wire = [3, 99, 111, 109, 0, 1, 1, 3, 8, 1, 2, 255];
       ds = from_rdata sample [''com''] 60 (RD_DNSSEC (DS 1036 RSASHA256 SHA256 wire))
   in verify_ds sample sample_codecs ds (key [''com'']) = Inr () \<and>
      verify_ds sample sample_codecs ds (key [''COM'']) = Inr () \<and>
      dnskey_flags sample True True False = dnskey_flags sample True True False"
proof -
  let ?key = "\<lambda>n. from_rdata sample n 60 (RD_DNSSEC (DNSKEY True True False RSASHA256 [1, 2, 255]))"
  let ?wire = "[3, 99, 111, 109, 0, 1, 1, 3, 8, 1, 2, 255]"
  let ?ds = "from_rdata sample [''com''] 60 (RD_DNSSEC (DS 1036 RSASHA256 SHA256 ?wire))"
  have v: "verify_ds sample sample_codecs ?ds (?key [''com'']) = Inr ()"
    "verify_ds sample sample_codecs ?ds (?key [''COM'']) = Inr ()" by code_simp+
  have n: "name_to_lowercase sample (rr_name (?key [''com''])) = name_to_lowercase sample (rr_name (?key [''COM'']))"
    "name_to_bytes sample (name_to_lowercase sample (rr_name (?key [''com'']))) = Some [3, 99, 111, 109, 0]"
    by code_simp+
  from verify_ds_binds_key [OF v _ _ n, of True True False RSASHA256 "[1, 2, 255]" True True False RSASHA256 "[1, 2, 255]"]
  show ?thesis using v by (simp add: Let_def)
qed

text \<open>
  C18. NSEC denial is exact. Given the NSEC chain of a zone, one record per name in canonical order
  with the types the name has, \<open>validate_nsec_denial\<close> accepts a name and a type exactly when the
  zone has no such name or the name has no such type.
\<close>

theorem nsec_denial_exact:
  assumes "name_order H" and "names \<noteq> []"
    and "sorted_wrt (\<lambda>a b. name_lt H (fst a) (fst b)) names"
  shows "validate_nsec_denial H q t (nsec_chain H ttl names) = Inr () \<longleftrightarrow>
    \<not> (\<exists>(n, types) \<in> set names. name_eq H n q \<and> t \<in> set types)"
proof -
  have names: "zone_names H names" using assms(2,3) by (simp add: zone_names_def)
  have ex: "(\<exists>(n, types) \<in> set names. P n types) \<longleftrightarrow>
      (\<exists>i < length names. P (fst (names ! i)) (snd (names ! i)))" for P
    by (metis (mono_tags, lifting) case_prod_beta in_set_conv_nth)
  let ?proof = "\<lambda>i. nsec_proves H q t (fst (names ! i)) (fst (names ! (Suc i mod length names)))
      (snd (names ! i))"
  show ?thesis
  proof (cases "\<exists>j < length names. name_eq H (fst (names ! j)) q")
    case False
    then have "\<exists>i < length names. ?proof i" by (intro chain_gap [OF assms(1) names]) simp
    moreover have "\<not> (\<exists>(n, types) \<in> set names. name_eq H n q \<and> t \<in> set types)"
      using False unfolding ex by blast
    ultimately show ?thesis by (simp add: chain_proof_iff)
  next
    case True
    then obtain j where j: "j < length names" "name_eq H (fst (names ! j)) q" by blast
    have same: "i = j" if "i < length names" "name_eq H (fst (names ! i)) q" for i
      using zone_names_eq_iff [OF assms(1) names that(1) j(1)] that(2) j(2) by (simp add: name_eq_def)
    have "(\<exists>(n, types) \<in> set names. name_eq H n q \<and> t \<in> set types) \<longleftrightarrow> t \<in> set (snd (names ! j))"
      unfolding ex using j same by blast
    moreover have "(\<exists>i < length names. ?proof i) \<longleftrightarrow> t \<notin> set (snd (names ! j))"
    proof
      show "\<exists>i < length names. ?proof i \<Longrightarrow> t \<notin> set (snd (names ! j))"
        using chain_keeps [OF assms(1) names j] by blast
      show "t \<notin> set (snd (names ! j)) \<Longrightarrow> \<exists>i < length names. ?proof i"
        using j by (intro exI [of _ j]) (simp add: nsec_proves_def name_eq_def)
    qed
    ultimately show ?thesis by (simp add: chain_proof_iff)
  qed
qed


theorem nsec_denial_exact_witness:
  "let chain = nsec_chain sample 60 [([''a''], [RT_A, RT_NSEC]), ([''m''], [RT_TXT])]
   in validate_nsec_denial sample [''k''] RT_A chain = Inr () \<and>
      validate_nsec_denial sample [''M''] RT_A chain = Inr () \<and>
      validate_nsec_denial sample [''a''] RT_A chain \<noteq> Inr ()"
proof -
  let ?names = "[([''a''], [RT_A, RT_NSEC]), ([''m''], [RT_TXT])]"
  have sorted: "sorted_wrt (\<lambda>a b. name_lt sample (fst a) (fst b)) ?names" by code_simp
  have "\<not> (\<exists>(n, types) \<in> set ?names. name_eq sample n [''k''] \<and> RT_A \<in> set types)"
    "\<not> (\<exists>(n, types) \<in> set ?names. name_eq sample n [''M''] \<and> RT_A \<in> set types)"
    "\<exists>(n, types) \<in> set ?names. name_eq sample n [''a''] \<and> RT_A \<in> set types"
    by code_simp+
  with nsec_denial_exact [OF sample_name_order _ sorted, of _ RT_A 60] show ?thesis
    unfolding Let_def by blast
qed

text \<open>
  C37. \<open>check_signature_validity\<close> accepts a signature exactly in its lifetime, compared as plain
  32-bit numbers with the clock's seconds modulo \<open>2 ^ 32\<close>; before it the error is \<open>Not_yet_valid\<close>
  and after it \<open>Expired\<close>. A lifetime that wraps around (expiration below inception) is never valid.
\<close>

theorem signature_lifetime:
  assumes "rr_data rrsig = Some (RD_DNSSEC (SIG t a l ot expiration inception k n s))"
  shows "case check_signature_validity (Some secs) rrsig of
      Inr _ \<Rightarrow> unat inception \<le> secs mod 2 ^ 32 \<and> secs mod 2 ^ 32 \<le> unat expiration \<and>
        inception \<le> expiration
    | Inl (Not_yet_valid _ _) \<Rightarrow> secs mod 2 ^ 32 < unat inception
    | Inl (Expired _ _) \<Rightarrow> unat inception \<le> secs mod 2 ^ 32 \<and> unat expiration < secs mod 2 ^ 32
    | Inl _ \<Rightarrow> False"
proof -
  have "unat (word_of_nat secs :: u32) = secs mod 2 ^ 32" by (simp add: unat_of_nat)
  then show ?thesis
    by (auto simp: check_signature_validity_def assms Let_def word_less_nat_alt word_le_nat_alt)
qed

theorem signature_lifetime_witness:
  "let sig = (\<lambda>exp inc. from_rdata sample [''com''] 60
       (RD_DNSSEC (SIG RT_A RSASHA256 1 60 exp inc 7 [''com''] [1])))
   in check_signature_validity (Some 1500) (sig 2000 1000) = Inr () \<and> (1000 :: u32) \<le> 2000 \<and>
      check_signature_validity (Some 1500) (sig 5 1000) = Inl (Expired 5 1500)"
proof -
  let ?sig = "\<lambda>exp inc. from_rdata sample [''com''] 60
       (RD_DNSSEC (SIG RT_A RSASHA256 1 60 exp inc 7 [''com''] [1]))"
  have "check_signature_validity (Some 1500) (?sig 2000 1000) = Inr ()"
    "check_signature_validity (Some 1500) (?sig 5 1000) = Inl (Expired 5 1500)" by code_simp+
  with signature_lifetime [of "?sig 2000 1000" RT_A RSASHA256 1 60 2000 1000 7 "[''com'']" "[1]" 1500]
  show ?thesis by (simp add: Let_def)
qed

end
