(* ===== verification/Config.thy ===== *)
theory Config
  imports Rust_Std
begin

text \<open>
  \<open>src/config.rs\<close>: the configuration file. \<open>serde_yaml\<close> is a parameter that returns the fields
  present in the text (and fails when a required one is missing or has the wrong type); the
  defaults that the \<open>serde\<close> attributes name are filled in here. The file system is a pair of
  functions: the content of a readable file and whether a path exists.
\<close>

section \<open>State and operations\<close>

record tcp_config =
  idle_timeout :: u64
  max_queries_per_connection :: usize

record dnssec_settings =
  set_validate_signatures :: bool
  set_require_dnssec :: bool
  set_auto_include_dnssec :: bool

record server_config =
  listen :: string
  workers :: usize
  log_level :: string
  rate_limit :: "u32 option"
  api_listen :: "string option"
  dnssec :: "dnssec_settings option"
  tcp :: "tcp_config option"

record zone_config =
  zc_name :: string
  zc_file :: string

record config =
  cfg_server :: server_config
  cfg_zones :: "zone_config list"

definition default_listen :: string where
  "default_listen = ''0.0.0.0:53''"

definition default_auto_include_dnssec :: bool where
  "default_auto_include_dnssec = True"

definition default_workers :: usize where
  "default_workers = 4"

definition default_log_level :: string where
  "default_log_level = ''info''"

definition default_tcp_idle_timeout :: u64 where
  "default_tcp_idle_timeout = 30"

definition default_tcp_max_queries :: usize where
  "default_tcp_max_queries = 100"

text \<open>The fields present in a configuration text.\<close>

record raw_tcp =
  raw_idle_timeout :: "u64 option"
  raw_max_queries :: "usize option"

record raw_dnssec =
  raw_validate :: "bool option"
  raw_require :: "bool option"
  raw_auto_include :: "bool option"

record raw_server =
  raw_listen :: "string option"
  raw_workers :: "usize option"
  raw_log_level :: "string option"
  raw_rate_limit :: "u32 option"
  raw_api_listen :: "string option"
  raw_dnssec_section :: "raw_dnssec option"
  raw_tcp_section :: "raw_tcp option"

record raw_config =
  raw_server_section :: raw_server
  raw_zones :: "zone_config list"

definition unwrap_or :: "'a \<Rightarrow> 'a option \<Rightarrow> 'a" where
  "unwrap_or d x = (case x of Some v \<Rightarrow> v | None \<Rightarrow> d)"

definition fill_tcp :: "raw_tcp \<Rightarrow> tcp_config" where
  "fill_tcp r =
     \<lparr>idle_timeout = unwrap_or default_tcp_idle_timeout (raw_idle_timeout r),
      max_queries_per_connection = unwrap_or default_tcp_max_queries (raw_max_queries r)\<rparr>"

definition fill_dnssec :: "raw_dnssec \<Rightarrow> dnssec_settings" where
  "fill_dnssec r =
     \<lparr>set_validate_signatures = unwrap_or False (raw_validate r),
      set_require_dnssec = unwrap_or False (raw_require r),
      set_auto_include_dnssec = unwrap_or default_auto_include_dnssec (raw_auto_include r)\<rparr>"

definition fill_server :: "raw_server \<Rightarrow> server_config" where
  "fill_server r =
     \<lparr>listen = unwrap_or default_listen (raw_listen r),
      workers = unwrap_or default_workers (raw_workers r),
      log_level = unwrap_or default_log_level (raw_log_level r),
      rate_limit = raw_rate_limit r, api_listen = raw_api_listen r,
      dnssec = map_option fill_dnssec (raw_dnssec_section r),
      tcp = map_option fill_tcp (raw_tcp_section r)\<rparr>"

definition fill_config :: "raw_config \<Rightarrow> config" where
  "fill_config r = \<lparr>cfg_server = fill_server (raw_server_section r), cfg_zones = raw_zones r\<rparr>"

datatype config_error = Cfg_msg string | Cfg_missing_file string

definition from_file ::
  "(string \<Rightarrow> raw_config option) \<Rightarrow> (string \<Rightarrow> string option) \<Rightarrow> string \<Rightarrow> config_error + config" where
  "from_file yaml read_to_string path =
     and_then (ok_or (Cfg_msg ''Failed to read configuration file'') (read_to_string path)) (\<lambda>content.
     and_then (ok_or (Cfg_msg ''Failed to parse YAML configuration'') (yaml content)) (\<lambda>raw.
     Inr (fill_config raw)))"

fun validate_zones :: "(string \<Rightarrow> bool) \<Rightarrow> zone_config list \<Rightarrow> config_error + unit" where
  "validate_zones file_exists [] = Inr ()"
| "validate_zones file_exists (zone # rest) =
     (if zc_name zone = [] then Inl (Cfg_msg ''Zone name cannot be empty'')
      else if \<not> file_exists (zc_file zone) then Inl (Cfg_missing_file (zc_file zone))
      else validate_zones file_exists rest)"

definition validate :: "(string \<Rightarrow> bool) \<Rightarrow> config \<Rightarrow> config_error + unit" where
  "validate file_exists cfg =
     (if cfg_zones cfg = [] then Inl (Cfg_msg ''At least one zone must be configured'')
      else validate_zones file_exists (cfg_zones cfg))"

section \<open>Lemmas\<close>

lemma validate_zones_iff:
  "validate_zones file_exists zs = Inr () \<longleftrightarrow> (\<forall>z \<in> set zs. zc_name z \<noteq> [] \<and> file_exists (zc_file z))"
  by (induction zs) auto

text \<open>The first zone at fault decides the error.\<close>

lemma validate_zones_first:
  assumes "\<forall>z \<in> set zs. zc_name z \<noteq> [] \<and> file_exists (zc_file z)" and "zc_name z \<noteq> []"
    and "\<not> file_exists (zc_file z)"
  shows "validate_zones file_exists (zs @ z # rest) = Inl (Cfg_missing_file (zc_file z))"
  using assms by (induction zs) auto

lemma validate_ok:
  "validate file_exists cfg = Inr () \<longleftrightarrow>
     cfg_zones cfg \<noteq> [] \<and> (\<forall>z \<in> set (cfg_zones cfg). zc_name z \<noteq> [] \<and> file_exists (zc_file z))"
  by (simp add: validate_def validate_zones_iff)

lemma from_file_ok:
  "from_file yaml read_to_string path = Inr cfg \<longleftrightarrow>
     (\<exists>content raw. read_to_string path = Some content \<and> yaml content = Some raw \<and> cfg = fill_config raw)"
  by (auto simp: from_file_def res_simps)

end
