(* ===== verification/Server_Udp.thy ===== *)
theory Server_Udp
  imports Protocol Ratelimit Metrics Config
begin

text \<open>
  \<open>src/server.rs\<close>, the constants, the state the tasks share, the receive loop and the UDP handler.
  A handler is a function from the shared state to its result, the datagram it sent, if any, and
  the new shared state. What comes from outside is an input: the readings of the clock, whether
  the socket accepts the datagram, and the functions of \<open>hickory_proto\<close>.
\<close>

section \<open>State and operations\<close>

definition MAX_DNS_PACKET_SIZE :: nat where
  "MAX_DNS_PACKET_SIZE = 512"

definition MAX_UDP_RECV_SIZE :: nat where
  "MAX_UDP_RECV_SIZE = 4096"

definition MAX_TCP_DNS_PACKET_SIZE :: nat where
  "MAX_TCP_DNS_PACKET_SIZE = 65535"

text \<open>
  The server of \<open>DnsServer\<close>, with the objects behind its shared pointers: the zone store of the
  query processor, the counters and the rate limiter.
\<close>

record 'n dns_server =
  srv_zones :: "'n zone_store"
  srv_listen_addr :: string
  srv_metrics :: metrics
  srv_rate_limiter :: "rate_limiter option"
  srv_tcp_config :: "tcp_config option"

definition dns_server_new ::
  "'n zone_store \<Rightarrow> string \<Rightarrow> metrics \<Rightarrow> rate_limiter option \<Rightarrow> tcp_config option \<Rightarrow> 'n dns_server" where
  "dns_server_new zs listen_addr m limiter tcp_cfg =
     \<lparr>srv_zones = zs, srv_listen_addr = listen_addr, srv_metrics = m, srv_rate_limiter = limiter,
      srv_tcp_config = tcp_cfg\<rparr>"

datatype server_error =
    Context string
  | Encode_error
  | Io_error
  | Process_error anyhow

definition with_metrics :: "(metrics \<Rightarrow> metrics) \<Rightarrow> 'n dns_server \<Rightarrow> 'n dns_server" where
  "with_metrics f s = s\<lparr>srv_metrics := f (srv_metrics s)\<rparr>"

definition limiter_allows :: "ticks \<Rightarrow> ip_addr \<Rightarrow> 'n dns_server \<Rightarrow> bool \<times> 'n dns_server" where
  "limiter_allows tk addr s =
     (case srv_rate_limiter s of
        None \<Rightarrow> (True, s)
      | Some limiter \<Rightarrow>
          (case check_rate_limit tk addr limiter of
             (ok, limiter) \<Rightarrow> (ok, s\<lparr>srv_rate_limiter := Some limiter\<rparr>)))"

text \<open>The identifier in the first two bytes of a packet, when it has them.\<close>

definition set_packet_id :: "bytes \<Rightarrow> 'n message \<Rightarrow> 'n message" where
  "set_packet_id data m =
     (case data of hi # lo # _ \<Rightarrow> m\<lparr>msg_id := from_be_bytes hi lo\<rparr> | _ \<Rightarrow> m)"

definition error_message :: "'n hickory \<Rightarrow> bytes \<Rightarrow> response_code \<Rightarrow> 'n message" where
  "error_message H data rc =
     (set_packet_id data (message_new H))\<lparr>msg_type := MT_Response, msg_response_code := rc\<rparr>"

record udp_env =
  ue_ticks :: ticks
  ue_elapsed :: nat
  ue_send_ok :: bool

type_synonym 'n udp_outcome = "(server_error + unit) \<times> bytes option \<times> 'n dns_server"

text \<open>\<open>socket.send_to(&buf, addr).await?\<close> and what follows it.\<close>

definition udp_send ::
  "udp_env \<Rightarrow> server_error + bytes \<Rightarrow> 'n dns_server \<Rightarrow> (metrics \<Rightarrow> metrics) \<Rightarrow> 'n udp_outcome" where
  "udp_send env buf s after =
     (case buf of
        Inl e \<Rightarrow> (Inl e, None, s)
      | Inr b \<Rightarrow>
          if ue_send_ok env then (Inr (), Some b, with_metrics after s) else (Inl Io_error, None, s))"

datatype msg_section = Answers | Name_servers | Additionals

fun section_of :: "msg_section \<Rightarrow> 'n message \<Rightarrow> 'n rr list" where
  "section_of Answers m = msg_answers m"
| "section_of Name_servers m = msg_name_servers m"
| "section_of Additionals m = msg_additionals m"

fun take_section :: "msg_section \<Rightarrow> 'n message \<Rightarrow> 'n message" where
  "take_section Answers m = m\<lparr>msg_answers := []\<rparr>"
| "take_section Name_servers m = m\<lparr>msg_name_servers := []\<rparr>"
| "take_section Additionals m = m\<lparr>msg_additionals := []\<rparr>"

lemma section_of_take [simp]: "section_of s (take_section s m) = []"
  by (cases s) auto

text \<open>One of the three loops: what is sent, or the message that is still too large.\<close>

datatype 'n truncation = Encoding_failed | Fits bytes "'n message" | Too_large "'n message"

function truncate_loop :: "'n hickory \<Rightarrow> nat \<Rightarrow> msg_section \<Rightarrow> 'n message \<Rightarrow> 'n truncation" where
  "truncate_loop H max_udp_size s truncated =
     (if section_of s truncated \<noteq> [] then
        (let truncated = take_section s truncated in
         case message_to_bytes H truncated of
           None \<Rightarrow> Encoding_failed
         | Some buf \<Rightarrow>
             if length buf \<le> max_udp_size then Fits buf truncated
             else truncate_loop H max_udp_size s truncated)
      else Too_large truncated)"
  by pat_completeness auto
termination
  by (relation "measure (\<lambda>(H, max_udp_size, s, m). length (section_of s m))") auto

declare truncate_loop.simps [simp del]

fun truncate_sections :: "'n hickory \<Rightarrow> nat \<Rightarrow> msg_section list \<Rightarrow> 'n message \<Rightarrow> 'n truncation" where
  "truncate_sections H max_udp_size [] truncated =
     (case message_to_bytes H truncated of
        None \<Rightarrow> Encoding_failed | Some minimal_buf \<Rightarrow> Fits minimal_buf truncated)"
| "truncate_sections H max_udp_size (s # ss) truncated =
     (case truncate_loop H max_udp_size s truncated of
        Too_large truncated \<Rightarrow> truncate_sections H max_udp_size ss truncated
      | r \<Rightarrow> r)"

definition max_udp_size :: "'n message \<Rightarrow> nat" where
  "max_udp_size response =
     (case msg_edns response of Some e \<Rightarrow> unat (max_payload e) | None \<Rightarrow> MAX_DNS_PACKET_SIZE)"

definition send_response :: "'n hickory \<Rightarrow> udp_env \<Rightarrow> 'n message \<Rightarrow> 'n dns_server \<Rightarrow> 'n udp_outcome" where
  "send_response H env response s =
     (let finish = (\<lambda>m. record_latency (ue_elapsed env) \<circ> record_response (msg_response_code m)) in
      case message_to_bytes H response of
        None \<Rightarrow> (Inl (Context ''Failed to encode DNS response''), None, s)
      | Some response_buf \<Rightarrow>
          if max_udp_size response < length response_buf then
            (case truncate_sections H (max_udp_size response) [Answers, Name_servers, Additionals]
                    (response\<lparr>msg_truncated := True\<rparr>) of
               Fits buf truncated \<Rightarrow> udp_send env (Inr buf) s (finish truncated)
             | _ \<Rightarrow> (Inl Encode_error, None, s))
          else udp_send env (Inr response_buf) s (finish response))"

definition record_question :: "protocol \<Rightarrow> 'n message \<Rightarrow> metrics \<Rightarrow> metrics" where
  "record_question p query =
     (case first_query query of Some q \<Rightarrow> record_query_type (q_type q) | None \<Rightarrow> (\<lambda>m. m)) \<circ>
     record_query p (msg_edns query \<noteq> None)"

definition handle_udp_query ::
  "'n hickory \<Rightarrow> udp_env \<Rightarrow> bytes \<Rightarrow> ip_addr \<Rightarrow> 'n dns_server \<Rightarrow> 'n udp_outcome" where
  "handle_udp_query H env data addr s =
     (case limiter_allows (ue_ticks env) addr s of
        (False, s) \<Rightarrow>
          udp_send env (ok_or (Context ''Failed to encode rate limit response'')
            (message_to_bytes H (error_message H data Refused)))
            (with_metrics record_rate_limited s) (\<lambda>m. m)
      | (True, s) \<Rightarrow>
          (case message_from_bytes H data of
             None \<Rightarrow>
               udp_send env (ok_or (Context ''Failed to encode FORMERR response'')
                 (message_to_bytes H (error_message H data FormErr)))
                 (with_metrics (record_response FormErr \<circ> record_error) s)
                 (record_latency (ue_elapsed env))
           | Some query \<Rightarrow>
               (let s = with_metrics (record_question Udp query) s in
                case process_query H (srv_zones s) query of
                  Inl e \<Rightarrow>
                    (Inl (Process_error e), None,
                     with_metrics (record_latency (ue_elapsed env) \<circ> record_error) s)
                | Inr response \<Rightarrow> send_response H env response s)))"

section \<open>The receive loop\<close>

text \<open>What \<open>select!\<close> yields: a datagram (of which the buffer holds a prefix), an error, or shutdown.\<close>

datatype udp_event = Received bytes ip_addr | Receive_error | Udp_cancelled

text \<open>
  The tasks \<open>run_udp\<close> spawns for a sequence of events, and whether it has returned. A handler's
  error is logged only.
\<close>

fun run_udp :: "udp_event list \<Rightarrow> (bytes \<times> ip_addr) list \<times> bool" where
  "run_udp [] = ([], False)"
| "run_udp (Received packet addr # es) =
     (let data = take MAX_UDP_RECV_SIZE packet; (spawned, ended) = run_udp es in ((data, addr) # spawned, ended))"
| "run_udp (Receive_error # es) = run_udp es"
| "run_udp (Udp_cancelled # es) = ([], True)"

section \<open>Truncation\<close>

lemma take_section_id: "section_of s m = [] \<Longrightarrow> take_section s m = m"
  by (cases s) auto

text \<open>Each loop runs at most once: the section is gone after the first round.\<close>

lemma truncate_loop_once:
  "truncate_loop H mx s m =
     (if section_of s m = [] then Too_large m
      else case message_to_bytes H (take_section s m) of
        None \<Rightarrow> Encoding_failed
      | Some buf \<Rightarrow> if length buf \<le> mx then Fits buf (take_section s m) else Too_large (take_section s m))"
  by (simp add: truncate_loop.simps [of H mx s m] truncate_loop.simps [of H mx s "take_section s m"] Let_def
      split: option.split)

text \<open>
  The forms in which a response can go out, and the one that does: whole when it fits, else with the
  TC bit and without the answers, without the authority section too, or without any record. A
  section that is empty is not tried on its own.
\<close>

definition fits :: "'n hickory \<Rightarrow> nat \<Rightarrow> 'n message \<Rightarrow> bool" where
  "fits H limit m \<longleftrightarrow> (case message_to_bytes H m of Some buf \<Rightarrow> length buf \<le> limit | None \<Rightarrow> False)"

definition no_answers :: "'n message \<Rightarrow> 'n message" where
  "no_answers r = r\<lparr>msg_truncated := True, msg_answers := []\<rparr>"

definition no_authority :: "'n message \<Rightarrow> 'n message" where
  "no_authority r = r\<lparr>msg_truncated := True, msg_answers := [], msg_name_servers := []\<rparr>"

definition no_record :: "'n message \<Rightarrow> 'n message" where
  "no_record r = r\<lparr>msg_truncated := True, msg_answers := [], msg_name_servers := [], msg_additionals := []\<rparr>"

lemmas form_defs = no_answers_def no_authority_def no_record_def

definition udp_form :: "'n hickory \<Rightarrow> nat \<Rightarrow> 'n message \<Rightarrow> 'n message" where
  "udp_form H limit r =
     (if fits H limit r then r
      else if msg_answers r \<noteq> [] \<and> fits H limit (no_answers r) then no_answers r
      else if msg_name_servers r \<noteq> [] \<and> fits H limit (no_authority r) then no_authority r
      else no_record r)"

definition udp_forms :: "'n message \<Rightarrow> 'n message list" where
  "udp_forms r = [r, no_answers r, no_authority r, no_record r]"

lemma udp_form_in: "udp_form H limit r \<in> set (udp_forms r)"
  by (simp add: udp_form_def udp_forms_def)

lemma udp_forms_frame:
  assumes "m \<in> set (udp_forms r)"
  shows "msg_id m = msg_id r" "msg_type m = msg_type r" "msg_queries m = msg_queries r"
    "msg_response_code m = msg_response_code r" "msg_edns m = msg_edns r"
  using assms by (auto simp: udp_forms_def form_defs)

lemma truncate_loop_fits:
  "truncate_loop H mx s m =
     (if section_of s m \<noteq> [] \<and> message_to_bytes H (take_section s m) = None then Encoding_failed
      else if section_of s m \<noteq> [] \<and> fits H mx (take_section s m)
      then Fits (the (message_to_bytes H (take_section s m))) (take_section s m)
      else Too_large (take_section s m))"
  by (auto simp: truncate_loop_once take_section_id fits_def split: option.split)

text \<open>The three loops end with that form, or with a form that cannot be encoded.\<close>

lemma truncate_sections_form:
  assumes "\<not> fits H mx r"
  shows "case truncate_sections H mx [Answers, Name_servers, Additionals] (r\<lparr>msg_truncated := True\<rparr>) of
      Fits buf m \<Rightarrow> m = udp_form H mx r \<and> message_to_bytes H m = Some buf
    | _ \<Rightarrow> \<exists>m \<in> set (udp_forms r). message_to_bytes H m = None"
proof -
  have forms: "take_section Answers (r\<lparr>msg_truncated := True\<rparr>) = no_answers r"
    "take_section Name_servers (no_answers r) = no_authority r"
    "take_section Additionals (no_authority r) = no_record r"
    and sections: "msg_name_servers (no_answers r) = msg_name_servers r"
    "msg_additionals (no_authority r) = msg_additionals r"
    by (simp_all add: form_defs)
  have known: "message_to_bytes H m = Some (the (message_to_bytes H m))" if "fits H mx m" for m
    using that by (simp add: fits_def split: option.splits)
  show ?thesis
    using assms known
    by (simp add: truncate_loop_fits forms sections del: take_section.simps)
       (auto simp: udp_form_def udp_forms_def split: option.splits)
qed

text \<open>The message a response goes out as.\<close>

definition sent_as :: "'n hickory \<Rightarrow> 'n message \<Rightarrow> bytes \<Rightarrow> 'n message \<Rightarrow> bool" where
  "sent_as H r buf m \<longleftrightarrow> m = udp_form H (max_udp_size r) r \<and> message_to_bytes H m = Some buf"

lemma send_response_cases:
  assumes "send_response H env r s = (res, sent, s')"
  shows "(\<exists>buf m. ue_send_ok env \<and> res = Inr () \<and> sent = Some buf \<and> sent_as H r buf m \<and>
      s' = with_metrics (record_latency (ue_elapsed env) \<circ> record_response (msg_response_code r)) s) \<or>
    sent = None \<and> (\<exists>e. res = Inl e) \<and> s' = s \<and>
      (ue_send_ok env \<longrightarrow> (\<exists>m \<in> set (udp_forms r). message_to_bytes H m = None))"
proof (cases "message_to_bytes H r")
  case None
  with assms show ?thesis by (auto simp: send_response_def Let_def udp_forms_def)
next
  case (Some full)
  show ?thesis
  proof (cases "max_udp_size r < length full")
    case False
    with Some have "udp_form H (max_udp_size r) r = r" by (simp add: udp_form_def fits_def)
    with assms Some False show ?thesis
      by (auto simp: send_response_def Let_def udp_send_def sent_as_def split: if_splits)
  next
    case True
    with Some have "\<not> fits H (max_udp_size r) r" by (simp add: fits_def)
    note form = truncate_sections_form [OF this]
    define t where "t = truncate_sections H (max_udp_size r) [Answers, Name_servers, Additionals] (r\<lparr>msg_truncated := True\<rparr>)"
    note form = form [folded t_def]
    have out: "send_response H env r s = (case t of
        Fits buf truncated \<Rightarrow> udp_send env (Inr buf) s
          (record_latency (ue_elapsed env) \<circ> record_response (msg_response_code truncated))
      | _ \<Rightarrow> (Inl Encode_error, None, s))"
      using Some True by (simp add: send_response_def Let_def t_def del: truncate_sections.simps)
    show ?thesis
    proof (cases t)
      case (Fits buf m)
      with form have m: "m = udp_form H (max_udp_size r) r" "message_to_bytes H m = Some buf" by auto
      then have "msg_response_code m = msg_response_code r" using udp_forms_frame(4) udp_form_in by metis
      with assms out Fits m show ?thesis by (auto simp: udp_send_def sent_as_def split: if_splits)
    qed (use assms out form in auto)
  qed
qed

lemma error_message_simps [simp]:
  "msg_type (error_message H data rc) = MT_Response"
  "msg_response_code (error_message H data rc) = rc"
  "msg_id (error_message H (hi # lo # rest) rc) = from_be_bytes hi lo"
  by (simp_all add: error_message_def set_packet_id_def)

lemma sent_as_frame:
  assumes "sent_as H r buf m"
  shows "msg_id m = msg_id r" "msg_type m = msg_type r" "msg_queries m = msg_queries r"
    "msg_response_code m = msg_response_code r"
  using assms udp_forms_frame [OF udp_form_in] by (auto simp: sent_as_def)

lemma with_metrics_simps [simp]:
  "srv_metrics (with_metrics f s) = f (srv_metrics s)" "srv_zones (with_metrics f s) = srv_zones s"
  "srv_rate_limiter (with_metrics f s) = srv_rate_limiter s"
  by (simp_all add: with_metrics_def)

lemma limiter_allows_frame:
  "limiter_allows tk addr s = (ok, s') \<Longrightarrow> srv_metrics s' = srv_metrics s \<and> srv_zones s' = srv_zones s"
  by (auto simp: limiter_allows_def split: option.splits prod.splits)

text \<open>
  A query that is let through and understood is answered with the response to it, unless that
  cannot be encoded.
\<close>

lemma handle_udp_query_sends:
  assumes "ue_send_ok env"
    and "limiter_allows (ue_ticks env) addr s = (True, s1)" and "message_from_bytes H data = Some query"
    and "process_query H (srv_zones s) query = Inr r"
  shows "(\<exists>buf m s'. handle_udp_query H env data addr s = (Inr (), Some buf, s') \<and> sent_as H r buf m) \<or>
    (\<exists>e s'. handle_udp_query H env data addr s = (Inl e, None, s')) \<and>
      (\<exists>m \<in> set (udp_forms r). message_to_bytes H m = None)"
proof -
  let ?s = "with_metrics (record_question Udp query) s1"
  have "process_query H (srv_zones ?s) query = Inr r"
    using assms(4) limiter_allows_frame [OF assms(2)] by simp
  then have "handle_udp_query H env data addr s = send_response H env r ?s"
    using assms(2,3) by (simp add: handle_udp_query_def Let_def)
  moreover obtain res sent s' where "send_response H env r ?s = (res, sent, s')" by (metis prod.exhaust)
  moreover note send_response_cases [OF this]
  ultimately show ?thesis using assms(1) by fastforce
qed

section \<open>Properties of the UDP handler\<close>

text \<open>
  The messages the handler may have to encode for a datagram: the error response when it is refused
  by the rate limiter or not understood, and otherwise the forms of the response to the query in it.
\<close>

definition udp_replies :: "'n hickory \<Rightarrow> bool \<Rightarrow> 'n zone_store \<Rightarrow> bytes \<Rightarrow> 'n message list" where
  "udp_replies H allowed zs data =
     (if \<not> allowed then [error_message H data Refused]
      else case message_from_bytes H data of
        None \<Rightarrow> [error_message H data FormErr]
      | Some query \<Rightarrow> (case process_query H zs query of Inl _ \<Rightarrow> [] | Inr r \<Rightarrow> udp_forms r))"

text \<open>
  C15. Every datagram with an identifier is answered: with a socket that accepts datagrams, whatever
  the content, the rate limiter and the zones, one response goes out and it carries the identifier of
  the first two bytes. The one exception is a response that cannot be encoded: then the handler
  ends with an error and the client gets nothing.
\<close>

theorem udp_always_answered:
  assumes "ue_send_ok env"
    and "\<forall>q. message_from_bytes H (hi # lo # rest) = Some q \<longrightarrow> msg_id q = from_be_bytes hi lo"
  shows "let data = hi # lo # rest;
      replies = udp_replies H (fst (limiter_allows (ue_ticks env) addr s)) (srv_zones s) data in
    (\<exists>buf m s'. handle_udp_query H env data addr s = (Inr (), Some buf, s') \<and>
      m \<in> set replies \<and> message_to_bytes H m = Some buf \<and>
      msg_type m = MT_Response \<and> msg_id m = from_be_bytes hi lo) \<or>
    (\<exists>e s'. handle_udp_query H env data addr s = (Inl e, None, s')) \<and>
      (\<exists>m \<in> set replies. message_to_bytes H m = None)"
proof -
  let ?data = "hi # lo # rest"
  obtain ok s1 where lim: "limiter_allows (ue_ticks env) addr s = (ok, s1)" by fastforce
  have err: "(\<exists>buf s'. udp_send env (ok_or e (message_to_bytes H m)) s2 f = (Inr (), Some buf, s') \<and>
      message_to_bytes H m = Some buf) \<or>
    (\<exists>e' s'. udp_send env (ok_or e (message_to_bytes H m)) s2 f = (Inl e', None, s')) \<and> message_to_bytes H m = None"
    for e m s2 f
    using assms(1) by (cases "message_to_bytes H m") (simp_all add: udp_send_def)
  show ?thesis
  proof (cases "ok \<and> message_from_bytes H ?data \<noteq> None")
    case False
    define rc where "rc = (if ok then FormErr else Refused)"
    obtain e s2 f where "handle_udp_query H env ?data addr s =
        udp_send env (ok_or e (message_to_bytes H (error_message H ?data rc))) s2 f"
      using False lim by (cases ok) (auto simp: handle_udp_query_def rc_def)
    moreover have "udp_replies H ok (srv_zones s) ?data = [error_message H ?data rc]"
      using False by (auto simp: udp_replies_def rc_def)
    ultimately show ?thesis using err [of e "error_message H ?data rc" s2 f] by (auto simp: Let_def lim)
  next
    case True
    then obtain q where q: "message_from_bytes H ?data = Some q" by blast
    obtain r where r: "process_query H (srv_zones s) q = Inr r" using process_query_total by blast
    have forms: "udp_replies H ok (srv_zones s) ?data = udp_forms r" using True q r by (auto simp: udp_replies_def)
    have "msg_type r = MT_Response" "msg_id r = from_be_bytes hi lo"
      using process_query_header [OF r] q assms(2) by simp_all
    then have good: "m \<in> set (udp_forms r) \<and> message_to_bytes H m = Some buf \<and> msg_type m = MT_Response \<and>
        msg_id m = from_be_bytes hi lo" if "sent_as H r buf m" for buf m
      using sent_as_frame(1,2) [OF that] that udp_form_in by (auto simp: sent_as_def)
    from lim True have "limiter_allows (ue_ticks env) addr s = (True, s1)" by simp
    from handle_udp_query_sends [OF assms(1) this q r] good show ?thesis
      unfolding Let_def lim fst_conv forms by blast
  qed
qed

text \<open>A server with the test zone, and a handler's environment.\<close>

definition test_server :: "rate_limiter option \<Rightarrow> string list dns_server" where
  "test_server limiter = dns_server_new test_store ''127.0.0.1:53'' (metrics_new 0) limiter None"

definition test_env :: udp_env where
  "test_env = \<lparr>ue_ticks = tick 0, ue_elapsed = 3000, ue_send_ok = True\<rparr>"

theorem udp_always_answered_witness:
  "\<exists>buf m s'. handle_udp_query sample test_env [18, 52, 7] (V4 (10, 0, 0, 1)) (test_server None) =
     (Inr (), Some buf, s') \<and> message_to_bytes sample m = Some buf \<and> msg_type m = MT_Response \<and>
     msg_id m = 4660"
  using udp_always_answered [of test_env sample 18 52 "[7]" "V4 (10, 0, 0, 1)" "test_server None"]
  by (auto simp: Let_def sample_to_bytes_def sample_from_bytes_def test_env_def from_be_bytes_def)

text \<open>
  C9. The size of an answer. A response goes out whole when it fits the limit, which is 512 bytes
  without an OPT record and the server's own 4096 bytes with one, whatever the client announced.
  Otherwise it goes out with the TC bit and loses sections in order and only as far as needed: the
  answers; the authority section too when that does not fit; the additional section too when that does
  not fit either, and then it is sent whatever its size. All else is as in the response.
\<close>

theorem udp_response_size:
  assumes "fresh_message (message_new H)"
    and "limiter_allows (ue_ticks env) addr s = (True, s1)" and "message_from_bytes H data = Some query"
    and "process_query H (srv_zones s1) query = Inr r"
    and "handle_udp_query H env data addr s = (res, Some buf, s')"
  shows "let limit = (if msg_edns r = None then 512 else 4096);
      tc = r\<lparr>msg_truncated := True\<rparr>;
      size_ok = (\<lambda>m. \<exists>b. message_to_bytes H m = Some b \<and> length b \<le> limit) in
    \<exists>m. message_to_bytes H m = Some buf \<and> msg_id m = msg_id query \<and>
      m = (if size_ok r then r
           else if msg_answers r \<noteq> [] \<and> size_ok (tc\<lparr>msg_answers := []\<rparr>) then tc\<lparr>msg_answers := []\<rparr>
           else if msg_name_servers r \<noteq> [] \<and> size_ok (tc\<lparr>msg_answers := [], msg_name_servers := []\<rparr>)
           then tc\<lparr>msg_answers := [], msg_name_servers := []\<rparr>
           else tc\<lparr>msg_answers := [], msg_name_servers := [], msg_additionals := []\<rparr>)"
proof -
  let ?s = "with_metrics (record_question Udp query) s1"
  have "send_response H env r ?s = (res, Some buf, s')"
    using assms(2-5) by (simp add: handle_udp_query_def Let_def with_metrics_def)
  from send_response_cases [OF this] obtain m where m: "sent_as H r buf m" by auto
  have limit: "max_udp_size r = (if msg_edns r = None then 512 else 4096)"
    using process_query_payload [OF assms(1,4)]
    by (auto simp: max_udp_size_def MAX_DNS_PACKET_SIZE_def split: option.split)
  have ok: "fits H l x \<longleftrightarrow> (\<exists>b. message_to_bytes H x = Some b \<and> length b \<le> l)" for l and x :: "'a message"
    by (simp add: fits_def split: option.split)
  have "msg_id m = msg_id query" using sent_as_frame(1) [OF m] process_query_header(1) [OF assms(4)] by simp
  moreover note m [unfolded sent_as_def udp_form_def form_defs limit ok]
  ultimately show ?thesis unfolding Let_def by blast
qed

text \<open>Forty addresses at one name, asked for without EDNS.\<close>

definition big_server :: "string list dns_server" where
  "big_server =
     (let rs = map (\<lambda>i. from_rdata sample (''www'' # example_com) 60 (RD_A (10, 0, 0, of_nat i))) [0..<40]
      in (test_server None)\<lparr>srv_zones :=
           add_zone sample zone_store_new (zone_of_records sample example_com test_soa rs)\<rparr>)"

definition big_query :: "string list message" where
  "big_query = query_for (''www'' # example_com) RT_A None"

definition big_hickory :: "string list hickory" where
  "big_hickory = sample\<lparr>message_from_bytes := (\<lambda>_. Some big_query)\<rparr>"

lemma big_hickory_fresh: "fresh_message (message_new big_hickory)"
  using sample_fresh by (simp add: big_hickory_def sample_def)

theorem udp_response_size_witness:
  "\<exists>res buf s' m. handle_udp_query big_hickory test_env [] (V4 (10, 0, 0, 1)) big_server = (res, Some buf, s') \<and>
     message_to_bytes big_hickory m = Some buf \<and> msg_truncated m \<and> msg_answers m = []"
proof -
  obtain r where r: "process_query big_hickory (srv_zones big_server) big_query = Inr r"
    using process_query_total by blast
  have enc: "message_to_bytes big_hickory m \<noteq> None" for m
    by (simp add: big_hickory_def sample_def sample_to_bytes_def)
  let ?s = "with_metrics (record_question Udp big_query) big_server"
  have zs: "srv_zones ?s = srv_zones big_server" by (simp add: with_metrics_def)
  obtain res sent s' where out: "send_response big_hickory test_env r ?s = (res, sent, s')" by (metis prod.exhaust)
  with send_response_cases [OF out] enc obtain buf where
    "send_response big_hickory test_env r ?s = (Inr (), Some buf, s')" by (auto simp: test_env_def)
  moreover have lim: "limiter_allows (ue_ticks test_env) (V4 (10, 0, 0, 1)) big_server = (True, big_server)"
    by (simp add: limiter_allows_def big_server_def test_server_def dns_server_new_def Let_def)
  moreover have parse: "message_from_bytes big_hickory [] = Some big_query" by (simp add: big_hickory_def)
  ultimately have out: "handle_udp_query big_hickory test_env [] (V4 (10, 0, 0, 1)) big_server =
      (Inr (), Some buf, s')"
    using r zs by (simp add: handle_udp_query_def Let_def)
  have "case process_query big_hickory (srv_zones big_server) big_query of
      Inr r \<Rightarrow> msg_edns r = None \<and> map_option length (message_to_bytes big_hickory r) = Some 668 | Inl _ \<Rightarrow> False"
    by code_simp
  then have "msg_edns r = None" "map_option length (message_to_bytes big_hickory r) = Some 668"
    by (simp_all add: r)
  with udp_response_size [OF big_hickory_fresh lim parse r out]
  have "\<exists>m. message_to_bytes big_hickory m = Some buf \<and> msg_truncated m \<and> msg_answers m = []"
    by (auto simp: Let_def)
  with out show ?thesis by blast
qed

section \<open>Accounting\<close>

text \<open>What a call of the recording functions adds to the counters.\<close>

definition handled :: "metrics \<Rightarrow> u64" where
  "handled m = total_queries m + errors m + rate_limited m"

lemma handled_record [simp]:
  "handled (record_response rc m) = handled m" "handled (record_latency d m) = handled m"
  "handled (record_error m) = handled m + 1" "handled (record_rate_limited m) = handled m + 1"
  "handled (record_question p q m) = handled m + 1"
  by (auto simp: handled_def record_defs record_question_def Let_def split: response_code.split protocol.split
      option.split)

definition over_protocol :: "metrics \<Rightarrow> u64" where
  "over_protocol m = total_queries m - udp_queries m"

lemma over_protocol_record [simp]:
  "over_protocol (record_response rc m) = over_protocol m" "over_protocol (record_latency d m) = over_protocol m"
  "over_protocol (record_error m) = over_protocol m" "over_protocol (record_rate_limited m) = over_protocol m"
  "over_protocol (record_question Udp q m) = over_protocol m"
  by (auto simp: over_protocol_def record_defs record_question_def Let_def split: response_code.split
      protocol.split option.split)

lemma send_response_metrics:
  assumes "send_response H env r s = (res, sent, s')"
  shows "handled (srv_metrics s') = handled (srv_metrics s)"
    and "over_protocol (srv_metrics s') = over_protocol (srv_metrics s)"
  using assms
  by (auto simp: send_response_def udp_send_def Let_def
      split: option.splits truncation.splits if_splits)

text \<open>
  C28. Every datagram is counted once: as a query, as a parse error or as rate limited, whether or
  not the answer could be encoded and sent; a query counts as one over UDP. A rate-limited
  datagram is answered with \<open>Refused\<close> without being counted among the refused responses.
\<close>

theorem udp_accounting:
  assumes "handle_udp_query H env data addr s = (res, sent, s')"
  shows "total_queries (srv_metrics s') + errors (srv_metrics s') + rate_limited (srv_metrics s') =
      total_queries (srv_metrics s) + errors (srv_metrics s) + rate_limited (srv_metrics s) + 1 \<and>
    total_queries (srv_metrics s') - udp_queries (srv_metrics s') =
      total_queries (srv_metrics s) - udp_queries (srv_metrics s) \<and>
    (\<not> fst (limiter_allows (ue_ticks env) addr s) \<longrightarrow>
      rate_limited (srv_metrics s') = rate_limited (srv_metrics s) + 1 \<and>
      refused_responses (srv_metrics s') = refused_responses (srv_metrics s))"
proof -
  obtain ok s1 where lim: "limiter_allows (ue_ticks env) addr s = (ok, s1)" by fastforce
  note m1 = limiter_allows_frame [OF lim]
  have "handled (srv_metrics s') = handled (srv_metrics s) + 1 \<and>
      over_protocol (srv_metrics s') = over_protocol (srv_metrics s) \<and>
      (\<not> ok \<longrightarrow> srv_metrics s' = record_rate_limited (srv_metrics s))"
  proof (cases "ok \<and> message_from_bytes H data \<noteq> None")
    case False
    with assms lim m1 show ?thesis
      by (cases ok) (auto simp: handle_udp_query_def udp_send_def split: sum.splits if_splits)
  next
    case True
    then obtain q where q: "message_from_bytes H data = Some q" by blast
    let ?s = "with_metrics (record_question Udp q) s1"
    obtain r where r: "process_query H (srv_zones ?s) q = Inr r" using process_query_total by blast
    have "send_response H env r ?s = (res, sent, s')"
      using assms lim True q r by (simp add: handle_udp_query_def Let_def)
    from send_response_metrics [OF this] m1 True show ?thesis by simp
  qed
  then show ?thesis using lim by (auto simp: handled_def over_protocol_def record_rate_limited_def)
qed

theorem udp_accounting_witness:
  "let s = test_server (Some (rate_limiter_new 0 0));
       s' = snd (snd (handle_udp_query sample test_env [18, 52, 7] (V4 (10, 0, 0, 1)) s))
   in rate_limited (srv_metrics s') = 1 \<and> refused_responses (srv_metrics s') = 0 \<and>
      total_queries (srv_metrics s') + errors (srv_metrics s') + rate_limited (srv_metrics s') = 1"
proof -
  let ?s = "test_server (Some (rate_limiter_new 0 0))" and ?a = "V4 (10, 0, 0, 1)"
  obtain res sent s' where out: "handle_udp_query sample test_env [18, 52, 7] ?a ?s = (res, sent, s')"
    by (cases "handle_udp_query sample test_env [18, 52, 7] ?a ?s") auto
  have no: "\<not> fst (limiter_allows (ue_ticks test_env) ?a ?s)" by code_simp
  have "srv_metrics ?s = metrics_new 0" by (simp add: test_server_def dns_server_new_def)
  then have "total_queries (srv_metrics s') + errors (srv_metrics s') + rate_limited (srv_metrics s') = 1"
    "rate_limited (srv_metrics s') = 1" "refused_responses (srv_metrics s') = 0"
    using udp_accounting [OF out] no by (auto simp: metrics_new_def)
  then show ?thesis unfolding Let_def out snd_conv by (intro conjI)
qed

end
