(* ===== verification/Server_Tcp.thy ===== *)
theory Server_Tcp
  imports Server_Udp
begin

text \<open>
  \<open>src/server.rs\<close>, the TCP side: the accept loop and the handler of a connection, with its length
  prefixes, its limit on queries, zone transfers and every way out. A stream is the bytes the
  client will still send, what comes after them (it closes, it fails, or it stays silent), the
  bytes written so far and the number of further writes that succeed. Between two queries of a
  connection other tasks may change the shared state: \<open>te_others\<close> is what they do.
\<close>

section \<open>Streams\<close>

datatype stream_end = Closes | Fails | Silent

record tcp_stream =
  st_in :: bytes
  st_end :: stream_end
  st_out :: bytes
  st_writes :: nat

datatype read_result = Read_ok bytes tcp_stream | Read_eof | Read_error | Read_pending

definition read_exact :: "nat \<Rightarrow> tcp_stream \<Rightarrow> read_result" where
  "read_exact n st =
     (if n \<le> length (st_in st) then Read_ok (take n (st_in st)) (st\<lparr>st_in := drop n (st_in st)\<rparr>)
      else case st_end st of Closes \<Rightarrow> Read_eof | Fails \<Rightarrow> Read_error | Silent \<Rightarrow> Read_pending)"

definition write_all :: "bytes \<Rightarrow> tcp_stream \<Rightarrow> tcp_stream option" where
  "write_all bs st =
     (if st_writes st = 0 then None
      else Some (st\<lparr>st_out := st_out st @ bs, st_writes := st_writes st - 1\<rparr>))"

text \<open>The length prefix, \<open>(buf.len() as u16).to_be_bytes()\<close>, and the message.\<close>

definition length_prefix :: "bytes \<Rightarrow> bytes" where
  "length_prefix buf = to_be_bytes (word_of_nat (length buf))"

definition write_message :: "bytes \<Rightarrow> tcp_stream \<Rightarrow> (server_error + unit) \<times> tcp_stream" where
  "write_message buf st =
     (case write_all (length_prefix buf) st of
        None \<Rightarrow> (Inl Io_error, st)
      | Some st \<Rightarrow> (case write_all buf st of None \<Rightarrow> (Inl Io_error, st) | Some st \<Rightarrow> (Inr (), st)))"

section \<open>The handler of a connection\<close>

record 'n tcp_env =
  te_ticks :: "nat \<Rightarrow> ticks"
  te_elapsed :: "nat \<Rightarrow> nat"
  te_others :: "nat \<Rightarrow> 'n dns_server \<Rightarrow> 'n dns_server"

text \<open>How a round of the loop ends; \<open>Blocks\<close> is a read without a timeout that never completes.\<close>

datatype 'n tcp_next =
    Next "'n dns_server" tcp_stream
  | Return "server_error + unit" "'n dns_server" tcp_stream
  | Blocks "'n dns_server" tcp_stream

definition tcp_reply ::
  "server_error + bytes \<Rightarrow> 'n dns_server \<Rightarrow> tcp_stream \<Rightarrow>
   ('n dns_server \<Rightarrow> tcp_stream \<Rightarrow> 'n tcp_next) \<Rightarrow> 'n tcp_next" where
  "tcp_reply buf s st k =
     (case buf of
        Inl e \<Rightarrow> Return (Inl e) s st
      | Inr b \<Rightarrow>
          (case write_message b st of
             (Inl e, st) \<Rightarrow> Return (Inl e) s st
           | (Inr _, st) \<Rightarrow> k s st))"

definition is_axfr :: "'n message \<Rightarrow> bool" where
  "is_axfr query = (case first_query query of Some q \<Rightarrow> q_type q = RT_AXFR | None \<Rightarrow> False)"

definition axfr_message :: "'n hickory \<Rightarrow> 'n message \<Rightarrow> 'n question \<Rightarrow> 'n rr \<Rightarrow> 'n message" where
  "axfr_message H query question r =
     add_answers [r] (add_query question
       ((message_new H)\<lparr>msg_id := msg_id query, msg_type := MT_Response, msg_op_code := OP_Query,
          msg_authoritative := True\<rparr>))"

fun axfr_send ::
  "'n hickory \<Rightarrow> 'n message \<Rightarrow> 'n question \<Rightarrow> 'n rr list \<Rightarrow> 'n dns_server \<Rightarrow> tcp_stream \<Rightarrow>
   ('n dns_server \<Rightarrow> tcp_stream \<Rightarrow> 'n tcp_next) \<Rightarrow> 'n tcp_next" where
  "axfr_send H query question [] s st k = k s st"
| "axfr_send H query question (r # rs) s st k =
     tcp_reply (ok_or (Context ''Failed to encode AXFR message'')
         (message_to_bytes H (axfr_message H query question r))) s st
       (\<lambda>s st. axfr_send H query question rs s st k)"

definition refused_transfer :: "'n hickory \<Rightarrow> 'n message \<Rightarrow> 'n question \<Rightarrow> 'n message" where
  "refused_transfer H query question =
     add_query question ((message_new H)\<lparr>msg_id := msg_id query, msg_type := MT_Response,
       msg_response_code := Refused\<rparr>)"

definition handle_axfr ::
  "'n hickory \<Rightarrow> nat \<Rightarrow> 'n message \<Rightarrow> 'n question \<Rightarrow> 'n dns_server \<Rightarrow> tcp_stream \<Rightarrow> 'n tcp_next" where
  "handle_axfr H elapsed query question s st =
     (case find_zone H (srv_zones s) (q_name question) of
        Some z \<Rightarrow>
          axfr_send H query question (get_all_records H z) s st (\<lambda>s st.
            Return (Inr ()) (with_metrics (record_latency elapsed \<circ> record_response NoError) s) st)
      | None \<Rightarrow>
          tcp_reply (ok_or (Context ''Failed to encode refused response'')
              (message_to_bytes H (refused_transfer H query question))) s st (\<lambda>s st.
            Return (Inr ()) (with_metrics (record_latency elapsed \<circ> record_response Refused) s) st))"

definition rate_limit_message :: "'n hickory \<Rightarrow> 'n message \<Rightarrow> 'n message" where
  "rate_limit_message H query =
     (message_new H)\<lparr>msg_id := msg_id query, msg_type := MT_Response, msg_response_code := Refused\<rparr>"

text \<open>The query after it is counted: a transfer, or a response and the next round.\<close>

definition answer_tcp_query ::
  "'n hickory \<Rightarrow> nat \<Rightarrow> 'n message \<Rightarrow> 'n dns_server \<Rightarrow> tcp_stream \<Rightarrow> 'n tcp_next" where
  "answer_tcp_query H elapsed query s st =
     (case (is_axfr query, first_query query) of
        (True, Some question) \<Rightarrow> handle_axfr H elapsed query question s st
      | _ \<Rightarrow>
          (case process_query H (srv_zones s) query of
             Inl e \<Rightarrow>
               Return (Inl (Process_error e)) (with_metrics (record_latency elapsed \<circ> record_error) s) st
           | Inr response \<Rightarrow>
               tcp_reply (ok_or (Context ''Failed to encode DNS response'') (message_to_bytes H response)) s st
                 (\<lambda>s st. Next (with_metrics
                    (record_latency elapsed \<circ> record_response (msg_response_code response)) s) st)))"

definition handle_tcp_message ::
  "'n hickory \<Rightarrow> ticks \<Rightarrow> nat \<Rightarrow> ip_addr \<Rightarrow> bytes \<Rightarrow> 'n dns_server \<Rightarrow> tcp_stream \<Rightarrow> 'n tcp_next" where
  "handle_tcp_message H tk elapsed addr msg_buf s st =
     (case message_from_bytes H msg_buf of
        None \<Rightarrow>
          tcp_reply (ok_or (Context ''Failed to encode FORMERR response'')
              (message_to_bytes H (error_message H msg_buf FormErr)))
            (with_metrics (record_response FormErr \<circ> record_error) s) st
            (\<lambda>s st. Return (Inr ()) (with_metrics (record_latency elapsed) s) st)
      | Some query \<Rightarrow>
          (case limiter_allows tk addr s of
             (False, s) \<Rightarrow>
               tcp_reply (ok_or (Context ''Failed to encode rate limit response'')
                   (message_to_bytes H (rate_limit_message H query)))
                 (with_metrics (record_response Refused \<circ> record_rate_limited) s) st
                 (\<lambda>s st. Return (Inr ()) (with_metrics (record_latency elapsed) s) st)
           | (True, s) \<Rightarrow>
               answer_tcp_query H elapsed query (with_metrics (record_question Tcp query) s) st))"

text \<open>One round of the loop, after the check of the limit.\<close>

definition tcp_round ::
  "'n hickory \<Rightarrow> ticks \<Rightarrow> nat \<Rightarrow> ip_addr \<Rightarrow> u64 \<Rightarrow> 'n dns_server \<Rightarrow> tcp_stream \<Rightarrow> 'n tcp_next" where
  "tcp_round H tk elapsed addr queries_handled s st =
     (let closed = record_tcp_connection_closed queries_handled in
      case read_exact 2 st of
        Read_eof \<Rightarrow> Return (Inr ()) (with_metrics closed s) st
      | Read_error \<Rightarrow> Return (Inl (Context ''Failed to read length prefix'')) (with_metrics closed s) st
      | Read_pending \<Rightarrow> Return (Inr ()) (with_metrics (closed \<circ> record_tcp_connection_timeout) s) st
      | Read_ok len_buf st \<Rightarrow>
          (let msg_len = unat (from_be_bytes (len_buf ! 0) (len_buf ! 1)) in
           if msg_len = 0 \<or> MAX_TCP_DNS_PACKET_SIZE < msg_len
           then Return (Inr ()) (with_metrics record_error s) st
           else
             case read_exact msg_len st of
               Read_ok msg_buf st \<Rightarrow> handle_tcp_message H tk elapsed addr msg_buf s st
             | Read_pending \<Rightarrow> Blocks s st
             | _ \<Rightarrow> Return (Inl (Context ''Failed to read DNS message'')) s st))"

lemma unat_succ: "q < n \<Longrightarrow> unat (q + 1) = unat q + 1" for q n :: u64
proof -
  assume "q < n"
  then have "unat q < unat n" by (simp add: word_less_nat_alt)
  moreover have "unat n < 2 ^ 64" by (rule order_less_le_trans [OF unsigned_less]) simp
  ultimately show ?thesis by (simp add: unat_word_ariths)
qed

function tcp_loop ::
  "'n hickory \<Rightarrow> 'n tcp_env \<Rightarrow> ip_addr \<Rightarrow> usize \<Rightarrow> u64 \<Rightarrow> 'n dns_server \<Rightarrow> tcp_stream \<Rightarrow> 'n tcp_next" where
  "tcp_loop H env addr max_queries queries_handled s st =
     (let i = unat queries_handled; s = te_others env i s in
      if max_queries \<le> queries_handled
      then Return (Inr ()) (with_metrics (record_tcp_connection_closed queries_handled) s) st
      else
        case tcp_round H (te_ticks env i) (te_elapsed env i) addr queries_handled s st of
          Next s st \<Rightarrow> tcp_loop H env addr max_queries (queries_handled + 1) s st
        | r \<Rightarrow> r)"
  by pat_completeness auto
termination
proof (relation "measure (\<lambda>(H, env, addr, max_queries, q, s, st). unat max_queries - unat q)")
  fix max_queries q :: u64
  assume "\<not> max_queries \<le> q"
  then have "q < max_queries" by simp
  then have "unat (q + 1) = unat q + 1" "unat q < unat max_queries"
    by (simp_all add: unat_succ word_less_nat_alt)
  then show "((H, env, addr, max_queries, q + 1, s', st'), H, env, addr, max_queries, q, s, st)
      \<in> measure (\<lambda>(H, env, addr, max_queries, q, s, st). unat max_queries - unat q)" for H env addr s' st' s st
    by simp
qed simp

declare tcp_loop.simps [simp del]

definition tcp_max_queries :: "tcp_config option \<Rightarrow> usize" where
  "tcp_max_queries cfg = (case cfg of Some c \<Rightarrow> max_queries_per_connection c | None \<Rightarrow> 100)"

definition handle_tcp_connection ::
  "'n hickory \<Rightarrow> 'n tcp_env \<Rightarrow> ip_addr \<Rightarrow> 'n dns_server \<Rightarrow> tcp_stream \<Rightarrow> 'n tcp_next" where
  "handle_tcp_connection H env addr s st =
     tcp_loop H env addr (tcp_max_queries (srv_tcp_config s)) 0 (with_metrics record_tcp_connection s) st"

section \<open>The accept loop\<close>

datatype tcp_event = Accepted tcp_stream ip_addr | Accept_error | Tcp_cancelled

text \<open>The tasks \<open>run_tcp\<close> spawns, and whether it has returned.\<close>

fun run_tcp :: "tcp_event list \<Rightarrow> (tcp_stream \<times> ip_addr) list \<times> bool" where
  "run_tcp [] = ([], False)"
| "run_tcp (Accepted stream addr # es) =
     (let (spawned, ended) = run_tcp es in ((stream, addr) # spawned, ended))"
| "run_tcp (Accept_error # es) = run_tcp es"
| "run_tcp (Tcp_cancelled # es) = ([], True)"

section \<open>What a connection writes\<close>

definition frames :: "bytes list \<Rightarrow> bytes" where
  "frames bufs = concat (map (\<lambda>b. length_prefix b @ b) bufs)"

lemma frames_simps [simp]:
  "frames [] = []" "frames (b # bs) = length_prefix b @ b @ frames bs" "frames (bs @ cs) = frames bs @ frames cs"
  by (simp_all add: frames_def)

text \<open>How a client reads the stream back into messages.\<close>

function deframe :: "bytes \<Rightarrow> bytes list" where
  "deframe bs =
     (case bs of
        hi # lo # rest \<Rightarrow>
          (let n = unat (from_be_bytes hi lo) in
           if n \<le> length rest then take n rest # deframe (drop n rest) else [])
      | _ \<Rightarrow> [])"
  by pat_completeness auto
termination by (relation "measure length") auto

declare deframe.simps [simp del]

lemma deframe_frames: "\<forall>b \<in> set bufs. length b < 2 ^ 16 \<Longrightarrow> deframe (frames bufs) = bufs"
proof (induction bufs)
  case Nil
  then show ?case by (simp add: deframe.simps)
next
  case (Cons b bs)
  let ?len = "word_of_nat (length b) :: u16"
  have prefix: "length_prefix b = [ucast (drop_bit 8 ?len), ucast ?len]"
    by (simp add: length_prefix_def to_be_bytes_def)
  have n: "unat (from_be_bytes (ucast (drop_bit 8 ?len)) (ucast ?len)) = length b"
    using Cons.prems by (simp only: from_to_be_bytes) (simp add: unat_of_nat)
  have "deframe (length_prefix b @ b @ frames bs) = b # deframe (frames bs)"
    by (subst deframe.simps) (simp only: prefix append.simps list.case Let_def n, simp)
  with Cons show ?case by simp
qed

definition responses :: "'n hickory \<Rightarrow> bytes list \<Rightarrow> bool" where
  "responses H bufs \<longleftrightarrow> (\<forall>b \<in> set bufs. \<exists>m. message_to_bytes H m = Some b \<and> msg_type m = MT_Response)"

lemma responses_simps [simp]:
  "responses H []" "responses H (bs @ cs) \<longleftrightarrow> responses H bs \<and> responses H cs"
  by (auto simp: responses_def)

text \<open>Whole frames, and after a failed write at most the prefix of one more.\<close>

definition wrote :: "'n hickory \<Rightarrow> bool \<Rightarrow> bytes \<Rightarrow> bytes \<Rightarrow> bool" where
  "wrote H broken out0 out \<longleftrightarrow>
     (\<exists>bufs part. responses H bufs \<and> out = out0 @ frames bufs @ part \<and>
        (part = [] \<or> broken \<and> (\<exists>b. part = length_prefix b)))"

lemma wrote_none [simp]: "wrote H broken out0 out0"
  unfolding wrote_def by (rule exI [of _ "[]"]) simp

lemma wrote_prefix: "wrote H True out0 (out0 @ length_prefix b)"
  unfolding wrote_def by (rule exI [of _ "[]"]) auto

lemma wrote_trans:
  assumes "wrote H broken (out0 @ frames bs) out" and "responses H bs"
  shows "wrote H broken out0 out"
proof -
  from assms(1) obtain bufs part where "responses H bufs" "out = out0 @ frames (bs @ bufs) @ part"
    "part = [] \<or> broken \<and> (\<exists>b. part = length_prefix b)" by (auto simp: wrote_def)
  with assms(2) show ?thesis unfolding wrote_def by (intro exI [of _ "bs @ bufs"] exI [of _ part]) simp
qed

fun writes_frames :: "'n hickory \<Rightarrow> bytes \<Rightarrow> 'n tcp_next \<Rightarrow> bool" where
  "writes_frames H out0 (Next s st) \<longleftrightarrow> wrote H False out0 (st_out st)"
| "writes_frames H out0 (Blocks s st) \<longleftrightarrow> wrote H False out0 (st_out st)"
| "writes_frames H out0 (Return r s st) \<longleftrightarrow> wrote H (r = Inl Io_error) out0 (st_out st)"

lemma writes_frames_trans:
  "writes_frames H (out0 @ frames bs) x \<Longrightarrow> responses H bs \<Longrightarrow> writes_frames H out0 x"
  by (cases x) (auto intro: wrote_trans)

lemma tcp_reply_frames:
  assumes "\<And>b. buf = Inr b \<Longrightarrow> responses H [b]" and "\<And>st'. writes_frames H (st_out st') (k s st')"
  shows "writes_frames H (st_out st) (tcp_reply buf s st k)"
proof (cases buf)
  case (Inl e)
  then show ?thesis by (simp add: tcp_reply_def)
next
  case (Inr b)
  note resp = assms(1) [OF Inr]
  consider "st_writes st = 0" | "st_writes st = 1" | "st_writes st > 1" by linarith
  then show ?thesis
  proof cases
    case 3
    let ?st = "st\<lparr>st_out := st_out st @ frames [b], st_writes := st_writes st - 2\<rparr>"
    have "tcp_reply buf s st k = k s ?st"
      using Inr 3 by (simp add: tcp_reply_def write_message_def write_all_def numeral_2_eq_2)
    with assms(2) [of ?st] resp show ?thesis by (auto intro: writes_frames_trans [where bs = "[b]"])
  qed (use Inr in \<open>simp_all add: tcp_reply_def write_message_def write_all_def wrote_prefix\<close>)
qed

lemma reply_encodes:
  assumes "ok_or e (message_to_bytes H m) = Inr b" and "msg_type m = MT_Response"
  shows "responses H [b]"
  using assms by (auto simp: responses_def res_simps)

lemma axfr_send_frames:
  assumes "\<And>st'. writes_frames H (st_out st') (k s st')"
  shows "writes_frames H (st_out st) (axfr_send H query question rs s st k)"
proof (induction rs arbitrary: st)
  case (Cons r rs)
  have "msg_type (axfr_message H query question r) = MT_Response"
    by (simp add: axfr_message_def add_answers_def add_query_def)
  then show ?case using Cons by (auto intro!: tcp_reply_frames reply_encodes)
qed (simp add: assms)

lemma answer_tcp_query_frames: "writes_frames H (st_out st) (answer_tcp_query H d query s st)"
proof -
  have "msg_type (refused_transfer H query q) = MT_Response" for q
    by (simp add: refused_transfer_def add_query_def)
  then have axfr: "writes_frames H (st_out st) (handle_axfr H d query q s st)" for q
    unfolding handle_axfr_def
    by (auto split: option.split intro!: axfr_send_frames tcp_reply_frames reply_encodes)
  obtain r where r: "process_query H (srv_zones s) query = Inr r" using process_query_total by blast
  show ?thesis
    using axfr process_query_header(2) [OF r]
    by (auto simp: answer_tcp_query_def r split: option.split bool.split intro!: tcp_reply_frames reply_encodes)
qed

lemma handle_tcp_message_frames: "writes_frames H (st_out st) (handle_tcp_message H tk d addr buf s st)"
proof -
  have "msg_type (rate_limit_message H q) = MT_Response" for q
    by (simp add: rate_limit_message_def)
  then show ?thesis
    by (auto simp: handle_tcp_message_def answer_tcp_query_frames
        split: option.split bool.split prod.split intro!: tcp_reply_frames reply_encodes)
qed

lemma read_exact_out: "read_exact n st = Read_ok buf st' \<Longrightarrow> st_out st' = st_out st"
  by (auto simp: read_exact_def split: if_splits stream_end.splits)

lemma tcp_round_frames: "writes_frames H (st_out st) (tcp_round H tk d addr q s st)"
proof (cases "read_exact 2 st")
  case (Read_ok len st1)
  note out1 = read_exact_out [OF Read_ok]
  let ?n = "unat (from_be_bytes (len ! 0) (len ! 1))"
  show ?thesis
  proof (cases "read_exact ?n st1")
    case ok2: (Read_ok buf st2)
    have "writes_frames H (st_out st) (handle_tcp_message H tk d addr buf s st2)"
      using handle_tcp_message_frames [of H st2] out1 read_exact_out [OF ok2] by simp
    with Read_ok ok2 out1 show ?thesis by (simp add: tcp_round_def Let_def)
  qed (use Read_ok out1 in \<open>simp_all add: tcp_round_def Let_def\<close>)
qed (simp_all add: tcp_round_def Let_def)

lemma tcp_loop_frames: "writes_frames H (st_out st) (tcp_loop H env addr mx q s st)"
proof (induction H env addr mx q s st rule: tcp_loop.induct)
  case (1 H env addr mx q s st)
  let ?s = "te_others env (unat q) s"
  let ?x = "tcp_round H (te_ticks env (unat q)) (te_elapsed env (unat q)) addr q ?s st"
  show ?case
  proof (cases "mx \<le> q")
    case True
    then show ?thesis by (subst tcp_loop.simps) (simp add: Let_def)
  next
    case False
    note round = tcp_round_frames [of H st "te_ticks env (unat q)" "te_elapsed env (unat q)" addr q ?s]
    show ?thesis
    proof (cases ?x)
      case (Next s' st')
      then have "tcp_loop H env addr mx q s st = tcp_loop H env addr mx (q + 1) s' st'"
        using False by (subst tcp_loop.simps) (simp add: Let_def)
      moreover obtain bufs where "responses H bufs" "st_out st' = st_out st @ frames bufs"
        using round Next by (auto simp: wrote_def)
      ultimately show ?thesis
        using "1.IH" [OF refl refl False Next] by (auto intro: writes_frames_trans)
    qed (use False round in \<open>subst tcp_loop.simps, simp add: Let_def\<close>)+
  qed
qed

section \<open>What a connection counts\<close>

lemma tcp_reply_cases:
  assumes "\<And>e st'. P (Return (Inl e) s st')" and "\<And>st'. P (k s st')"
  shows "P (tcp_reply buf s st k)"
  using assms by (auto simp: tcp_reply_def split: sum.split prod.split)

lemma axfr_send_cases:
  assumes "\<And>e st'. P (Return (Inl e) s st')" and "\<And>st'. P (k s st')"
  shows "P (axfr_send H query question rs s st k)"
  using assms by (induction rs arbitrary: st) (auto intro: tcp_reply_cases)

text \<open>The counters of connections, in this order: queries over TCP, queries of closed connections, connections.\<close>

definition tcp_counters :: "'n dns_server \<Rightarrow> u64 \<times> u64 \<times> u64" where
  "tcp_counters s =
     (tcp_queries (srv_metrics s), tcp_queries_per_connection (srv_metrics s), tcp_connections (srv_metrics s))"

lemma tcp_counters_record [simp]:
  "tcp_counters (with_metrics (record_latency d) s) = tcp_counters s"
  "tcp_counters (with_metrics (record_latency d \<circ> record_response rc) s) = tcp_counters s"
  "tcp_counters (with_metrics (record_latency d \<circ> record_error) s) = tcp_counters s"
  "tcp_counters (with_metrics (record_response rc \<circ> record_error) s) = tcp_counters s"
  "tcp_counters (with_metrics (record_response rc \<circ> record_rate_limited) s) = tcp_counters s"
  "tcp_counters (with_metrics record_error s) = tcp_counters s"
  by (simp_all add: tcp_counters_def record_defs Let_def split: response_code.split)

text \<open>The counters after a round that began with \<open>q\<close> queries handled.\<close>

fun counts_round :: "u64 \<Rightarrow> u64 \<times> u64 \<times> u64 \<Rightarrow> 'n tcp_next \<Rightarrow> bool" where
  "counts_round q (a, b, c) (Next s st) \<longleftrightarrow> tcp_counters s = (a + 1, b, c)"
| "counts_round q (a, b, c) (Blocks s st) \<longleftrightarrow> tcp_counters s = (a, b, c)"
| "counts_round q (a, b, c) (Return r s st) \<longleftrightarrow>
     tcp_counters s = (a, b, c) \<or> tcp_counters s = (a, b + q, c) \<or> tcp_counters s = (a + 1, b, c)"

lemmas tcp_reply_counts = tcp_reply_cases [where P = "counts_round q t" for q t]
lemmas axfr_send_counts = axfr_send_cases [where P = "counts_round q t" for q t]

lemma answer_tcp_query_counts:
  assumes "tcp_counters s = (a + 1, b, c)"
  shows "counts_round q (a, b, c) (answer_tcp_query H d query s st)"
  using assms
  by (auto simp: answer_tcp_query_def handle_axfr_def split: option.split bool.split sum.split
      intro!: tcp_reply_counts axfr_send_counts)

lemma handle_tcp_message_counts:
  assumes "tcp_counters s = (a, b, c)"
  shows "counts_round q (a, b, c) (handle_tcp_message H tk d addr buf s st)"
proof (cases "message_from_bytes H buf")
  case None
  with assms show ?thesis by (auto simp: handle_tcp_message_def intro!: tcp_reply_counts)
next
  case (Some query)
  obtain ok s1 where lim: "limiter_allows tk addr s = (ok, s1)" by fastforce
  with assms limiter_allows_frame [OF lim] have s1: "tcp_counters s1 = (a, b, c)"
    by (simp add: tcp_counters_def)
  then have "tcp_counters (with_metrics (record_question Tcp query) s1) = (a + 1, b, c)"
    by (auto simp: tcp_counters_def record_question_def record_defs Let_def split: option.split)
  from answer_tcp_query_counts [OF this] s1 Some lim show ?thesis
    by (cases ok) (auto simp: handle_tcp_message_def intro!: tcp_reply_counts)
qed

lemma tcp_round_counts:
  assumes "tcp_counters s = (a, b, c)"
  shows "counts_round q (a, b, c) (tcp_round H tk d addr q s st)"
proof -
  have closed: "tcp_counters (with_metrics (record_tcp_connection_closed q) s) = (a, b + q, c)"
    "tcp_counters (with_metrics (record_tcp_connection_closed q \<circ> record_tcp_connection_timeout) s) = (a, b + q, c)"
    using assms by (auto simp: tcp_counters_def record_defs)
  note body = handle_tcp_message_counts [OF assms]
  show ?thesis
    using closed body assms
    by (auto simp: tcp_round_def Let_def split: read_result.split)
qed

text \<open>The final counters of a connection.\<close>

fun counts_connection :: "nat \<Rightarrow> u64 \<times> u64 \<times> u64 \<Rightarrow> 'n tcp_next \<Rightarrow> bool" where
  "counts_connection n (a, b, c) (Next s st) \<longleftrightarrow> False"
| "counts_connection n (a, b, c) (Blocks s st) \<longleftrightarrow> (\<exists>k \<le> n. tcp_counters s = (a + of_nat k, b, c))"
| "counts_connection n (a, b, c) (Return r s st) \<longleftrightarrow>
     (\<exists>k \<le> n. tcp_counters s = (a + of_nat k, b, c) \<or> tcp_counters s = (a + of_nat k, b + of_nat k, c))"

lemma tcp_loop_counts:
  assumes "te_others env = (\<lambda>_ s. s)" and "q \<le> mx" and "tcp_counters s = (a + q, b, c)"
  shows "counts_connection (unat mx) (a, b, c) (tcp_loop H env addr mx q s st)"
  using assms
proof (induction H env addr mx q s st rule: tcp_loop.induct)
  case (1 H env addr mx q s st)
  let ?x = "tcp_round H (te_ticks env (unat q)) (te_elapsed env (unat q)) addr q s st"
  have others: "te_others env (unat q) s = s" using "1.prems"(1) by simp
  have q: "unat q \<le> unat mx" "word_of_nat (unat q) = q" using "1.prems"(2) by (simp_all add: word_le_nat_alt)
  show ?case
  proof (cases "mx \<le> q")
    case True
    have "tcp_counters (with_metrics (record_tcp_connection_closed q) s) = (a + q, b + q, c)"
      using "1.prems"(3) by (simp add: tcp_counters_def record_defs)
    with True others q show ?thesis
      by (subst tcp_loop.simps) (auto simp: Let_def intro!: exI [of _ "unat q"])
  next
    case False
    then have lt: "q < mx" by simp
    note round = tcp_round_counts [OF "1.prems"(3), of q H "te_ticks env (unat q)" "te_elapsed env (unat q)" addr st]
    have q1: "Suc (unat q) \<le> unat mx" "word_of_nat (Suc (unat q)) = q + 1"
      using lt q(2) by (simp_all add: word_less_nat_alt)
    show ?thesis
    proof (cases ?x)
      case (Next s' st')
      have "tcp_loop H env addr mx q s st = tcp_loop H env addr mx (q + 1) s' st'"
        using False Next others by (subst tcp_loop.simps) (simp add: Let_def)
      moreover have "q + 1 \<le> mx" using lt unat_succ [OF lt] by (simp add: word_le_nat_alt word_less_nat_alt)
      ultimately show ?thesis
        using "1.IH" [OF refl refl False, of s' st'] Next others "1.prems"(1) round by (simp add: add.assoc)
    next
      case (Return r s' st')
      then have "tcp_loop H env addr mx q s st = Return r s' st'"
        using False others by (subst tcp_loop.simps) (simp add: Let_def)
      moreover have "tcp_counters s' = (a + q, b, c) \<or> tcp_counters s' = (a + q, b + q, c) \<or>
          tcp_counters s' = (a + q + 1, b, c)" using round Return by simp
      ultimately show ?thesis
        using q q1 by (auto intro: exI [of _ "unat q"] exI [of _ "Suc (unat q)"] simp: add.assoc)
    next
      case (Blocks s' st')
      then have "tcp_loop H env addr mx q s st = Blocks s' st'"
        using False others by (subst tcp_loop.simps) (simp add: Let_def)
      then show ?thesis using round Blocks q by (auto intro: exI [of _ "unat q"])
    qed
  qed
qed

section \<open>Zone transfers\<close>

lemma tcp_reply_ok:
  assumes "2 \<le> st_writes st"
  shows "tcp_reply (Inr b) s st k =
    k s (st\<lparr>st_out := st_out st @ frames [b], st_writes := st_writes st - 2\<rparr>)"
  using assms by (simp add: tcp_reply_def write_message_def write_all_def numeral_2_eq_2)

lemma axfr_send_ok:
  assumes "2 * length rs \<le> st_writes st"
    and "map Some bufs = map (\<lambda>r. message_to_bytes H (axfr_message H query question r)) rs"
  shows "axfr_send H query question rs s st k =
    k s (st\<lparr>st_out := st_out st @ frames bufs, st_writes := st_writes st - 2 * length rs\<rparr>)"
  using assms
proof (induction rs arbitrary: st bufs)
  case (Cons r rs)
  then obtain b bs where "bufs = b # bs" "message_to_bytes H (axfr_message H query question r) = Some b"
    "map Some bs = map (\<lambda>r. message_to_bytes H (axfr_message H query question r)) rs" by auto
  with Cons show ?case by (simp add: tcp_reply_ok)
qed simp

section \<open>Properties of the TCP handler\<close>

text \<open>One query, then a length prefix of zero, from a client of a server that allows two queries.\<close>

definition test_tcp_env :: "string list tcp_env" where
  "test_tcp_env = \<lparr>te_ticks = (\<lambda>_. tick 0), te_elapsed = (\<lambda>_. 3000), te_others = (\<lambda>_ s. s)\<rparr>"

definition test_stream :: tcp_stream where
  "test_stream = \<lparr>st_in = [0, 3, 18, 52, 7, 0, 0], st_end = Closes, st_out = [], st_writes = 100\<rparr>"

definition tcp_server :: "string list dns_server" where
  "tcp_server = (test_server None)\<lparr>srv_tcp_config :=
     Some \<lparr>idle_timeout = 30, max_queries_per_connection = 2\<rparr>\<rparr>"

definition tcp_hickory :: "string list hickory" where
  "tcp_hickory = big_hickory\<lparr>message_to_bytes := (\<lambda>m. map_option (take 65535) (sample_to_bytes m))\<rparr>"

lemma tcp_hickory_bound: "\<forall>m b. message_to_bytes tcp_hickory m = Some b \<longrightarrow> length b < 2 ^ 16"
  by (auto simp: tcp_hickory_def)

lemma tcp_hickory_encodes: "\<forall>m. message_to_bytes tcp_hickory m \<noteq> None"
  by (auto simp: tcp_hickory_def sample_to_bytes_def)

text \<open>
  C10. What a connection writes is a sequence of messages, each after its length. When the handler
  returns without an error the bytes written, read back with the length prefixes, are whole
  messages without a rest, and each is the encoding of a response; this covers answers, error
  replies and transfers, and holds whatever other tasks do meanwhile.
\<close>

theorem tcp_output_framed:
  assumes "st_out st = []" and "\<forall>m b. message_to_bytes H m = Some b \<longrightarrow> length b < 2 ^ 16"
    and "handle_tcp_connection H env addr s st = Return (Inr ()) s' st'"
  shows "frames (deframe (st_out st')) = st_out st' \<and>
    (\<forall>b \<in> set (deframe (st_out st')). \<exists>m. message_to_bytes H m = Some b \<and> msg_type m = MT_Response)"
proof -
  have "writes_frames H (st_out st) (handle_tcp_connection H env addr s st)"
    unfolding handle_tcp_connection_def by (rule tcp_loop_frames)
  then obtain bufs where bufs: "responses H bufs" "st_out st' = frames bufs"
    using assms(1,3) by (auto simp: wrote_def)
  then have "\<forall>b \<in> set bufs. length b < 2 ^ 16" using assms(2) by (force simp: responses_def)
  with bufs deframe_frames show ?thesis by (auto simp: responses_def)
qed

theorem tcp_output_framed_witness:
  "\<exists>s' st'. handle_tcp_connection tcp_hickory test_tcp_env (V4 (10, 0, 0, 1)) tcp_server test_stream =
      Return (Inr ()) s' st' \<and> map length (deframe (st_out st')) = [60] \<and>
      frames (deframe (st_out st')) = st_out st'"
proof -
  have "case handle_tcp_connection tcp_hickory test_tcp_env (V4 (10, 0, 0, 1)) tcp_server test_stream of
      Return r s' st' \<Rightarrow> r = Inr () \<and> map length (deframe (st_out st')) = [60] | _ \<Rightarrow> False"
    by code_simp
  then obtain s' st' where out: "handle_tcp_connection tcp_hickory test_tcp_env (V4 (10, 0, 0, 1)) tcp_server
      test_stream = Return (Inr ()) s' st'" and len: "map length (deframe (st_out st')) = [60]"
    by (auto split: tcp_next.splits)
  have "st_out test_stream = []" by (simp add: test_stream_def)
  from tcp_output_framed [OF this tcp_hickory_bound out] out len show ?thesis
    by (intro exI [of _ s'] exI [of _ st']) simp
qed

text \<open>
  C27. A connection is counted once, and its queries are limited: at most
  \<open>max_queries_per_connection\<close> queries are handled before it ends (100 without configuration).
  The total of queries of closed connections grows by the number of queries handled or, on the ways
  out that do not record the end of the connection, not at all.
\<close>

theorem tcp_connection_accounting:
  assumes "te_others env = (\<lambda>_ s. s)" and "handle_tcp_connection H env addr s st = Return r s' st'"
  shows "\<exists>k \<le> unat (tcp_max_queries (srv_tcp_config s)).
    tcp_queries (srv_metrics s') = tcp_queries (srv_metrics s) + of_nat k \<and>
    tcp_connections (srv_metrics s') = tcp_connections (srv_metrics s) + 1 \<and>
    (tcp_queries_per_connection (srv_metrics s') = tcp_queries_per_connection (srv_metrics s) + of_nat k \<or>
     tcp_queries_per_connection (srv_metrics s') = tcp_queries_per_connection (srv_metrics s))"
proof -
  let ?s = "with_metrics record_tcp_connection s"
  have "tcp_counters ?s = (tcp_queries (srv_metrics s) + 0, tcp_queries_per_connection (srv_metrics s),
      tcp_connections (srv_metrics s) + 1)"
    by (simp add: tcp_counters_def record_defs)
  from tcp_loop_counts [OF assms(1) _ this, of "tcp_max_queries (srv_tcp_config s)" H addr st] assms(2)
  show ?thesis by (auto simp: handle_tcp_connection_def tcp_counters_def)
qed

theorem tcp_connection_accounting_witness:
  "\<exists>s' st'. handle_tcp_connection tcp_hickory test_tcp_env (V4 (10, 0, 0, 1)) tcp_server test_stream =
      Return (Inr ()) s' st' \<and> tcp_queries (srv_metrics s') = 1 \<and>
      tcp_connections (srv_metrics s') = 1 \<and> tcp_queries_per_connection (srv_metrics s') = 0"
proof -
  have "case handle_tcp_connection tcp_hickory test_tcp_env (V4 (10, 0, 0, 1)) tcp_server test_stream of
      Return r s' st' \<Rightarrow> r = Inr () \<and> tcp_queries (srv_metrics s') = 1 \<and>
        tcp_queries_per_connection (srv_metrics s') = 0 | _ \<Rightarrow> False"
    by code_simp
  then obtain s' st' where out: "handle_tcp_connection tcp_hickory test_tcp_env (V4 (10, 0, 0, 1)) tcp_server
      test_stream = Return (Inr ()) s' st'" and q: "tcp_queries (srv_metrics s') = 1"
      "tcp_queries_per_connection (srv_metrics s') = 0"
    by (auto split: tcp_next.splits)
  have "te_others test_tcp_env = (\<lambda>_ s. s)" by (simp add: test_tcp_env_def)
  from tcp_connection_accounting [OF this out]
  have "tcp_connections (srv_metrics s') = tcp_connections (srv_metrics tcp_server) + 1" by blast
  moreover have "tcp_connections (srv_metrics tcp_server) = 0" by code_simp
  ultimately show ?thesis using out q by auto
qed

text \<open>
  C21. A zone transfer over TCP sends the whole zone: for a question of type AXFR whose name is in a
  zone, when the messages of this transfer can be encoded and the stream accepts their writes, one
  message per record of the transfer goes out, in the order of the zone's record list, each with the
  identifier and the question of the query and that record as its answer; then the connection ends
  without an error.
\<close>

theorem axfr_stream:
  assumes "first_query query = Some question" and "q_type question = RT_AXFR"
    and "find_zone H (srv_zones s) (q_name question) = Some z"
    and "\<forall>r \<in> set (get_all_records H z). message_to_bytes H (axfr_message H query question r) \<noteq> None"
    and "2 * length (get_all_records H z) \<le> st_writes st"
  shows "\<exists>bufs s' st'. answer_tcp_query H d query s st = Return (Inr ()) s' st' \<and>
    st_out st' = st_out st @ frames bufs \<and>
    map Some bufs = map (\<lambda>r. message_to_bytes H (axfr_message H query question r)) (get_all_records H z) \<and>
    noerror_responses (srv_metrics s') = noerror_responses (srv_metrics s) + 1"
proof -
  let ?enc = "\<lambda>r. message_to_bytes H (axfr_message H query question r)"
  let ?bufs = "map (\<lambda>r. the (?enc r)) (get_all_records H z)"
  have "map Some ?bufs = map ?enc (get_all_records H z)" using assms(4) by simp
  with axfr_send_ok [OF assms(5) this] assms(1-3) show ?thesis
    by (intro exI [of _ ?bufs])
       (simp add: answer_tcp_query_def is_axfr_def handle_axfr_def record_defs Let_def)
qed


theorem axfr_stream_witness:
  "\<exists>bufs s' st'. answer_tcp_query tcp_hickory 3000 (query_for example_com RT_AXFR None) big_server test_stream =
      Return (Inr ()) s' st' \<and> st_out st' = frames bufs \<and> length bufs = 42"
proof -
  define z where "z = the (find_zone tcp_hickory (srv_zones big_server) example_com)"
  let ?q = "query_for example_com RT_AXFR None" and ?question = "\<lparr>q_name = example_com, q_type = RT_AXFR\<rparr>"
  have first: "first_query ?q = Some ?question"
    by (simp add: query_for_def sample_message_def first_query_def)
  have "find_zone tcp_hickory (srv_zones big_server) example_com \<noteq> None" by code_simp
  then have z: "find_zone tcp_hickory (srv_zones big_server) (q_name ?question) = Some z"
    by (auto simp: z_def)
  have len: "length (get_all_records tcp_hickory z) = 42" unfolding z_def by code_simp
  have "2 * length (get_all_records tcp_hickory z) \<le> st_writes test_stream"
    by (simp add: len test_stream_def)
  moreover have "\<forall>r \<in> set (get_all_records tcp_hickory z).
      message_to_bytes tcp_hickory (axfr_message tcp_hickory ?q ?question r) \<noteq> None"
    using tcp_hickory_encodes by blast
  ultimately obtain bufs s' st' where
    out: "answer_tcp_query tcp_hickory 3000 ?q big_server test_stream = Return (Inr ()) s' st'"
      "st_out st' = st_out test_stream @ frames bufs"
    and bufs: "map Some bufs = map (\<lambda>r. message_to_bytes tcp_hickory (axfr_message tcp_hickory ?q ?question r))
        (get_all_records tcp_hickory z)" using axfr_stream [OF first _ z, of test_stream 3000] by auto
  from arg_cong [OF bufs, of length] len have "length bufs = 42" by simp
  with out have "answer_tcp_query tcp_hickory 3000 ?q big_server test_stream = Return (Inr ()) s' st' \<and>
      st_out st' = frames bufs \<and> length bufs = 42" by (simp add: test_stream_def)
  then show ?thesis by blast
qed

end
