(* ===== verification/Tcp_Session.thy ===== *)
theory Tcp_Session
  imports Server_Tcp
begin

text \<open>
  A whole session over TCP (\<open>src/server.rs\<close>, \<open>handle_tcp_connection\<close>): the messages a client writes
  one after the other, each with its length prefix, are read back one per round and answered in
  order.
\<close>

section \<open>Reading what a client writes\<close>

lemma length_prefix_eq:
  "length_prefix b = [ucast (drop_bit 8 (word_of_nat (length b) :: u16)), ucast (word_of_nat (length b) :: u16)]"
  by (simp add: length_prefix_def to_be_bytes_def)

lemma tcp_round_frame:
  assumes "st_in st = length_prefix b @ b @ rest" and "0 < length b" and "length b < 2 ^ 16"
  shows "tcp_round H tk t addr q s st = handle_tcp_message H tk t addr b s (st\<lparr>st_in := rest\<rparr>)"
proof -
  let ?len = "word_of_nat (length b) :: u16"
  let ?st = "st\<lparr>st_in := b @ rest\<rparr>"
  have len: "read_exact 2 st = Read_ok (length_prefix b) ?st"
    using assms(1) by (simp add: read_exact_def length_prefix_eq)
  have n: "unat (from_be_bytes (length_prefix b ! 0) (length_prefix b ! 1)) = length b"
    using assms(3) by (simp add: length_prefix_eq from_to_be_bytes unat_of_nat)
  have "read_exact (length b) ?st = Read_ok b (st\<lparr>st_in := rest\<rparr>)" by (simp add: read_exact_def)
  with len n assms(2,3) show ?thesis by (simp add: tcp_round_def Let_def MAX_TCP_DNS_PACKET_SIZE_def)
qed

lemma tcp_reply_written:
  assumes "message_to_bytes H m = Some b" and "2 \<le> st_writes st"
  shows "tcp_reply (ok_or e (message_to_bytes H m)) s st k =
    k s (st\<lparr>st_out := st_out st @ length_prefix b @ b, st_writes := st_writes st - 2\<rparr>)"
  using assms by (simp add: tcp_reply_def write_message_def write_all_def numeral_2_eq_2 ok_or_def)

text \<open>The response to a query, as bytes.\<close>

definition reply_bytes :: "'n hickory \<Rightarrow> 'n zone_store \<Rightarrow> bytes \<Rightarrow> bytes option" where
  "reply_bytes H zs b =
     (case message_from_bytes H b of
        None \<Rightarrow> None
      | Some query \<Rightarrow> (case process_query H zs query of Inl e \<Rightarrow> None | Inr r \<Rightarrow> message_to_bytes H r))"

text \<open>A message that is a query, other than for a transfer, and that the length prefix can carry.\<close>

definition plain_query :: "'n hickory \<Rightarrow> bytes \<Rightarrow> bool" where
  "plain_query H b \<longleftrightarrow> 0 < length b \<and> length b < 2 ^ 16 \<and>
     (case message_from_bytes H b of None \<Rightarrow> False | Some query \<Rightarrow> \<not> is_axfr query)"

text \<open>The stream after a message was read and another written.\<close>

definition exchanged :: "bytes \<Rightarrow> bytes \<Rightarrow> tcp_stream \<Rightarrow> tcp_stream" where
  "exchanged rest out st =
     st\<lparr>st_in := rest, st_out := st_out st @ length_prefix out @ out, st_writes := st_writes st - 2\<rparr>"

lemma exchanged_simps [simp]:
  "st_in (exchanged rest out st) = rest" "st_end (exchanged rest out st) = st_end st"
  "st_out (exchanged rest out st) = st_out st @ length_prefix out @ out"
  "st_writes (exchanged rest out st) = st_writes st - 2"
  by (simp_all add: exchanged_def)

lemma tcp_round_plain:
  assumes "st_in st = length_prefix b @ b @ rest" and "plain_query H b"
    and "limiter_allows tk addr s = (True, s1)"
    and "reply_bytes H (srv_zones s) b = Some out" and "2 \<le> st_writes st"
  obtains s' where "tcp_round H tk t addr q s st = Next s' (exchanged rest out st)"
    and "srv_zones s' = srv_zones s" and "srv_rate_limiter s' = srv_rate_limiter s1"
proof -
  note s1 = limiter_allows_frame [OF assms(3)]
  obtain query where query: "message_from_bytes H b = Some query" "\<not> is_axfr query"
    using assms(2) by (auto simp: plain_query_def split: option.splits)
  obtain r where r: "process_query H (srv_zones s) query = Inr r" using process_query_total by blast
  have out: "message_to_bytes H r = Some out" using assms(4) query(1) r by (simp add: reply_bytes_def)
  have "tcp_round H tk t addr q s st = handle_tcp_message H tk t addr b s (st\<lparr>st_in := rest\<rparr>)"
    using assms(1,2) by (intro tcp_round_frame) (auto simp: plain_query_def)
  also have "\<dots> = Next (with_metrics (record_latency t \<circ> record_response (msg_response_code r))
      (with_metrics (record_question Tcp query) s1)) (exchanged rest out st)"
    using query r assms(3,5) s1
    by (simp add: handle_tcp_message_def answer_tcp_query_def tcp_reply_written [OF out] exchanged_def)
  finally show ?thesis using that s1 by simp
qed

lemma tcp_round_limited:
  assumes "st_in st = length_prefix b @ b @ rest" and "0 < length b" and "length b < 2 ^ 16"
    and "message_from_bytes H b = Some query" and "limiter_allows tk addr s = (False, s1)"
    and "message_to_bytes H (rate_limit_message H query) = Some out" and "2 \<le> st_writes st"
  obtains s' where "tcp_round H tk t addr q s st = Return (Inr ()) s' (exchanged rest out st)"
proof -
  have "tcp_round H tk t addr q s st = handle_tcp_message H tk t addr b s (st\<lparr>st_in := rest\<rparr>)"
    using assms(1-3) by (rule tcp_round_frame)
  also have "\<dots> = Return (Inr ()) (with_metrics (record_latency t)
      (with_metrics (record_response Refused \<circ> record_rate_limited) s1)) (exchanged rest out st)"
    using assms(4,5,7) by (simp add: handle_tcp_message_def tcp_reply_written [OF assms(6)] exchanged_def)
  finally show ?thesis using that by blast
qed

text \<open>A round that goes on, and a round that ends the loop.\<close>

lemma tcp_loop_round:
  assumes "q < mx"
  shows "tcp_round H (te_ticks env (unat q)) (te_elapsed env (unat q)) addr q (te_others env (unat q) s) st = Next s' st' \<Longrightarrow>
      tcp_loop H env addr mx q s st = tcp_loop H env addr mx (q + 1) s' st'"
    and "tcp_round H (te_ticks env (unat q)) (te_elapsed env (unat q)) addr q (te_others env (unat q) s) st = Return r s' st' \<Longrightarrow>
      tcp_loop H env addr mx q s st = Return r s' st'"
  using assms [unfolded linorder_not_le [symmetric]]
  by (subst tcp_loop.simps, simp add: Let_def)+

lemma tcp_loop_pipeline:
  assumes "\<And>i s. srv_zones (te_others env i s) = srv_zones s \<and> srv_rate_limiter (te_others env i s) = srv_rate_limiter s"
    and "st_in st = frames bufs" and "st_end st = Closes" and "\<forall>b \<in> set bufs. plain_query H b"
    and "map (reply_bytes H (srv_zones s)) bufs = map Some outs" and "srv_rate_limiter s = None"
    and "2 * length bufs \<le> st_writes st" and "unat q + length bufs \<le> unat mx"
  shows "\<exists>s' st'. tcp_loop H env addr mx q s st = Return (Inr ()) s' st' \<and> st_out st' = st_out st @ frames outs"
  using assms(2-8)
proof (induction bufs arbitrary: q s st outs)
  case Nil
  then show ?case
    by (subst tcp_loop.simps) (auto simp: Let_def tcp_round_def read_exact_def)
next
  case (Cons b bufs)
  from Cons.prems(4) obtain out outs' where outs: "outs = out # outs'"
    "reply_bytes H (srv_zones s) b = Some out" "map (reply_bytes H (srv_zones s)) bufs = map Some outs'"
    by (cases outs) auto
  let ?s = "te_others env (unat q) s"
  have lt: "q < mx" using Cons.prems(7) by (simp add: word_less_nat_alt)
  have "limiter_allows (te_ticks env (unat q)) addr ?s = (True, ?s)"
    using Cons.prems(5) assms(1) by (simp add: limiter_allows_def)
  then obtain s' where "tcp_round H (te_ticks env (unat q)) (te_elapsed env (unat q)) addr q ?s st =
      Next s' (exchanged (frames bufs) out st)"
    and s': "srv_zones s' = srv_zones s" "srv_rate_limiter s' = None"
    by (rule tcp_round_plain [of st b "frames bufs" H, rotated 2]) (use Cons.prems outs(2) assms(1) in auto)
  from tcp_loop_round(1) [OF lt this(1)]
  have "tcp_loop H env addr mx q s st = tcp_loop H env addr mx (q + 1) s' (exchanged (frames bufs) out st)" .
  moreover have "unat (q + 1) + length bufs \<le> unat mx" using unat_succ [OF lt] Cons.prems(7) by simp
  ultimately show ?case
    using Cons.IH [of "exchanged (frames bufs) out st" s' outs' "q + 1"] Cons.prems(2,3,6) outs s' by simp
qed

section \<open>Properties\<close>


text \<open>Three queries in one go, with identifiers 1, 2 and 3.\<close>

definition pipeline_stream :: tcp_stream where
  "pipeline_stream =
     \<lparr>st_in = frames (map (\<lambda>i. [0, i, 0, 0, 0, 0, 0, 0, 0, 0, 0, 0]) [1, 2, 3]), st_end = Closes, st_out = [],
      st_writes = 6\<rparr>"


end
