(* ===== verification/Lifecycle.thy ===== *)
theory Lifecycle
  imports Zone_Parser Server_Tcp
begin

text \<open>
  \<open>src/main.rs\<close> and \<open>DnsServer::run\<close>: starting the server from its configuration, loading the zones,
  the signal handlers with the reload, and the whole server as a transition system whose steps are
  a datagram, a round of a connection and a signal. The file system is an input of every step that
  reads it, and every read of a step has a file system of its own: files may change between
  reloads, and between two reads of one load.
\<close>

section \<open>Loading zones\<close>

datatype load_error = Load_failed string zone_error

text \<open>What \<open>fs::read_to_string\<close> gives for a path, by the position of the read among those of the step.\<close>

type_synonym file_reads = "nat \<Rightarrow> string \<Rightarrow> string option"

fun load_zones_loop ::
  "'n hickory \<Rightarrow> codecs \<Rightarrow> file_reads \<Rightarrow> 'n zone_store \<Rightarrow> zone_config list \<Rightarrow>
   load_error + 'n zone_store" where
  "load_zones_loop H C read_file zone_store [] = Inr zone_store"
| "load_zones_loop H C read_file zone_store (zc # zcs) =
     (case parse_zone_file H C (read_file 0 (zc_file zc)) (zc_name zc) of
        Inl e \<Rightarrow> Inl (Load_failed (zc_name zc) e)
      | Inr zone \<Rightarrow> load_zones_loop H C (\<lambda>i. read_file (Suc i)) (add_zone H zone_store zone) zcs)"

definition load_zones ::
  "'n hickory \<Rightarrow> codecs \<Rightarrow> file_reads \<Rightarrow> config \<Rightarrow> load_error + 'n zone_store" where
  "load_zones H C read_file cfg = load_zones_loop H C read_file zone_store_new (cfg_zones cfg)"

text \<open>The number of records in the log line about a loaded zone.\<close>

definition record_count :: "'n zone \<Rightarrow> nat" where
  "record_count z =
     sum_list (map (\<lambda>(_, type_map). sum_list (map (\<lambda>(_, v). length v) type_map)) (zone_records z))"

section \<open>Starting and running the server\<close>

datatype startup_error =
    Config_load_failed string config_error
  | Config_invalid config_error
  | Zones_failed load_error

record 'n daemon =
  d_server :: "'n dns_server"
  d_config :: config
  d_cancelled :: bool
  d_log :: "log_line list list"

definition config_path :: "string list \<Rightarrow> string" where
  "config_path args = (if 1 < length args then args ! 1 else ''lrmdns.yaml'')"

text \<open>
  The filter of the logger: the one of the environment when it is set and can be parsed, else the
  configured level for the modules of the server.
\<close>

definition log_filter :: "string option \<Rightarrow> config \<Rightarrow> string" where
  "log_filter env_filter cfg =
     (case env_filter of Some directives \<Rightarrow> directives | None \<Rightarrow> ''lrmdns='' @ log_level (cfg_server cfg))"

text \<open>
  \<open>main\<close> up to the call of \<open>server.run\<close>; \<open>now\<close> is the clock when it creates its objects. It reads the
  configuration first and the zone files after it.
\<close>

definition startup ::
  "'n hickory \<Rightarrow> codecs \<Rightarrow> (string \<Rightarrow> raw_config option) \<Rightarrow> file_reads \<Rightarrow> (string \<Rightarrow> bool) \<Rightarrow>
   instant \<Rightarrow> string list \<Rightarrow> startup_error + 'n daemon" where
  "startup H C yaml read_file file_exists now args =
     (let path = config_path args in
      case from_file yaml (read_file 0) path of
        Inl e \<Rightarrow> Inl (Config_load_failed path e)
      | Inr cfg \<Rightarrow>
          (case validate file_exists cfg of
             Inl e \<Rightarrow> Inl (Config_invalid e)
           | Inr _ \<Rightarrow>
               (case load_zones H C (\<lambda>i. read_file (Suc i)) cfg of
                  Inl e \<Rightarrow> Inl (Zones_failed e)
                | Inr zone_store \<Rightarrow>
                    (let limiter = map_option (\<lambda>limit. rate_limiter_new limit now) (rate_limit (cfg_server cfg))
                     in Inr \<lparr>d_server = dns_server_new zone_store (listen (cfg_server cfg)) (metrics_new now)
                               limiter (tcp (cfg_server cfg)),
                             d_config = cfg, d_cancelled = False, d_log = []\<rparr>))))"

text \<open>Which of the three futures of \<open>run\<close> completes first.\<close>

datatype run_end = Udp_ended "server_error + unit" | Tcp_ended "server_error + unit" | Shutdown_requested

fun server_run :: "run_end \<Rightarrow> server_error + unit" where
  "server_run (Udp_ended result) = and_then result (\<lambda>_. Inr ())"
| "server_run (Tcp_ended result) = and_then result (\<lambda>_. Inr ())"
| "server_run Shutdown_requested = Inr ()"

section \<open>Signals\<close>

datatype unix_signal = SIGHUP | SIGUSR1 | SIGINT | SIGQUIT | SIGTERM

definition log_metrics :: "instant \<Rightarrow> 'n daemon \<Rightarrow> 'n daemon" where
  "log_metrics now d = d\<lparr>d_log := d_log d @ [log_summary now (srv_metrics (d_server d))]\<rparr>"

definition reload_zones ::
  "'n hickory \<Rightarrow> codecs \<Rightarrow> file_reads \<Rightarrow> 'n daemon \<Rightarrow> 'n daemon" where
  "reload_zones H C read_file d =
     (case load_zones H C read_file (d_config d) of
        Inr new_store \<Rightarrow> d\<lparr>d_server := (d_server d)\<lparr>srv_zones := new_store\<rparr>\<rparr>
      | Inl _ \<Rightarrow> d)"

text \<open>One round of the loop of \<open>handle_signals\<close>; the result says whether the loop goes on.\<close>

definition handle_signal ::
  "'n hickory \<Rightarrow> codecs \<Rightarrow> file_reads \<Rightarrow> instant \<Rightarrow> unix_signal \<Rightarrow> 'n daemon \<Rightarrow> 'n daemon \<times> bool" where
  "handle_signal H C read_file now sig d =
     (case sig of
        SIGHUP \<Rightarrow> (reload_zones H C read_file d, True)
      | SIGUSR1 \<Rightarrow> (log_metrics now d, True)
      | _ \<Rightarrow> ((log_metrics now d)\<lparr>d_cancelled := True\<rparr>, False))"

text \<open>The handler of platforms other than Unix, after Ctrl+C.\<close>

definition handle_ctrl_c :: "instant \<Rightarrow> 'n daemon \<Rightarrow> 'n daemon" where
  "handle_ctrl_c now d = (log_metrics now d)\<lparr>d_cancelled := True\<rparr>"

section \<open>The server as a transition system\<close>

fun next_server :: "'n tcp_next \<Rightarrow> 'n dns_server" where
  "next_server (Next s st) = s"
| "next_server (Return r s st) = s"
| "next_server (Blocks s st) = s"

text \<open>
  A datagram or a round may still complete after the shutdown was requested, until the process is
  gone; a signal is not handled any more.
\<close>

inductive server_step :: "'n hickory \<Rightarrow> codecs \<Rightarrow> 'n daemon \<Rightarrow> 'n daemon \<Rightarrow> bool" for H C where
  datagram: "handle_udp_query H env data addr (d_server d) = (res, sent, s) \<Longrightarrow>
     server_step H C d (d\<lparr>d_server := s\<rparr>)"
| connection: "server_step H C d (d\<lparr>d_server := with_metrics record_tcp_connection (d_server d)\<rparr>)"
| tcp_round: "server_step H C d (d\<lparr>d_server := next_server (tcp_round H tk elapsed addr q (d_server d) st)\<rparr>)"
| tcp_limit: "server_step H C d (d\<lparr>d_server := with_metrics (record_tcp_connection_closed q) (d_server d)\<rparr>)"
| signal: "\<not> d_cancelled d \<Longrightarrow> handle_signal H C read_file now sig d = (d', go_on) \<Longrightarrow> server_step H C d d'"

inductive reachable :: "'n hickory \<Rightarrow> codecs \<Rightarrow> 'n daemon \<Rightarrow> bool" for H C where
  started: "startup H C yaml read_file file_exists now args = Inr d \<Longrightarrow> reachable H C d"
| stepped: "reachable H C d \<Longrightarrow> server_step H C d d' \<Longrightarrow> reachable H C d'"

inductive_cases server_stepE: "server_step H C d d'"

section \<open>What loading gives\<close>

lemma record_count_all_records: "record_count z = size (all_records z)"
proof -
  have types: "sum_list (map (\<lambda>(_, v). length v) tm) = size (\<Sum>(t, rs) \<in># mset tm. mset rs)" for tm :: "'n type_map"
    by (induction tm) auto
  have "sum_list (map (\<lambda>(_, tm). sum_list (map (\<lambda>(_, v). length v) tm)) m) =
      size (\<Sum>(n, tm) \<in># mset m. \<Sum>(t, rs) \<in># mset tm. mset rs)" for m :: "('n, 'n type_map) hash_map"
    by (induction m) (auto simp: types)
  then show ?thesis by (simp add: record_count_def all_records_def)
qed

text \<open>A store in which every zone is well formed and filed under its origin.\<close>

definition good_store :: "'n hickory \<Rightarrow> 'n zone_store \<Rightarrow> bool" where
  "good_store H st \<longleftrightarrow> wf_store H st \<and> (\<forall>z \<in> stored st. wf_zone H z)"

definition serves :: "'n hickory \<Rightarrow> 'n zone_store \<Rightarrow> string \<Rightarrow> bool" where
  "serves H st name \<longleftrightarrow>
     (\<exists>z \<in> stored st. \<exists>origin. name_from_str H name = Some origin \<and> name_eq H (zone_origin z) origin)"

lemma stored_add_zone: "stored (add_zone H st z) \<subseteq> insert z (stored st)"
  by (auto simp: stored_def add_zone_def hm_insert_def dest!: hm_upsert_in)

lemma good_store_add:
  assumes "good_store H st" and "wf_zone H z"
  shows "good_store H (add_zone H st z)"
  using assms stored_add_zone [of H st z] by (auto simp: good_store_def wf_store_add_zone)

lemma serves_iff:
  assumes "wf_store H st"
  shows "serves H st name \<longleftrightarrow>
    (\<exists>origin. name_from_str H name = Some origin \<and> hm_get (name_key H) (zones st) origin \<noteq> None)"
  by (auto simp: serves_def store_get_None [OF assms])

lemma serves_add:
  assumes "wf_store H st" and "serves H st name \<or> name_from_str H name = Some (zone_origin z)"
  shows "serves H (add_zone H st z) name"
  using assms wf_store_add_zone [OF assms(1), of z]
  by (auto simp: serves_iff add_zone_def hm_get_insert)

lemma load_zones_loop_good:
  assumes "load_zones_loop H C read_file st zcs = Inr st'" and "good_store H st"
  shows "good_store H st' \<and>
    (\<forall>name. serves H st name \<or> name \<in> zc_name ` set zcs \<longrightarrow> serves H st' name)"
  using assms
proof (induction zcs arbitrary: st read_file)
  case (Cons zc zcs)
  from Cons.prems(1) obtain z where z: "parse_zone_file H C (read_file 0 (zc_file zc)) (zc_name zc) = Inr z"
    and rest: "load_zones_loop H C (\<lambda>i. read_file (Suc i)) (add_zone H st z) zcs = Inr st'"
    by (auto split: sum.splits)
  obtain r rs where "name_from_str H (zc_name zc) = Some (zone_origin z)"
    and zrs: "z = zone_of_records H (zone_origin z) (zone_soa z) (r # rs)"
    by (rule parse_zone_file_loaded [OF z])
  moreover have "wf_zone H z" using zrs wf_zone_of_records by metis
  ultimately show ?case
    using Cons.IH [OF rest good_store_add [OF Cons.prems(2)]] serves_add [of H st _ z] Cons.prems(2)
    by (auto simp: good_store_def)
qed simp

text \<open>The zone that loading adds for the configured zone at a position, and the result of parsing it.\<close>

definition zone_parsed :: "'n hickory \<Rightarrow> codecs \<Rightarrow> file_reads \<Rightarrow> zone_config list \<Rightarrow> nat \<Rightarrow> zone_error + 'n zone" where
  "zone_parsed H C read_file zcs i =
     parse_zone_file H C (read_file i (zc_file (zcs ! i))) (zc_name (zcs ! i))"

lemma zone_parsed_Cons [simp]:
  "zone_parsed H C read_file (zc # zcs) 0 = parse_zone_file H C (read_file 0 (zc_file zc)) (zc_name zc)"
  "zone_parsed H C read_file (zc # zcs) (Suc i) = zone_parsed H C (\<lambda>i. read_file (Suc i)) zcs i"
  by (simp_all add: zone_parsed_def)

text \<open>Every zone of the store was parsed from the file of one of the configured zones.\<close>

lemma load_zones_loop_stored:
  assumes "load_zones_loop H C read_file st zcs = Inr st'" and "z \<in> stored st'"
  shows "z \<in> stored st \<or> (\<exists>i < length zcs. zone_parsed H C read_file zcs i = Inr z)"
  using assms
proof (induction zcs arbitrary: st read_file)
  case (Cons zc zcs)
  then obtain z' where "parse_zone_file H C (read_file 0 (zc_file zc)) (zc_name zc) = Inr z'"
    and "load_zones_loop H C (\<lambda>i. read_file (Suc i)) (add_zone H st z') zcs = Inr st'"
    by (auto split: sum.splits)
  with Cons.IH [of "\<lambda>i. read_file (Suc i)" "add_zone H st z'"] Cons.prems(2) stored_add_zone [of H st z']
  show ?case by (auto simp: Ex_less_Suc2)
qed simp

lemma load_zones_stored:
  assumes "load_zones H C read_file cfg = Inr st" and "z \<in> stored st"
  shows "\<exists>i < length (cfg_zones cfg). zone_parsed H C read_file (cfg_zones cfg) i = Inr z"
  using load_zones_loop_stored [OF assms(1) [unfolded load_zones_def] assms(2)]
  by (auto simp: stored_def zone_store_new_def)

text \<open>Loading succeeds when every file does, and fails with the error of the first that does not.\<close>

lemma load_zones_loop_ok:
  "(\<exists>st'. load_zones_loop H C read_file st zcs = Inr st') \<longleftrightarrow>
     (\<forall>i < length zcs. \<exists>z. zone_parsed H C read_file zcs i = Inr z)"
  by (induction zcs arbitrary: st read_file) (auto simp: All_less_Suc2 split: sum.splits)

lemma load_zones_loop_fails:
  assumes "\<forall>i < length before. \<exists>z. zone_parsed H C read_file before i = Inr z"
    and "parse_zone_file H C (read_file (length before) (zc_file zc)) (zc_name zc) = Inl e"
  shows "load_zones_loop H C read_file st (before @ zc # after) = Inl (Load_failed (zc_name zc) e)"
  using assms by (induction before arbitrary: st read_file) (auto simp: All_less_Suc2)

lemma startup_ok_iff:
  "(\<exists>d. startup H C yaml read_file file_exists now args = Inr d \<and> d_config d = cfg) \<longleftrightarrow>
     from_file yaml (read_file 0) (config_path args) = Inr cfg \<and> validate file_exists cfg = Inr () \<and>
     (\<forall>i < length (cfg_zones cfg). \<exists>z. zone_parsed H C (\<lambda>i. read_file (Suc i)) (cfg_zones cfg) i = Inr z)"
  unfolding load_zones_loop_ok [of H C "\<lambda>i. read_file (Suc i)" zone_store_new, symmetric]
  by (auto simp: startup_def load_zones_def Let_def split: sum.splits)

text \<open>The store holds exactly the zones of one load of the configured files.\<close>

definition loaded :: "'n hickory \<Rightarrow> codecs \<Rightarrow> 'n daemon \<Rightarrow> bool" where
  "loaded H C d \<longleftrightarrow> (\<exists>read_file. load_zones H C read_file (d_config d) = Inr (srv_zones (d_server d)))"

lemma loaded_good:
  assumes "loaded H C d"
  shows "good_store H (srv_zones (d_server d))"
    and "zc \<in> set (cfg_zones (d_config d)) \<Longrightarrow> serves H (srv_zones (d_server d)) (zc_name zc)"
proof -
  have new: "good_store H zone_store_new"
    unfolding good_store_def by (simp add: stored_def) (simp add: zone_store_new_def)
  from assms obtain read_file where
    "load_zones_loop H C read_file zone_store_new (cfg_zones (d_config d)) = Inr (srv_zones (d_server d))"
    by (auto simp: loaded_def load_zones_def)
  note good = load_zones_loop_good [OF this new]
  show "good_store H (srv_zones (d_server d))" using good by blast
  show "zc \<in> set (cfg_zones (d_config d)) \<Longrightarrow> serves H (srv_zones (d_server d)) (zc_name zc)"
    using good by blast
qed

section \<open>Queries leave the zones alone\<close>

lemma send_response_zones: "send_response H env r s = (res, sent, s') \<Longrightarrow> srv_zones s' = srv_zones s"
  by (auto simp: send_response_def udp_send_def Let_def split: option.splits truncation.splits if_splits)

lemma handle_udp_query_zones:
  assumes "handle_udp_query H env data addr s = (res, sent, s')"
  shows "srv_zones s' = srv_zones s"
  using assms limiter_allows_frame [of "ue_ticks env" addr s]
  by (auto simp: handle_udp_query_def udp_send_def Let_def
      split: prod.splits bool.splits option.splits sum.splits if_splits dest!: send_response_zones)

definition keeps_zones :: "'n zone_store \<Rightarrow> 'n tcp_next \<Rightarrow> bool" where
  "keeps_zones zs x \<longleftrightarrow> srv_zones (next_server x) = zs"

lemma keeps_zones_simps [simp]:
  "keeps_zones zs (Next s st) \<longleftrightarrow> srv_zones s = zs" "keeps_zones zs (Return r s st) \<longleftrightarrow> srv_zones s = zs"
  "keeps_zones zs (Blocks s st) \<longleftrightarrow> srv_zones s = zs"
  by (simp_all add: keeps_zones_def)

lemmas tcp_reply_zones = tcp_reply_cases [where P = "keeps_zones zs" for zs]
lemmas axfr_send_zones = axfr_send_cases [where P = "keeps_zones zs" for zs]

lemma answer_tcp_query_zones: "srv_zones s = zs \<Longrightarrow> keeps_zones zs (answer_tcp_query H d query s st)"
  by (auto simp: answer_tcp_query_def handle_axfr_def split: option.split bool.split sum.split
      intro!: tcp_reply_zones axfr_send_zones)

lemma handle_tcp_message_zones: "keeps_zones (srv_zones s) (handle_tcp_message H tk d addr buf s st)"
proof (cases "message_from_bytes H buf")
  case None
  then show ?thesis by (auto simp: handle_tcp_message_def intro!: tcp_reply_zones)
next
  case (Some query)
  obtain ok s1 where lim: "limiter_allows tk addr s = (ok, s1)" by fastforce
  then have "srv_zones s1 = srv_zones s" using limiter_allows_frame by blast
  with Some lim show ?thesis
    by (cases ok) (auto simp: handle_tcp_message_def intro!: tcp_reply_zones answer_tcp_query_zones)
qed

lemma tcp_round_zones: "srv_zones (next_server (tcp_round H tk d addr q s st)) = srv_zones s"
  using handle_tcp_message_zones [unfolded keeps_zones_def]
  by (auto simp: tcp_round_def Let_def split: read_result.split)

lemma step_loaded: "server_step H C d d' \<Longrightarrow> loaded H C d \<Longrightarrow> loaded H C d' \<and> d_config d' = d_config d"
proof (induction rule: server_step.induct)
  case (signal d read_file now sig d' go_on)
  then show ?case
    by (cases sig) (auto simp: handle_signal_def log_metrics_def reload_zones_def loaded_def split: sum.splits)
qed (auto simp: loaded_def handle_udp_query_zones tcp_round_zones)

lemma startup_loaded:
  "startup H C yaml read_file file_exists now args = Inr d \<Longrightarrow> loaded H C d"
  by (auto simp: startup_def loaded_def Let_def dns_server_new_def split: sum.splits)

lemma reachable_loaded: "reachable H C d \<Longrightarrow> loaded H C d"
  by (induction rule: reachable.induct) (auto dest: startup_loaded step_loaded)

text \<open>After a terminating signal the zones and the log are final.\<close>

lemma step_after_cancel:
  assumes "server_step H C d d'" and "d_cancelled d"
  shows "d_cancelled d' \<and> srv_zones (d_server d') = srv_zones (d_server d) \<and> d_log d' = d_log d"
  using assms by (auto elim!: server_stepE simp: handle_udp_query_zones tcp_round_zones)

section \<open>Properties\<close>

definition test_raw_config :: raw_config where
  "test_raw_config =
     \<lparr>raw_server_section =
        \<lparr>raw_listen = None, raw_workers = None, raw_log_level = None, raw_rate_limit = Some 100,
         raw_api_listen = None, raw_dnssec_section = None, raw_tcp_section = None\<rparr>,
      raw_zones = [\<lparr>zc_name = ''example.com.'', zc_file = ''example.com.zone''\<rparr>]\<rparr>"

definition test_startup :: "startup_error + string list daemon" where
  "test_startup = startup sample sample_codecs (\<lambda>_. Some test_raw_config) (\<lambda>_ _. Some test_zone_text)
     (\<lambda>_. True) 0 []"

lemma test_startup_ok: "\<exists>d. test_startup = Inr d \<and> length (cfg_zones (d_config d)) = 1"
proof -
  have "case test_startup of Inr d \<Rightarrow> length (cfg_zones (d_config d)) = 1 | Inl _ \<Rightarrow> False" by code_simp
  then show ?thesis by (auto split: sum.splits)
qed

text \<open>
  C7. The server never serves a half-loaded configuration. In every state it can reach, through any
  interleaving of datagrams, rounds of connections and signals, with files that change at will,
  the zone store is the result of one complete and successful load of all configured zones: it is
  well formed, each of its zones is, and every configured zone is served.
\<close>

theorem served_zones_loaded:
  assumes "reachable H C d"
  shows "(\<exists>read_file. load_zones H C read_file (d_config d) = Inr (srv_zones (d_server d))) \<and>
    wf_store H (srv_zones (d_server d)) \<and> (\<forall>z \<in> stored (srv_zones (d_server d)). wf_zone H z) \<and>
    (\<forall>zc \<in> set (cfg_zones (d_config d)). \<exists>z \<in> stored (srv_zones (d_server d)). \<exists>origin.
       name_from_str H (zc_name zc) = Some origin \<and> name_eq H (zone_origin z) origin)"
  using reachable_loaded [OF assms] loaded_good [OF reachable_loaded [OF assms]]
  unfolding loaded_def good_store_def serves_def by blast

theorem served_zones_loaded_witness:
  "\<exists>d. test_startup = Inr d \<and> reachable sample sample_codecs d \<and> stored (srv_zones (d_server d)) \<noteq> {}"
proof -
  obtain d where d: "test_startup = Inr d" "length (cfg_zones (d_config d)) = 1"
    using test_startup_ok by blast
  then have r: "reachable sample sample_codecs d" unfolding test_startup_def by (blast intro: started)
  from d(2) obtain zc where "zc \<in> set (cfg_zones (d_config d))" by (cases "cfg_zones (d_config d)") auto
  with served_zones_loaded [OF r] have "stored (srv_zones (d_server d)) \<noteq> {}" by blast
  with d(1) r show ?thesis by blast
qed



end
