(* ===== verification/Event_System.thy ===== *)
theory Event_System
  imports Main
begin

text \<open>
  Systems that react to events: the state after an event is a function of the event and the state
  before it. The locale \<open>event_system\<close> says what reachability means; its lemmas are the induction
  principle for invariants and the view of a component, which sees the operations the events
  perform on it and nothing else.
\<close>

text \<open>What the events of a run perform, in order.\<close>

fun along :: "('e \<Rightarrow> 's \<Rightarrow> 's) \<Rightarrow> ('e \<Rightarrow> 's \<Rightarrow> 'o list) \<Rightarrow> 'e list \<Rightarrow> 's \<Rightarrow> 'o list" where
  "along step ops [] s = []"
| "along step ops (e # es) s = ops e s @ along step ops es (step e s)"

lemma along_append:
  "along step ops (es @ es') s = along step ops es s @ along step ops es' (fold step es s)"
  by (induction es arbitrary: s) simp_all

text \<open>Operations that do not depend on the state.\<close>

lemma along_const: "along step (\<lambda>e s. f e) es s = concat (map f es)"
  by (induction es arbitrary: s) simp_all

text \<open>A relation that composes along steps composes along a run.\<close>

lemma along_relates:
  assumes "\<And>s. R [] s s" and "\<And>K K' s s' s''. R K s s' \<Longrightarrow> R K' s' s'' \<Longrightarrow> R (K @ K') s s''"
    and "\<And>e s. R (ops e s) s (step e s)"
  shows "R (along step ops es s) s (fold step es s)"
  by (induction es arbitrary: s) (auto intro: assms)

locale event_system =
  fixes init :: "'s \<Rightarrow> bool"
    and step :: "'e \<Rightarrow> 's \<Rightarrow> 's"
    and reach :: "'s \<Rightarrow> bool"
  assumes reach_run: "reach s \<longleftrightarrow> (\<exists>s0 es. init s0 \<and> s = fold step es s0)"
begin

lemma reach_init: "init s \<Longrightarrow> reach s"
  unfolding reach_run by (intro exI [of _ s] exI [of _ "[]"]) simp

lemma reach_step: "reach s \<Longrightarrow> reach (step e s)"
  unfolding reach_run by (metis fold.simps(1,2) fold_append comp_apply id_apply)

lemma reach_fold: "reach s \<Longrightarrow> reach (fold step es s)"
  by (induction es arbitrary: s) (auto intro: reach_step)

lemma invariant [consumes 1, case_names init step]:
  assumes "reach s" and "\<And>s. init s \<Longrightarrow> I s" and "\<And>e s. reach s \<Longrightarrow> I s \<Longrightarrow> I (step e s)"
  shows "I s"
proof -
  from assms(1) obtain s0 es where "init s0" "s = fold step es s0" by (auto simp: reach_run)
  moreover have "reach s0 \<Longrightarrow> I s0 \<Longrightarrow> I (fold step es s0)"
    by (induction es arbitrary: s0) (auto intro: assms(3) reach_step)
  ultimately show ?thesis using assms(2) reach_init by blast
qed

text \<open>
  A component that changes with each event as by the operations \<open>ops\<close> has changed after a run as by
  all operations along the run.
\<close>

lemma component_run:
  assumes "reach s" and "\<And>e s. reach s \<Longrightarrow> view (step e s) = fold act (ops e s) (view s)"
  shows "view (fold step es s) = fold act (along step ops es s) (view s)"
  using assms(1) by (induction es arbitrary: s) (simp_all add: assms(2) reach_step)

end

end
