(* ===== verification/System.thy ===== *)
theory System
  imports Lifecycle Event_System
begin

text \<open>
  The whole server as an executable event system: what happens outside (a datagram arrives, a
  connection is accepted, a round of a connection runs, a signal is delivered) is an event, and the
  state after it is a function of the state before. A run is a list of events, in the order in which
  the tasks take effect. What the limiter and the counters see of a run is proved through the
  locale \<open>event_system\<close>, interpreted as \<open>sys\<close>.
\<close>

section \<open>Events\<close>

datatype server_event =
    Datagram udp_env bytes ip_addr
  | Connection
  | Round ticks nat ip_addr u64 tcp_stream
  | Limit_reached u64
  | Signal file_reads instant unix_signal

fun server_next :: "'n hickory \<Rightarrow> codecs \<Rightarrow> server_event \<Rightarrow> 'n daemon \<Rightarrow> 'n daemon" where
  "server_next H C (Datagram env data addr) d =
     d\<lparr>d_server := snd (snd (handle_udp_query H env data addr (d_server d)))\<rparr>"
| "server_next H C Connection d = d\<lparr>d_server := with_metrics record_tcp_connection (d_server d)\<rparr>"
| "server_next H C (Round tk elapsed addr q st) d =
     d\<lparr>d_server := next_server (tcp_round H tk elapsed addr q (d_server d) st)\<rparr>"
| "server_next H C (Limit_reached q) d =
     d\<lparr>d_server := with_metrics (record_tcp_connection_closed q) (d_server d)\<rparr>"
| "server_next H C (Signal read_file now sig) d =
     (if d_cancelled d then d else fst (handle_signal H C read_file now sig d))"

definition starts :: "'n hickory \<Rightarrow> codecs \<Rightarrow> 'n daemon \<Rightarrow> bool" where
  "starts H C d \<longleftrightarrow> (\<exists>yaml read_file file_exists now args.
     startup H C yaml read_file file_exists now args = Inr d)"

abbreviation server_runs :: "'n hickory \<Rightarrow> codecs \<Rightarrow> server_event list \<Rightarrow> 'n daemon \<Rightarrow> 'n daemon" where
  "server_runs H C es d \<equiv> fold (server_next H C) es d"

text \<open>The events are the steps of the transition system, and a signal that comes too late is none.\<close>

lemma server_next_step: "server_next H C e d = d \<or> server_step H C d (server_next H C e d)"
proof (cases e)
  case (Datagram env data addr)
  then show ?thesis by (cases "handle_udp_query H env data addr (d_server d)") (auto intro: datagram)
next
  case (Signal read_file now sig)
  then show ?thesis by (cases "handle_signal H C read_file now sig d") (auto intro: signal)
qed (auto intro: connection tcp_round tcp_limit)

lemma server_step_next: "server_step H C d d' \<Longrightarrow> \<exists>e. d' = server_next H C e d"
proof (induction rule: server_step.induct)
  case (datagram env data addr d res sent s)
  then show ?case by (intro exI [of _ "Datagram env data addr"]) simp
next
  case (signal d read_file now sig d' go_on)
  then show ?case by (intro exI [of _ "Signal read_file now sig"]) simp
qed (metis server_next.simps)+

lemma reachable_run: "reachable H C d \<longleftrightarrow> (\<exists>d0 es. starts H C d0 \<and> d = server_runs H C es d0)"
proof
  show "reachable H C d \<Longrightarrow> \<exists>d0 es. starts H C d0 \<and> d = server_runs H C es d0"
  proof (induction rule: reachable.induct)
    case (started yaml read_file file_exists now args d)
    then have "starts H C d" unfolding starts_def by blast
    then show ?case by (intro exI [of _ d] exI [of _ "[]"]) simp
  next
    case (stepped d d')
    then obtain d0 es e where "starts H C d0" "d = server_runs H C es d0" "d' = server_next H C e d"
      using server_step_next by blast
    then show ?case by (intro exI [of _ d0] exI [of _ "es @ [e]"]) simp
  qed
next
  have "reachable H C d0 \<Longrightarrow> reachable H C (server_runs H C es d0)" for d0 es
  proof (induction es arbitrary: d0)
    case (Cons e es)
    have "reachable H C (server_next H C e d0)"
      using server_next_step [of H C e d0] stepped [OF Cons.prems] Cons.prems by auto
    then show ?case using Cons.IH by simp
  qed simp
  then show "\<exists>d0 es. starts H C d0 \<and> d = server_runs H C es d0 \<Longrightarrow> reachable H C d"
    by (auto simp: starts_def intro: started)
qed

interpretation sys: event_system "starts H C" "server_next H C" "reachable H C" for H C
  by unfold_locales (rule reachable_run)

section \<open>What an event amounts to\<close>

text \<open>The message a round reads off the stream, when it gets one that can be parsed.\<close>

definition round_message :: "'n hickory \<Rightarrow> tcp_stream \<Rightarrow> 'n message option" where
  "round_message H st =
     (case read_exact 2 st of
        Read_ok len_buf st \<Rightarrow>
          (let msg_len = unat (from_be_bytes (len_buf ! 0) (len_buf ! 1)) in
           if msg_len = 0 \<or> MAX_TCP_DNS_PACKET_SIZE < msg_len then None
           else case read_exact msg_len st of
             Read_ok msg_buf _ \<Rightarrow> message_from_bytes H msg_buf | _ \<Rightarrow> None)
      | _ \<Rightarrow> None)"

text \<open>The calls of the limiter: a datagram always asks, a connection only once it has a query.\<close>

fun limiter_calls :: "'n hickory \<Rightarrow> server_event \<Rightarrow> (ticks \<times> ip_addr) list" where
  "limiter_calls H (Datagram env data addr) = [(ue_ticks env, addr)]"
| "limiter_calls H (Round tk elapsed addr q st) = (if round_message H st = None then [] else [(tk, addr)])"
| "limiter_calls H _ = []"

text \<open>What the counters record: a query processed, a query refused by the limiter, a connection.\<close>

datatype 'n occurrence =
    Processed protocol ticks ip_addr "'n message"
  | Limited protocol ticks ip_addr
  | Connected

fun event_occurs :: "'n hickory \<Rightarrow> server_event \<Rightarrow> 'n daemon \<Rightarrow> 'n occurrence list" where
  "event_occurs H (Datagram env data addr) d =
     (if \<not> fst (limiter_allows (ue_ticks env) addr (d_server d)) then [Limited Udp (ue_ticks env) addr]
      else case message_from_bytes H data of
        None \<Rightarrow> [] | Some query \<Rightarrow> [Processed Udp (ue_ticks env) addr query])"
| "event_occurs H (Round tk elapsed addr q st) d =
     (case round_message H st of
        None \<Rightarrow> []
      | Some query \<Rightarrow>
          if \<not> fst (limiter_allows tk addr (d_server d)) then [Limited Tcp tk addr]
          else [Processed Tcp tk addr query])"
| "event_occurs H Connection d = [Connected]"
| "event_occurs H _ d = []"

abbreviation occurs :: "'n hickory \<Rightarrow> codecs \<Rightarrow> server_event list \<Rightarrow> 'n daemon \<Rightarrow> 'n occurrence list" where
  "occurs H C es d \<equiv> along (server_next H C) (event_occurs H) es d"

fun recorded :: "'n occurrence \<Rightarrow> metrics_event list" where
  "recorded (Processed p tk addr query) =
     Ev_query p (msg_edns query \<noteq> None) #
     (case first_query query of Some q \<Rightarrow> [Ev_query_type (q_type q)] | None \<Rightarrow> [])"
| "recorded (Limited p tk addr) = [Ev_rate_limited]"
| "recorded Connected = [Ev_tcp_connection]"

declare recorded.simps(1) [simp del]

section \<open>The recordings of an event\<close>

text \<open>The recordings that a run is judged by; the others are latencies, responses, errors and ends.\<close>

fun counted :: "metrics_event \<Rightarrow> bool" where
  "counted (Ev_query _ _) = True"
| "counted (Ev_query_type _) = True"
| "counted Ev_rate_limited = True"
| "counted Ev_tcp_connection = True"
| "counted _ = False"

definition records :: "metrics_event list \<Rightarrow> metrics \<Rightarrow> metrics \<Rightarrow> bool" where
  "records K m m' \<longleftrightarrow> (\<exists>ms. m' = record_all ms m \<and> filter counted ms = K)"

lemma records_refl [simp]: "records [] m m"
  unfolding records_def by (rule exI [of _ "[]"]) simp

lemma records_trans: "records K m m' \<Longrightarrow> records K' m' m'' \<Longrightarrow> records (K @ K') m m''"
  unfolding records_def by (metis fold_append comp_apply filter_append)

lemma records_event:
  "records K m m' \<Longrightarrow> counted e \<Longrightarrow> records (K @ [e]) m (apply_event e m')"
  "records K m m' \<Longrightarrow> \<not> counted e \<Longrightarrow> records K m (apply_event e m')"
proof -
  assume "records K m m'"
  then obtain ms where "m' = record_all ms m" "filter counted ms = K" by (auto simp: records_def)
  then show "counted e \<Longrightarrow> records (K @ [e]) m (apply_event e m')"
    and "\<not> counted e \<Longrightarrow> records K m (apply_event e m')"
    unfolding records_def by (auto intro!: exI [of _ "ms @ [e]"])
qed

lemmas records_quiet =
  records_event(2) [where e = "Ev_latency t" for t, simplified]
  records_event(2) [where e = "Ev_response rc" for rc, simplified]
  records_event(2) [where e = "Ev_tcp_closed q" for q, simplified]
  records_event(2) [where e = Ev_tcp_timeout, simplified]
  records_event(2) [where e = Ev_error, simplified]

lemma records_question:
  assumes "records [] m m'"
  shows "records (recorded (Processed p tk addr query)) m (record_question p query m')"
proof -
  have q: "records [Ev_query p e] m (record_query p e m')" for e
    using records_event(1) [OF assms, of "Ev_query p e"] by simp
  show ?thesis
    using q [of "msg_edns query \<noteq> None"] records_event(1) [OF q, of "Ev_query_type t" for t]
    by (simp add: recorded.simps record_question_def split: option.split)
qed

lemma records_limited: "records [] m m' \<Longrightarrow> records [Ev_rate_limited] m (record_rate_limited m')"
  using records_event(1) [of "[]" m m' Ev_rate_limited] by simp

text \<open>What a handler leaves behind: its recordings, and the limiter after the calls it made.\<close>

definition ask :: "ticks \<times> ip_addr \<Rightarrow> rate_limiter option \<Rightarrow> rate_limiter option" where
  "ask c = map_option (\<lambda>rl. snd (check_rate_limit (fst c) (snd c) rl))"

definition leaves :: "metrics_event list \<Rightarrow> rate_limiter option \<Rightarrow> metrics \<Rightarrow> 'n dns_server \<Rightarrow> bool" where
  "leaves K rl m s \<longleftrightarrow> records K m (srv_metrics s) \<and> srv_rate_limiter s = rl"

lemma leaves_quiet [intro]:
  assumes "leaves K rl m s"
  shows "leaves K rl m (with_metrics (record_latency t) s)"
    "leaves K rl m (with_metrics (record_latency t \<circ> record_response rc) s)"
    "leaves K rl m (with_metrics (record_latency t \<circ> record_error) s)"
    "leaves K rl m (with_metrics (record_response rc \<circ> record_error) s)"
    "leaves K rl m (with_metrics record_error s)"
    "leaves K rl m (with_metrics (record_tcp_connection_closed q) s)"
    "leaves K rl m (with_metrics (record_tcp_connection_closed q \<circ> record_tcp_connection_timeout) s)"
  using assms by (auto simp: leaves_def intro!: records_quiet)

lemma leaves_limiter:
  "limiter_allows tk addr s = (ok, s') \<Longrightarrow> leaves [] (ask (tk, addr) (srv_rate_limiter s)) (srv_metrics s) s'"
  by (auto simp: limiter_allows_def leaves_def ask_def split: option.splits prod.splits)

lemma leaves_question:
  "leaves [] rl m s \<Longrightarrow>
     leaves (recorded (Processed p tk addr query)) rl m (with_metrics (record_question p query) s)"
  by (auto simp: leaves_def intro: records_question)

lemma leaves_limited:
  assumes "leaves [] rl m s"
  shows "leaves [Ev_rate_limited] rl m (with_metrics record_rate_limited s)"
    and "leaves [Ev_rate_limited] rl m (with_metrics (record_response rc \<circ> record_rate_limited) s)"
  using assms by (auto simp: leaves_def intro!: records_quiet records_limited)

lemma send_response_leaves:
  assumes "leaves K rl m s"
  shows "leaves K rl m (snd (snd (send_response H env r s)))"
  using assms
  by (auto simp: send_response_def udp_send_def Let_def
      split: option.split truncation.split sum.split)

lemma handle_udp_query_leaves:
  "leaves (concat (map recorded (event_occurs H (Datagram env data addr) d)))
     (ask (ue_ticks env, addr) (srv_rate_limiter (d_server d))) (srv_metrics (d_server d))
     (snd (snd (handle_udp_query H env data addr (d_server d))))"
proof -
  obtain ok s where lim: "limiter_allows (ue_ticks env) addr (d_server d) = (ok, s)" by fastforce
  note s = leaves_limiter [OF lim]
  show ?thesis
  proof (cases ok)
    case False
    then show ?thesis using leaves_limited(1) [OF s]
      by (auto simp: handle_udp_query_def lim udp_send_def with_metrics_def split: sum.split)
  next
    case True
    show ?thesis
    proof (cases "message_from_bytes H data")
      case None
      then show ?thesis using True s by (auto simp: handle_udp_query_def lim udp_send_def split: sum.split)
    next
      case (Some query)
      then show ?thesis using True leaves_question [OF s, of Udp "ue_ticks env" addr query]
        by (auto simp: handle_udp_query_def lim Let_def split: sum.split intro!: send_response_leaves)
    qed
  qed
qed

definition round_leaves :: "metrics_event list \<Rightarrow> rate_limiter option \<Rightarrow> metrics \<Rightarrow> 'n tcp_next \<Rightarrow> bool" where
  "round_leaves K rl m x \<longleftrightarrow> leaves K rl m (next_server x)"

lemma round_leaves_simps [simp]:
  "round_leaves K rl m (Next s st) \<longleftrightarrow> leaves K rl m s" "round_leaves K rl m (Return r s st) \<longleftrightarrow> leaves K rl m s"
  "round_leaves K rl m (Blocks s st) \<longleftrightarrow> leaves K rl m s"
  by (simp_all add: round_leaves_def)

lemmas tcp_reply_leaves = tcp_reply_cases [where P = "round_leaves K rl m" for K rl m]
lemmas axfr_send_leaves = axfr_send_cases [where P = "round_leaves K rl m" for K rl m]

lemma answer_tcp_query_leaves:
  "leaves K rl m s \<Longrightarrow> round_leaves K rl m (answer_tcp_query H t query s st)"
  by (auto simp: answer_tcp_query_def handle_axfr_def split: option.split bool.split sum.split
      intro!: tcp_reply_leaves axfr_send_leaves)

lemma handle_tcp_message_leaves:
  "round_leaves
     (case message_from_bytes H buf of None \<Rightarrow> []
      | Some query \<Rightarrow> recorded (if fst (limiter_allows tk addr s) then Processed Tcp tk addr query else Limited Tcp tk addr))
     (if message_from_bytes H buf = None then srv_rate_limiter s else ask (tk, addr) (srv_rate_limiter s))
     (srv_metrics s) (handle_tcp_message H tk t addr buf s st)"
proof (cases "message_from_bytes H buf")
  case None
  have "leaves [] (srv_rate_limiter s) (srv_metrics s) s" by (simp add: leaves_def)
  then show ?thesis using None by (auto simp: handle_tcp_message_def intro!: tcp_reply_leaves leaves_quiet)
next
  case (Some query)
  obtain ok s1 where lim: "limiter_allows tk addr s = (ok, s1)" by fastforce
  note s1 = leaves_limiter [OF lim]
  show ?thesis
  proof (cases ok)
    case True
    then show ?thesis using Some lim answer_tcp_query_leaves [OF leaves_question [OF s1]]
      by (simp add: handle_tcp_message_def)
  next
    case False
    then show ?thesis using Some lim leaves_limited [OF s1]
      by (auto simp: handle_tcp_message_def intro!: tcp_reply_leaves leaves_quiet)
  qed
qed

lemma tcp_round_leaves:
  "leaves (concat (map recorded (event_occurs H (Round tk t addr q st) d)))
     (fold ask (limiter_calls H (Round tk t addr q st)) (srv_rate_limiter (d_server d)))
     (srv_metrics (d_server d)) (next_server (tcp_round H tk t addr q (d_server d) st))"
proof -
  have same: "leaves [] (srv_rate_limiter s) (srv_metrics s) s" for s :: "'a dns_server"
    by (simp add: leaves_def)
  note message = handle_tcp_message_leaves [unfolded round_leaves_def]
  show ?thesis
  proof (cases "read_exact 2 st")
    case (Read_ok len st1)
    let ?n = "unat (from_be_bytes (len ! 0) (len ! 1))"
    show ?thesis
    proof (cases "?n = 0 \<or> MAX_TCP_DNS_PACKET_SIZE < ?n")
      case True
      then show ?thesis using Read_ok same by (auto simp: tcp_round_def round_message_def Let_def)
    next
      case False
      show ?thesis
      proof (cases "read_exact ?n st1")
        case R: (Read_ok buf st2)
        with Read_ok False have "round_message H st = message_from_bytes H buf"
          "tcp_round H tk t addr q (d_server d) st = handle_tcp_message H tk t addr buf (d_server d) st2"
          by (auto simp: round_message_def tcp_round_def Let_def)
        then show ?thesis using message [where H = H and buf = buf and tk = tk and addr = addr and s = "d_server d"]
          by (cases "message_from_bytes H buf") (auto split: if_splits)
      qed (use Read_ok False same in \<open>auto simp: tcp_round_def round_message_def Let_def\<close>)
    qed
  qed (use same in \<open>auto simp: tcp_round_def round_message_def Let_def\<close>)
qed

lemma signal_leaves:
  "handle_signal H C read_file now sig d = (d', go_on) \<Longrightarrow>
     srv_metrics (d_server d') = srv_metrics (d_server d) \<and>
     srv_rate_limiter (d_server d') = srv_rate_limiter (d_server d)"
  by (cases sig) (auto simp: handle_signal_def log_metrics_def reload_zones_def split: sum.splits)

lemma server_next_leaves:
  "leaves (concat (map recorded (event_occurs H e d))) (fold ask (limiter_calls H e) (srv_rate_limiter (d_server d)))
     (srv_metrics (d_server d)) (d_server (server_next H C e d))"
proof (cases e)
  case (Datagram env data addr)
  then show ?thesis using handle_udp_query_leaves [of H env data addr d] by (simp del: event_occurs.simps)
next
  case (Round tk t addr q st)
  then show ?thesis using tcp_round_leaves [of H tk t addr q st d] by simp
next
  case Connection
  then show ?thesis using records_event(1) [of "[]" "srv_metrics (d_server d)" _ Ev_tcp_connection]
    by (simp add: leaves_def)
next
  case (Signal read_file now sig)
  then show ?thesis
    by (cases "handle_signal H C read_file now sig d") (auto simp: leaves_def dest: signal_leaves)
qed (simp add: leaves_def records_quiet)

section \<open>Runs\<close>

text \<open>The counters after a run are those of the recordings of what occurred in it.\<close>

lemma run_records:
  "records (concat (map recorded (occurs H C es d))) (srv_metrics (d_server d))
     (srv_metrics (d_server (server_runs H C es d)))"
proof (rule along_relates [where R = "\<lambda>K d d'. records (concat (map recorded K))
      (srv_metrics (d_server d)) (srv_metrics (d_server d'))"])
  show "records (concat (map recorded (event_occurs H e d))) (srv_metrics (d_server d))
      (srv_metrics (d_server (server_next H C e d)))" for e d
    using server_next_leaves [of H e d C] by (simp add: leaves_def)
qed (auto intro: records_trans)

lemma records_count:
  assumes "records (concat (map recorded os)) m m'" and "\<And>e. P e \<Longrightarrow> counted e"
    and "\<And>x. count_events P (recorded x) = (if Q x then 1 else 0)"
    and "\<And>ms. f (record_all ms m) = f m + of_nat (count_events P ms)"
  shows "f m' = f m + of_nat (length (filter Q os))"
proof -
  from assms(1) obtain ms where ms: "m' = record_all ms m" "filter counted ms = concat (map recorded os)"
    by (auto simp: records_def)
  have "count_events P ms = count_events P (filter counted ms)"
    unfolding count_events_def filter_filter by (rule arg_cong [where f = length], rule filter_cong)
      (auto dest: assms(2))
  also have "\<dots> = sum_list (map (\<lambda>x. count_events P (recorded x)) os)"
    unfolding ms(2) by (induction os) (simp_all add: count_events_def)
  also have "\<dots> = length (filter Q os)" by (induction os) (simp_all add: assms(3))
  finally show ?thesis by (simp add: ms(1) assms(4))
qed

text \<open>The limiter after a run is the limiter after the calls of the run.\<close>

lemma run_limiter:
  assumes "reachable H C d"
  shows "srv_rate_limiter (d_server (server_runs H C es d)) =
    fold ask (concat (map (limiter_calls H) es)) (srv_rate_limiter (d_server d))"
proof -
  have step: "srv_rate_limiter (d_server (server_next H C e d)) =
      fold ask (limiter_calls H e) (srv_rate_limiter (d_server d))" for e d
    using server_next_leaves [of H e d C] by (simp add: leaves_def)
  show ?thesis
    using sys.component_run [OF assms, where view = "\<lambda>d. srv_rate_limiter (d_server d)" and act = ask
        and ops = "\<lambda>e _. limiter_calls H e" and es = es] step
    by (simp add: along_const)
qed

text \<open>The calls the limiter allowed for the queries that were processed.\<close>

fun admitted :: "'n occurrence \<Rightarrow> (ticks \<times> ip_addr) list" where
  "admitted (Processed p tk addr query) = [(tk, addr)]"
| "admitted _ = []"

lemma run_checks_append:
  "run_checks check (xs @ ys) s =
     (let (bs, s') = run_checks check xs s; (cs, s'') = run_checks check ys s' in (bs @ cs, s''))"
  by (induction check xs s rule: run_checks.induct) (auto simp: Let_def split: prod.split)

lemma length_run_checks: "length (fst (run_checks check es s)) = length es"
  by (induction check es s rule: run_checks.induct) (auto simp: Let_def split: prod.split)

lemma accepted_append: "length bs = length xs \<Longrightarrow> accepted (xs @ ys) (bs @ cs) = accepted xs bs @ accepted ys cs"
  by (simp add: accepted_def)

lemma fold_ask: "fold ask cs (Some rl) = Some (snd (run_checks check_rate_limit cs rl))"
  by (induction cs arbitrary: rl) (auto simp: ask_def Let_def split: prod.split)

lemma event_admitted:
  assumes "srv_rate_limiter (d_server d) = Some rl"
  shows "length (filter P (concat (map admitted (event_occurs H e d)))) \<le>
    length (filter P (accepted (limiter_calls H e) (fst (run_checks check_rate_limit (limiter_calls H e) rl))))"
proof -
  have allows: "fst (limiter_allows tk addr (d_server d)) = fst (check_rate_limit tk addr rl)" for tk addr
    using assms by (simp add: limiter_allows_def split: prod.split)
  show ?thesis
    by (cases e) (auto simp: allows accepted_def Let_def split: option.split prod.split if_splits)
qed

lemma run_admitted:
  assumes "srv_rate_limiter (d_server d) = Some rl"
  shows "length (filter P (concat (map admitted (occurs H C es d)))) \<le>
    length (filter P (accepted (concat (map (limiter_calls H) es))
      (fst (run_checks check_rate_limit (concat (map (limiter_calls H) es)) rl))))"
  using assms
proof (induction es arbitrary: d rl)
  case (Cons e es)
  let ?cs = "limiter_calls H e" and ?ds = "concat (map (limiter_calls H) es)"
  let ?rl = "snd (run_checks check_rate_limit ?cs rl)"
  have "srv_rate_limiter (d_server (server_next H C e d)) = Some ?rl"
    using server_next_leaves [of H e d C] Cons.prems by (simp add: leaves_def fold_ask)
  note rest = Cons.IH [OF this]
  have "fst (run_checks check_rate_limit (?cs @ ?ds) rl) =
      fst (run_checks check_rate_limit ?cs rl) @ fst (run_checks check_rate_limit ?ds ?rl)"
    by (simp add: run_checks_append Let_def split: prod.split)
  then show ?case using rest event_admitted [OF Cons.prems, of P H e]
    by (simp add: accepted_append length_run_checks)
qed simp

lemma startup_limiter:
  assumes "startup H C yaml read_file file_exists now args = Inr d"
  shows "srv_rate_limiter (d_server d) =
      map_option (\<lambda>qps. rate_limiter_new qps now) (rate_limit (cfg_server (d_config d)))"
    and "srv_metrics (d_server d) = metrics_new now"
  using assms by (auto simp: startup_def Let_def dns_server_new_def split: sum.splits)

definition query_with :: "(protocol \<Rightarrow> 'n message \<Rightarrow> bool) \<Rightarrow> 'n occurrence \<Rightarrow> bool" where
  "query_with R x = (case x of Processed p tk addr query \<Rightarrow> R p query | _ \<Rightarrow> False)"

definition was_limited :: "'n occurrence \<Rightarrow> bool" where
  "was_limited x = (case x of Limited p tk addr \<Rightarrow> True | _ \<Rightarrow> False)"

definition was_connection :: "'n occurrence \<Rightarrow> bool" where
  "was_connection x = (case x of Connected \<Rightarrow> True | _ \<Rightarrow> False)"

lemma records_counts:
  assumes "records (concat (map recorded os)) m m'"
  shows "total_queries m' = total_queries m + of_nat (length (filter (query_with (\<lambda>_ _. True)) os))"
    and "udp_queries m' = udp_queries m + of_nat (length (filter (query_with (\<lambda>p _. p = Udp)) os))"
    and "tcp_queries m' = tcp_queries m + of_nat (length (filter (query_with (\<lambda>p _. p = Tcp)) os))"
    and "edns_queries m' =
      edns_queries m + of_nat (length (filter (query_with (\<lambda>_ query. msg_edns query \<noteq> None)) os))"
    and "(case hm_get (\<lambda>t. t) (query_types m') t of Some n \<Rightarrow> n | None \<Rightarrow> 0) =
      (case hm_get (\<lambda>t. t) (query_types m) t of Some n \<Rightarrow> n | None \<Rightarrow> 0) +
      of_nat (length (filter (query_with (\<lambda>_ query. map_option q_type (first_query query) = Some t)) os))"
    and "rate_limited m' = rate_limited m + of_nat (length (filter was_limited os))"
    and "tcp_connections m' = tcp_connections m + of_nat (length (filter was_connection os))"
  by (rule records_count [OF assms _ _ query_counters(1)] records_count [OF assms _ _ query_counters(2)]
      records_count [OF assms _ _ query_counters(3)] records_count [OF assms _ _ query_counters(4)]
      records_count [OF assms _ _ query_type_counter] records_count [OF assms _ _ query_counters(5)]
      records_count [OF assms _ _ query_counters(7)];
      (auto simp: recorded.simps query_with_def was_limited_def was_connection_def
         split: option.split occurrence.split)?)+

definition limiter_good :: "u32 \<Rightarrow> rate_limiter \<Rightarrow> bool" where
  "limiter_good qps rl \<longleftrightarrow>
     limiter_inv (from_secs 1) (unat qps) rl \<and> stamps_bounded rl"

lemma limiter_good_fold:
  "limiter_good qps rl \<Longrightarrow> \<exists>rl'. fold ask cs (Some rl) = Some rl' \<and> limiter_good qps rl'"
  by (induction cs arbitrary: rl) (auto simp: ask_def limiter_good_def check_limiter_inv check_bounded)

lemma next_config: "reachable H C d \<Longrightarrow> d_config (server_next H C e d) = d_config d"
  using server_next_step [of H C e d] step_loaded reachable_loaded [of H C d] by metis

lemma run_config: "reachable H C d \<Longrightarrow> d_config (server_runs H C es d) = d_config d"
  by (induction es arbitrary: d) (simp_all add: next_config sys.reach_step)

section \<open>What a refused query can cause\<close>

text \<open>What an event sends to its client: the datagram, or what is on the stream after the round.\<close>

fun next_stream :: "'n tcp_next \<Rightarrow> tcp_stream" where
  "next_stream (Next s st) = st"
| "next_stream (Return r s st) = st"
| "next_stream (Blocks s st) = st"

fun sent_bytes :: "'n hickory \<Rightarrow> server_event \<Rightarrow> 'n daemon \<Rightarrow> bytes option" where
  "sent_bytes H (Datagram env data addr) d = fst (snd (handle_udp_query H env data addr (d_server d)))"
| "sent_bytes H (Round tk elapsed addr q st) d = Some (st_out (next_stream (tcp_round H tk elapsed addr q (d_server d) st)))"
| "sent_bytes H _ d = None"

definition with_zones :: "'n zone_store \<Rightarrow> 'n daemon \<Rightarrow> 'n daemon" where
  "with_zones zs d = d\<lparr>d_server := (d_server d)\<lparr>srv_zones := zs\<rparr>\<rparr>"

text \<open>
  An event is served when it has an effect that only the processing of a query has: its reply depends
  on the zones, or the counter of queries moves. The definition does not ask the limiter.
\<close>

definition consults_zones :: "'n hickory \<Rightarrow> server_event \<Rightarrow> 'n daemon \<Rightarrow> bool" where
  "consults_zones H e d \<longleftrightarrow> (\<exists>zs. sent_bytes H e (with_zones zs d) \<noteq> sent_bytes H e d)"

definition counts_query :: "'n hickory \<Rightarrow> codecs \<Rightarrow> server_event \<Rightarrow> 'n daemon \<Rightarrow> bool" where
  "counts_query H C e d \<longleftrightarrow>
     total_queries (srv_metrics (d_server (server_next H C e d))) \<noteq> total_queries (srv_metrics (d_server d))"

fun client_of :: "server_event \<Rightarrow> (ticks \<times> ip_addr) list" where
  "client_of (Datagram env data addr) = [(ue_ticks env, addr)]"
| "client_of (Round tk elapsed addr q st) = [(tk, addr)]"
| "client_of _ = []"

definition served :: "'n hickory \<Rightarrow> codecs \<Rightarrow> server_event \<Rightarrow> 'n daemon \<Rightarrow> (ticks \<times> ip_addr) list" where
  "served H C e d = (if consults_zones H e d \<or> counts_query H C e d then client_of e else [])"

lemma limiter_allows_zones:
  "limiter_allows tk addr (s\<lparr>srv_zones := zs\<rparr>) = map_prod id (srv_zones_update (\<lambda>_. zs)) (limiter_allows tk addr s)"
  by (simp add: limiter_allows_def split: option.split prod.split)

lemma udp_send_sent: "fst (snd (udp_send env buf s f)) = fst (snd (udp_send env buf s' g))"
  by (simp add: udp_send_def split: sum.split)

lemma tcp_reply_stream:
  assumes "\<And>st. next_stream (k s st) = st" and "\<And>st. next_stream (k' s' st) = st"
  shows "next_stream (tcp_reply buf s st k) = next_stream (tcp_reply buf s' st k')"
  using assms by (simp add: tcp_reply_def split: sum.split prod.split)

lemma handle_tcp_message_unserved:
  assumes "case message_from_bytes H buf of None \<Rightarrow> True | Some query \<Rightarrow> \<not> fst (limiter_allows tk addr s)"
  shows "next_stream (handle_tcp_message H tk t addr buf (s\<lparr>srv_zones := zs\<rparr>) st) =
    next_stream (handle_tcp_message H tk t addr buf s st)"
proof -
  obtain ok s1 where lim: "limiter_allows tk addr s = (ok, s1)" by fastforce
  then show ?thesis using assms
    by (auto simp: handle_tcp_message_def limiter_allows_zones split: option.split intro!: tcp_reply_stream)
qed

lemma unserved_reply:
  assumes "concat (map admitted (event_occurs H e d)) = []"
  shows "sent_bytes H e (with_zones zs d) = sent_bytes H e d"
proof (cases e)
  case (Datagram env data addr)
  obtain ok s1 where lim: "limiter_allows (ue_ticks env) addr (d_server d) = (ok, s1)" by fastforce
  with assms Datagram have "ok \<Longrightarrow> message_from_bytes H data = None"
    by (simp del: concat_eq_Nil_conv split: option.splits)
  with Datagram lim show ?thesis
    by (cases ok) (auto simp: with_zones_def handle_udp_query_def limiter_allows_zones intro: udp_send_sent)
next
  case (Round tk t addr q st)
  show ?thesis
  proof (cases "read_exact 2 st")
    case (Read_ok len st1)
    let ?n = "unat (from_be_bytes (len ! 0) (len ! 1))"
    show ?thesis
    proof (cases "read_exact ?n st1")
      case R: (Read_ok buf st2)
      have "case message_from_bytes H buf of None \<Rightarrow> True | Some query \<Rightarrow> \<not> fst (limiter_allows tk addr (d_server d))"
        if "\<not> (?n = 0 \<or> MAX_TCP_DNS_PACKET_SIZE < ?n)"
        using that assms Round Read_ok R by (auto simp: round_message_def split: option.splits if_splits)
      from handle_tcp_message_unserved [OF this] show ?thesis
        using Round Read_ok R by (auto simp: with_zones_def tcp_round_def Let_def)
    qed (use Round Read_ok in \<open>auto simp: with_zones_def tcp_round_def Let_def\<close>)
  qed (use Round in \<open>auto simp: with_zones_def tcp_round_def Let_def\<close>)
qed simp_all

lemma served_admitted: "served H C e d = [] \<or> served H C e d = concat (map admitted (event_occurs H e d))"
proof (cases "concat (map admitted (event_occurs H e d)) = []")
  case True
  then have "filter (query_with (\<lambda>_ _. True)) (event_occurs H e d) = []"
    by (auto simp: filter_empty_conv query_with_def split: occurrence.splits)
  with server_next_leaves [of H e d C] have "\<not> counts_query H C e d"
    unfolding leaves_def counts_query_def by (auto dest!: records_counts(1))
  with True show ?thesis by (simp add: served_def consults_zones_def unserved_reply)
next
  case False
  then have "concat (map admitted (event_occurs H e d)) = client_of e"
    by (cases e) (simp_all del: concat_eq_Nil_conv split: if_splits option.splits)
  then show ?thesis by (simp add: served_def)
qed

lemma run_served:
  "length (filter P (along (server_next H C) (served H C) es d)) \<le>
     length (filter P (concat (map admitted (occurs H C es d))))"
proof (induction es arbitrary: d)
  case (Cons e es)
  show ?case using served_admitted [of H C e d] Cons.IH [of "server_next H C e d"] by auto
qed simp

section \<open>Properties\<close>

text \<open>A run of the sample server: two datagrams of one client, a connection with a query.\<close>

definition test_query_bytes :: bytes where
  "test_query_bytes = [18, 52, 0, 0, 0, 0, 0, 0, 0, 0, 0, 0]"

definition test_events :: "server_event list" where
  "test_events =
     [Datagram \<lparr>ue_ticks = tick 1, ue_elapsed = 5, ue_send_ok = True\<rparr> test_query_bytes (V4 (10, 0, 0, 1)),
      Connection,
      Round (tick 2) 7 (V4 (10, 0, 0, 1)) 0
        \<lparr>st_in = 0 # 12 # test_query_bytes, st_end = Closes, st_out = [], st_writes = 9\<rparr>,
      Datagram \<lparr>ue_ticks = tick 3, ue_elapsed = 5, ue_send_ok = True\<rparr> [1] (V4 (10, 0, 0, 2))]"

lemma test_clock: "clock_run (concat (map (limiter_calls sample) test_events))"
proof -
  have "concat (map (limiter_calls sample) test_events) =
      [(tick 1, V4 (10, 0, 0, 1)), (tick 2, V4 (10, 0, 0, 1)), (tick 3, V4 (10, 0, 0, 2))]"
    by code_simp
  then show ?thesis by (simp add: clock_run_def ticks_ok_def tick_def)
qed

text \<open>
  C6. The rate limit holds for the server as a whole: over any run from the start, through any
  interleaving of datagrams, connections, reloads and other signals, with a clock that does not go
  back, at most \<open>qps\<close> queries of a client are served in any period of one second, over UDP and
  TCP together, where \<open>qps\<close> is the configured limit. A query is served when its reply depends on the
  zones or when it moves the counter of queries.
\<close>

theorem server_rate_limit:
  assumes "startup H C yaml read_file file_exists now args = Inr d"
    and "rate_limit (cfg_server (d_config d)) = Some qps"
    and "clock_run (concat (map (limiter_calls H) es))"
  shows "length (filter (\<lambda>(tk, b). b = a \<and> u \<le> t_now tk \<and> t_now tk < u + 1000000000)
      (along (server_next H C) (served H C) es d)) \<le> unat qps"
proof -
  have "srv_rate_limiter (d_server d) = Some (rate_limiter_new qps now)"
    using startup_limiter(1) [OF assms(1)] assms(2) by simp
  from run_served run_admitted [OF this] have "length (filter P (along (server_next H C) (served H C) es d)) \<le>
      length (filter P (accepted (concat (map (limiter_calls H) es))
        (fst (run_checks check_rate_limit (concat (map (limiter_calls H) es)) (rate_limiter_new qps now)))))" for P
    by (rule order_trans)
  from this limiter_bound [OF assms(3)] show ?thesis by (rule order_trans)
qed

theorem server_rate_limit_witness:
  "\<exists>d. test_startup = Inr d \<and>
     along (server_next sample sample_codecs) (served sample sample_codecs) test_events d \<noteq> [] \<and>
     length (filter (\<lambda>(tk, b). b = V4 (10, 0, 0, 1) \<and> 0 \<le> t_now tk \<and> t_now tk < 0 + 1000000000)
       (along (server_next sample sample_codecs) (served sample sample_codecs) test_events d)) \<le> 100"
proof -
  have "case test_startup of Inr d \<Rightarrow> rate_limit (cfg_server (d_config d)) = Some 100 \<and>
      counts_query sample sample_codecs (hd test_events) d | Inl _ \<Rightarrow> False" by code_simp
  then obtain d where d: "test_startup = Inr d" "rate_limit (cfg_server (d_config d)) = Some 100"
    and "counts_query sample sample_codecs (hd test_events) d"
    by (auto split: sum.splits)
  then have "served sample sample_codecs (hd test_events) d \<noteq> []" by (simp add: served_def test_events_def)
  then have "along (server_next sample sample_codecs) (served sample sample_codecs) test_events d \<noteq> []"
    by (simp add: test_events_def)
  with server_rate_limit [OF d(1) [unfolded test_startup_def] d(2) test_clock, of "V4 (10, 0, 0, 1)" 0] d(1)
  show ?thesis by auto
qed

text \<open>
  The counters tell what the server did: after any run from the start, the counters of queries,
  of queries by protocol, with EDNS and by type, of rate-limited queries and of connections are the
  numbers of queries processed, of refusals by the limiter and of connections accepted in the run,
  modulo \<open>2 ^ 64\<close>.
\<close>

theorem server_counts:
  assumes "startup H C yaml read_file file_exists now args = Inr d"
  shows "let m = srv_metrics (d_server (server_runs H C es d)); happened = occurs H C es d in
    total_queries m = of_nat (length (filter (query_with (\<lambda>_ _. True)) happened)) \<and>
    udp_queries m = of_nat (length (filter (query_with (\<lambda>p _. p = Udp)) happened)) \<and>
    tcp_queries m = of_nat (length (filter (query_with (\<lambda>p _. p = Tcp)) happened)) \<and>
    edns_queries m = of_nat (length (filter (query_with (\<lambda>_ query. msg_edns query \<noteq> None)) happened)) \<and>
    (case hm_get (\<lambda>t. t) (query_types m) t of Some n \<Rightarrow> n | None \<Rightarrow> 0) =
      of_nat (length (filter (query_with (\<lambda>_ query. map_option q_type (first_query query) = Some t)) happened)) \<and>
    rate_limited m = of_nat (length (filter was_limited happened)) \<and>
    tcp_connections m = of_nat (length (filter was_connection happened))"
proof -
  have "srv_metrics (d_server d) = metrics_new now" by (rule startup_limiter(2) [OF assms])
  note counts = records_counts [OF run_records [where H = H and C = C and es = es and d = d, unfolded this]]
  show ?thesis unfolding Let_def by (simp add: counts) (simp add: metrics_new_def)
qed

theorem server_counts_witness:
  "\<exists>d. test_startup = Inr d \<and>
     (let m = srv_metrics (d_server (server_runs sample sample_codecs test_events d)) in
      total_queries m = 2 \<and> udp_queries m = 1 \<and> tcp_queries m = 1 \<and> rate_limited m = 0 \<and> tcp_connections m = 1)"
proof -
  have "case test_startup of Inr d \<Rightarrow> map (case_occurrence (\<lambda>p _ _ _. Some (Some p)) (\<lambda>_ _ _. None) (Some None))
      (occurs sample sample_codecs test_events d) = [Some (Some Udp), Some None, Some (Some Tcp)] | Inl _ \<Rightarrow> False"
    by code_simp
  then obtain d tk1 a1 q1 tk2 a2 q2 where d: "test_startup = Inr d"
    and "occurs sample sample_codecs test_events d = [Processed Udp tk1 a1 q1, Connected, Processed Tcp tk2 a2 q2]"
    by (auto split: sum.splits occurrence.splits)
  with server_counts [OF d [unfolded test_startup_def], where es = test_events] show ?thesis
    by (intro exI [of _ d]) (simp add: Let_def query_with_def was_limited_def was_connection_def)
qed

text \<open>
  C32. The limiter of a running server. In every reachable state the server has a rate limiter
  exactly when the configuration sets a limit; its window is one second, its limit the configured
  one, it has one entry per client, and no client stores more stamps than the limit.
\<close>

theorem reachable_limiter:
  assumes "reachable H C d"
  shows "case rate_limit (cfg_server (d_config d)) of
      None \<Rightarrow> srv_rate_limiter (d_server d) = None
    | Some qps \<Rightarrow> \<exists>rl. srv_rate_limiter (d_server d) = Some rl \<and> window rl = 1000000000 \<and> max_qps rl = qps \<and>
        distinct (map fst (clients rl)) \<and> (\<forall>(a, c) \<in> set (clients rl). length (queries c) \<le> unat qps)"
proof -
  have "case rate_limit (cfg_server (d_config d)) of
      None \<Rightarrow> srv_rate_limiter (d_server d) = None
    | Some qps \<Rightarrow> \<exists>rl. srv_rate_limiter (d_server d) = Some rl \<and> limiter_good qps rl"
    using assms
  proof (induction rule: sys.invariant)
    case (init d)
    then obtain now where "srv_rate_limiter (d_server d) =
        map_option (\<lambda>qps. rate_limiter_new qps now) (rate_limit (cfg_server (d_config d)))"
      unfolding starts_def using startup_limiter(1) by blast
    moreover have "limiter_good qps (rate_limiter_new qps now)" for qps
      using new_inv by (simp add: limiter_good_def) (simp add: stamps_bounded_def rate_limiter_new_def)
    ultimately show ?case by (simp split: option.split)
  next
    case (step e d)
    note next_config [OF step(1), of e]
    moreover have "srv_rate_limiter (d_server (server_next H C e d)) =
        fold ask (limiter_calls H e) (srv_rate_limiter (d_server d))"
      using server_next_leaves [of H e d C] by (simp add: leaves_def)
    moreover have "fold ask cs None = None" for cs by (induction cs) (simp_all add: ask_def)
    ultimately show ?case using step(2) limiter_good_fold by (fastforce split: option.splits)
  qed
  then show ?thesis
    by (auto simp: limiter_good_def limiter_inv_def stamps_bounded_def from_secs_def hm_wf_def comp_def
        split: option.splits dest: word_unat_eq_iff [THEN iffD2])
qed

theorem reachable_limiter_witness:
  "\<exists>d rl. test_startup = Inr d \<and>
     srv_rate_limiter (d_server (server_runs sample sample_codecs test_events d)) = Some rl \<and>
     (\<forall>(a, c) \<in> set (clients rl). length (queries c) \<le> 100)"
proof -
  have "case test_startup of Inr d \<Rightarrow> rate_limit (cfg_server (d_config d)) = Some 100 | Inl _ \<Rightarrow> False" by code_simp
  then obtain d where d: "test_startup = Inr d" "rate_limit (cfg_server (d_config d)) = Some 100"
    by (auto split: sum.splits)
  let ?d = "server_runs sample sample_codecs test_events d"
  have "starts sample sample_codecs d" unfolding starts_def using d(1) [unfolded test_startup_def] by blast
  then have r0: "reachable sample sample_codecs d" by (rule sys.reach_init)
  then have r: "reachable sample sample_codecs ?d" by (rule sys.reach_fold)
  have "rate_limit (cfg_server (d_config ?d)) = Some 100" using run_config [OF r0] d(2) by simp
  with reachable_limiter [OF r] d(1) show ?thesis by auto
qed

end
