(* ===== verification/Connection_Run.thy ===== *)
theory Connection_Run
  imports System
begin

text \<open>
  A whole TCP connection (\<open>src/server.rs\<close>, \<open>handle_tcp_connection\<close>) as part of a run of the server:
  its rounds are events of the event system of \<open>System\<close>, interleaved with the events of all the
  other tasks. What is proved of runs, the rate limit, the counters and the invariants of reachable
  states, therefore holds with connections of any length in progress.
\<close>

section \<open>Interleaving\<close>

text \<open>What the other tasks do before each of the connection's own events.\<close>

fun interleave :: "(nat \<Rightarrow> server_event list) \<Rightarrow> nat \<Rightarrow> server_event list \<Rightarrow> server_event list" where
  "interleave others i [] = []"
| "interleave others i (e # es) = others i @ e # interleave others (Suc i) es"

text \<open>The events of a connection from the query number \<open>i\<close> on.\<close>

fun connection_event :: "(nat \<Rightarrow> ticks) \<Rightarrow> (nat \<Rightarrow> nat) \<Rightarrow> ip_addr \<Rightarrow> nat \<Rightarrow> server_event \<Rightarrow> bool" where
  "connection_event ticks elapsed addr i (Round tk t a q st) \<longleftrightarrow>
     tk = ticks i \<and> t = elapsed i \<and> a = addr \<and> unat q = i"
| "connection_event ticks elapsed addr i (Limit_reached q) \<longleftrightarrow> unat q = i"
| "connection_event ticks elapsed addr i _ \<longleftrightarrow> False"

fun connection_events :: "(nat \<Rightarrow> ticks) \<Rightarrow> (nat \<Rightarrow> nat) \<Rightarrow> ip_addr \<Rightarrow> nat \<Rightarrow> server_event list \<Rightarrow> bool" where
  "connection_events ticks elapsed addr i [] \<longleftrightarrow> True"
| "connection_events ticks elapsed addr i (e # es) \<longleftrightarrow>
     connection_event ticks elapsed addr i e \<and> connection_events ticks elapsed addr (Suc i) es"

section \<open>The other tasks, seen from a connection\<close>

text \<open>
  A signal that ends the process is handled once; a connection sees of the rest of the process only
  the shared server, so what the others do to it depends on the configuration and on whether such
  a signal came before.
\<close>

fun stops :: "server_event \<Rightarrow> bool" where
  "stops (Signal read_file now sig) \<longleftrightarrow> sig \<noteq> SIGHUP \<and> sig \<noteq> SIGUSR1"
| "stops _ \<longleftrightarrow> False"

definition stopped :: "(nat \<Rightarrow> server_event list) \<Rightarrow> nat \<Rightarrow> 'n daemon \<Rightarrow> bool" where
  "stopped others i d \<longleftrightarrow> d_cancelled d \<or> list_ex stops (concat (map others [0..<i]))"

definition among ::
  "'n hickory \<Rightarrow> codecs \<Rightarrow> (nat \<Rightarrow> ticks) \<Rightarrow> (nat \<Rightarrow> nat) \<Rightarrow> (nat \<Rightarrow> server_event list) \<Rightarrow> 'n daemon \<Rightarrow> 'n tcp_env" where
  "among H C ticks elapsed others d =
     \<lparr>te_ticks = ticks, te_elapsed = elapsed,
      te_others = (\<lambda>i s. d_server (server_runs H C (others i)
        (d\<lparr>d_server := s, d_cancelled := stopped others i d\<rparr>)))\<rparr>"

definition sees_same :: "'n daemon \<Rightarrow> 'n daemon \<Rightarrow> bool" where
  "sees_same d d' \<longleftrightarrow> d_server d = d_server d' \<and> d_config d = d_config d' \<and> d_cancelled d = d_cancelled d'"

lemma next_cancelled:
  "d_cancelled (server_next H C e d) \<longleftrightarrow> d_cancelled d \<or> stops e" "d_config (server_next H C e d) = d_config d"
  by (cases e; auto simp: handle_signal_def log_metrics_def reload_zones_def split: unix_signal.splits sum.splits)+

lemma runs_cancelled:
  "d_cancelled (server_runs H C es d) \<longleftrightarrow> d_cancelled d \<or> list_ex stops es"
  "d_config (server_runs H C es d) = d_config d"
  by (induction es arbitrary: d) (auto simp: next_cancelled)

lemma next_sees_same: "sees_same d d' \<Longrightarrow> sees_same (server_next H C e d) (server_next H C e d')"
  by (cases e)
     (auto simp: sees_same_def handle_signal_def log_metrics_def reload_zones_def
       split: unix_signal.splits sum.splits)

lemma runs_sees_same: "sees_same d d' \<Longrightarrow> sees_same (server_runs H C es d) (server_runs H C es d')"
  by (induction es arbitrary: d d') (auto intro: next_sees_same)

section \<open>A connection is a run\<close>

lemma loop_run:
  assumes "d_config d' = d_config d" and "d_cancelled d' = stopped others (unat q) d" and "q \<le> mx"
    and "env = among H C ticks elapsed others d"
  shows "\<exists>own. own \<noteq> [] \<and> length own \<le> Suc (unat mx - unat q) \<and>
    connection_events ticks elapsed addr (unat q) own \<and>
    d_server (server_runs H C (interleave others (unat q) own) d') =
      next_server (tcp_loop H env addr mx q (d_server d') st)"
  using assms(1-3)
proof (induction "unat mx - unat q" arbitrary: q d' st)
  case 0
  let ?d = "server_runs H C (others (unat q)) d'"
  from 0 have q: "mx \<le> q" "q = mx" by (auto simp: word_le_nat_alt word_unat_eq_iff)
  have "sees_same d' (d\<lparr>d_server := d_server d', d_cancelled := stopped others (unat q) d\<rparr>)"
    using 0 by (simp add: sees_same_def)
  from runs_sees_same [OF this, of H C "others (unat q)"]
  have "te_others env (unat q) (d_server d') = d_server ?d" by (simp add: assms(4) among_def sees_same_def)
  then show ?case
    using q by (intro exI [of _ "[Limit_reached q]"]) (simp add: tcp_loop.simps [of H env addr mx mx])
next
  case (Suc n)
  let ?i = "unat q"
  let ?d = "server_runs H C (others ?i) d'"
  from Suc(2) have lt: "q < mx" by (simp add: word_less_nat_alt)
  have "sees_same d' (d\<lparr>d_server := d_server d', d_cancelled := stopped others ?i d\<rparr>)"
    using Suc.prems by (simp add: sees_same_def)
  from runs_sees_same [OF this, of H C "others ?i"]
  have others: "te_others env ?i (d_server d') = d_server ?d" by (simp add: assms(4) among_def sees_same_def)
  let ?r = "tcp_round H (ticks ?i) (elapsed ?i) addr q (d_server ?d) st"
  let ?e = "Round (ticks ?i) (elapsed ?i) addr q st"
  let ?d' = "server_next H C ?e ?d"
  have loop: "tcp_loop H env addr mx q (d_server d') st =
      (case ?r of Next s st \<Rightarrow> tcp_loop H env addr mx (q + 1) s st | r \<Rightarrow> r)"
    using lt [unfolded linorder_not_le [symmetric]]
    by (subst tcp_loop.simps) (simp add: others Let_def, simp add: assms(4) among_def)
  show ?case
  proof (cases "\<exists>s st'. ?r = Next s st'")
    case True
    then obtain s st' where r: "?r = Next s st'" by blast
    have "d_config ?d' = d_config d" "d_cancelled ?d' = stopped others (Suc ?i) d"
      using Suc.prems by (auto simp: runs_cancelled stopped_def simp del: server_next.simps simp add: next_cancelled)
    moreover have i: "unat (q + 1) = Suc ?i" "q + 1 \<le> mx"
      using unat_succ [OF lt] lt by (simp_all add: word_le_nat_alt word_less_nat_alt)
    moreover have "n = unat mx - unat (q + 1)" using Suc(2) i(1) by simp
    ultimately obtain own where own: "own \<noteq> []" "length own \<le> Suc (unat mx - Suc ?i)"
      "connection_events ticks elapsed addr (Suc ?i) own"
      "d_server (server_runs H C (interleave others (Suc ?i) own) ?d') =
         next_server (tcp_loop H env addr mx (q + 1) (d_server ?d') st')"
      using Suc(1) [of "q + 1" ?d' st'] by (auto simp del: server_next.simps)
    have "d_server ?d' = s" by (simp add: r)
    with own loop r show ?thesis
      using Suc(2) by (intro exI [of _ "?e # own"]) auto
  next
    case False
    then have "tcp_loop H env addr mx q (d_server d') st = ?r" using loop by (cases ?r) auto
    then show ?thesis by (intro exI [of _ "[?e]"]) simp
  qed
qed

section \<open>Property\<close>

text \<open>
  C16. A connection is part of a run. Whatever events the other tasks take between the rounds of a
  connection, reloads and signals included, the handler leaves the shared server in exactly the
  state the run leaves it in that accepts the connection and then interleaves the others' events
  with at most one event of the connection per query and one for the limit, in order.
\<close>

theorem connection_is_run:
  "\<exists>own. own \<noteq> [] \<and> length own \<le> Suc (unat (tcp_max_queries (srv_tcp_config (d_server d)))) \<and>
    connection_events ticks elapsed addr 0 own \<and>
    next_server (handle_tcp_connection H (among H C ticks elapsed others d) addr (d_server d) st) =
      d_server (server_runs H C (Connection # interleave others 0 own) d)"
proof -
  let ?d = "server_next H C Connection d"
  have "\<exists>own. own \<noteq> [] \<and> length own \<le> Suc (unat (tcp_max_queries (srv_tcp_config (d_server d))) - unat (0 :: u64)) \<and>
    connection_events ticks elapsed addr (unat (0 :: u64)) own \<and>
    d_server (server_runs H C (interleave others (unat (0 :: u64)) own) ?d) =
      next_server (tcp_loop H (among H C ticks elapsed others d) addr
        (tcp_max_queries (srv_tcp_config (d_server d))) 0 (d_server ?d) st)"
    by (rule loop_run) (simp_all add: stopped_def)
  then show ?thesis by (auto simp: handle_tcp_connection_def)
qed

end
