(* ===== verification/Api.thy ===== *)
theory Api
  imports Metrics
begin

text \<open>
  \<open>src/api.rs\<close>: the HTTP endpoints. Routing by \<open>axum\<close> is a function from the path to the handler;
  a JSON value has the numbers, strings and objects the handlers build. The \<open>Debug\<close> text of a
  record type is a parameter.
\<close>

datatype json = JNum u64 | JStr string | JObj "(string \<times> json) list"

definition health_check :: json where
  "health_check = JObj [(''status'', JStr ''healthy''), (''service'', JStr ''lrmdns'')]"

definition as_secs :: "nat \<Rightarrow> u64" where
  "as_secs d = of_nat (d div 1000000000)"

definition query_types_json :: "(record_type \<Rightarrow> string) \<Rightarrow> (record_type, u64) hash_map \<Rightarrow> (string, u64) hash_map" where
  "query_types_json debug types =
     fold (\<lambda>(k, v) m. hm_insert (\<lambda>s. s) m (debug k) v) types []"

definition get_metrics :: "(record_type \<Rightarrow> string) \<Rightarrow> nat \<Rightarrow> metrics \<Rightarrow> json" where
  "get_metrics debug now m =
     (let snapshot = get_snapshot now m in
      JObj [
        (''uptime_seconds'', JNum (as_secs (snap_uptime snapshot))),
        (''queries'', JObj [
          (''total'', JNum (snap_total_queries snapshot)),
          (''udp'', JNum (snap_udp_queries snapshot)),
          (''tcp'', JNum (snap_tcp_queries snapshot)),
          (''edns'', JNum (snap_edns_queries snapshot))]),
        (''responses'', JObj [
          (''noerror'', JNum (snap_noerror_responses snapshot)),
          (''nxdomain'', JNum (snap_nxdomain_responses snapshot)),
          (''servfail'', JNum (snap_servfail_responses snapshot)),
          (''refused'', JNum (snap_refused_responses snapshot)),
          (''formerr'', JNum (snap_formerr_responses snapshot))]),
        (''query_types'', JObj (map (\<lambda>(k, v). (k, JNum v)) (query_types_json debug (snap_query_types snapshot)))),
        (''performance'', JObj [
          (''avg_latency_us'', JNum (snap_avg_latency_us snapshot)),
          (''min_latency_us'', JNum (snap_min_latency_us snapshot)),
          (''max_latency_us'', JNum (snap_max_latency_us snapshot)),
          (''qps'', JNum (if 0 < as_secs (snap_uptime snapshot)
             then snap_total_queries snapshot div as_secs (snap_uptime snapshot) else 0))]),
        (''rate_limited'', JNum (snap_rate_limited snapshot)),
        (''errors'', JNum (snap_errors snapshot))])"

text \<open>A \<open>GET\<close> of a path; \<open>None\<close> is the router's not-found reply.\<close>

definition api_get :: "(record_type \<Rightarrow> string) \<Rightarrow> nat \<Rightarrow> metrics \<Rightarrow> string \<Rightarrow> json option" where
  "api_get debug now m path =
     (if path = ''/health'' then Some health_check
      else if path = ''/metrics'' then Some (get_metrics debug now m)
      else None)"

section \<open>Query types in the answer\<close>

text \<open>With distinct texts for distinct types, the object has the count of every type.\<close>

lemma query_types_json_get:
  assumes "inj debug" and "hm_wf (\<lambda>t. t) types"
  shows "hm_get (\<lambda>s. s) (query_types_json debug types) (debug t) = hm_get (\<lambda>t. t) types t"
proof -
  have "hm_get (\<lambda>s. s) (fold (\<lambda>(k, v) m. hm_insert (\<lambda>s. s) m (debug k) v) types m) (debug t) =
      (case hm_get (\<lambda>t. t) types t of Some v \<Rightarrow> Some v | None \<Rightarrow> hm_get (\<lambda>s. s) m (debug t))" for m
    using assms(2)
  proof (induction types arbitrary: m)
    case (Cons p types)
    obtain k v where p: "p = (k, v)" by (cases p)
    have wf: "hm_wf (\<lambda>t. t) types" using Cons.prems by (simp add: hm_wf_def)
    have "hm_get (\<lambda>t. t) types k = None"
      using Cons.prems by (force simp: hm_get_None_iff hm_wf_def p)
    then show ?case
      using Cons.IH [OF wf] assms(1) by (auto simp: p hm_simps inj_eq split: option.split)
  qed simp
  then show ?thesis by (simp add: query_types_json_def split: option.split)
qed

end
