(* ===== verification/Http_Server.thy ===== *)
theory Http_Server
  imports System Api
begin

text \<open>
  The HTTP API of the running server (\<open>src/main.rs\<close>, where \<open>main\<close> spawns it, and \<open>src/api.rs\<close>): it
  is there only when the configuration has an address for it and shares the metrics of the DNS
  server, so what \<open>/metrics\<close> reports is a function of the run. Whether binding an address succeeds
  is a parameter.
\<close>

section \<open>The task\<close>

text \<open>
  The address the API listens on: none is configured, or \<open>expect\<close> ends the task when it cannot bind,
  which the DNS server does not notice.
\<close>

definition api_task :: "(string \<Rightarrow> bool) \<Rightarrow> config \<Rightarrow> string option" where
  "api_task bind_ok cfg =
     (case api_listen (cfg_server cfg) of
        None \<Rightarrow> None
      | Some address \<Rightarrow> if bind_ok address then Some address else None)"

text \<open>A request: \<open>None\<close> when nothing listens, else the router's reply.\<close>

definition http_get ::
  "(record_type \<Rightarrow> string) \<Rightarrow> (string \<Rightarrow> bool) \<Rightarrow> instant \<Rightarrow> 'n daemon \<Rightarrow> string \<Rightarrow> json option option" where
  "http_get debug bind_ok now d path =
     map_option (\<lambda>_. api_get debug now (srv_metrics (d_server d)) path) (api_task bind_ok (d_config d))"

section \<open>Reading a reply\<close>

fun json_at :: "string list \<Rightarrow> json \<Rightarrow> json option" where
  "json_at [] j = Some j"
| "json_at (k # ks) (JObj members) = (case map_of members k of None \<Rightarrow> None | Some j \<Rightarrow> json_at ks j)"
| "json_at (k # ks) _ = None"

definition number_at :: "string list \<Rightarrow> json \<Rightarrow> u64" where
  "number_at ks j = (case json_at ks j of Some (JNum n) \<Rightarrow> n | _ \<Rightarrow> 0)"

lemma json_at_field: "map_of members k = Some j \<Longrightarrow> json_at (k # ks) (JObj members) = json_at ks j"
  by simp

lemma map_of_numbers:
  "map_of (map (\<lambda>(k, v). (k, JNum v)) m) k = map_option JNum (hm_get (\<lambda>s. s) m k)"
  by (induction m) auto

section \<open>What the counters keep\<close>

lemma record_all_types: "hm_wf (\<lambda>t. t) (query_types m) \<Longrightarrow> hm_wf (\<lambda>t. t) (query_types (record_all ms m))"
proof (induction ms arbitrary: m)
  case (Cons e ms)
  have "hm_wf (\<lambda>t. t) (query_types (apply_event e m))"
    using Cons.prems
    by (cases e) (auto simp: hm_simps record_tcp_connection_def record_tcp_connection_closed_def
        record_tcp_connection_timeout_def record_query_def record_response_def record_query_type_def
        record_latency_def record_rate_limited_def record_error_def Let_def
        split: protocol.split response_code.split)
  then show ?case using Cons.IH by simp
qed simp

lemma record_all_start: "start_time (record_all ms m) = start_time m"
proof (induction ms arbitrary: m)
  case (Cons e ms)
  have "start_time (apply_event e m) = start_time m"
    by (cases e) (auto simp: record_tcp_connection_def record_tcp_connection_closed_def
        record_tcp_connection_timeout_def record_query_def record_response_def record_query_type_def
        record_latency_def record_rate_limited_def record_error_def Let_def
        split: protocol.split response_code.split)
  then show ?case using Cons.IH by simp
qed simp

lemma get_metrics_numbers:
  "number_at [''uptime_seconds''] (get_metrics debug now m) = as_secs (now - start_time m)"
  "number_at [''queries'', ''total''] (get_metrics debug now m) = total_queries m"
  "number_at [''queries'', ''udp''] (get_metrics debug now m) = udp_queries m"
  "number_at [''queries'', ''tcp''] (get_metrics debug now m) = tcp_queries m"
  "number_at [''queries'', ''edns''] (get_metrics debug now m) = edns_queries m"
  "number_at [''rate_limited''] (get_metrics debug now m) = rate_limited m"
  by (simp_all add: number_at_def get_metrics_def get_snapshot_def Let_def)

lemma get_metrics_type:
  assumes "inj debug" and "hm_wf (\<lambda>t. t) (query_types m)"
  shows "number_at [''query_types'', debug t] (get_metrics debug now m) =
    (case hm_get (\<lambda>t. t) (query_types m) t of Some n \<Rightarrow> n | None \<Rightarrow> 0)"
  using query_types_json_get [OF assms, of t]
  by (simp add: number_at_def get_metrics_def get_snapshot_def Let_def map_of_numbers split: option.split)

section \<open>The tests of the API\<close>

text \<open>The status of a reply: the router answers a path it does not know with 404.\<close>

definition status :: "json option \<Rightarrow> nat" where
  "status reply = (case reply of Some _ \<Rightarrow> 200 | None \<Rightarrow> 404)"

definition test_health_check :: "(record_type \<Rightarrow> string) \<Rightarrow> instant \<Rightarrow> instant \<Rightarrow> bool" where
  "test_health_check debug t0 now =
     (let metrics = metrics_new t0; app = api_get debug now metrics; response = app ''/health''
      in status response = 200)"

definition test_metrics_endpoint :: "(record_type \<Rightarrow> string) \<Rightarrow> instant \<Rightarrow> instant \<Rightarrow> bool" where
  "test_metrics_endpoint debug t0 now =
     (let metrics = metrics_new t0; app = api_get debug now metrics; response = app ''/metrics''
      in status response = 200)"

lemma api_status:
  "status (api_get debug now m path) = (if path \<in> {''/health'', ''/metrics''} then 200 else 404)"
  by (simp add: status_def api_get_def)

lemma api_tests: "test_health_check debug t0 now" "test_metrics_endpoint debug t0 now"
  by (simp_all add: test_health_check_def test_metrics_endpoint_def Let_def api_status)

section \<open>Property\<close>

text \<open>
  C26. Monitoring tells the truth. When an address for the API is configured and can be bound, a \<open>GET\<close>
  of \<open>/metrics\<close> after any run from the start reports the seconds since the start, the numbers of
  queries processed in the run, by protocol, with EDNS and for every record type, and the number of
  queries the limiter refused, modulo \<open>2 ^ 64\<close>. Distinct record types must have distinct \<open>Debug\<close>
  texts.
\<close>

theorem metrics_endpoint:
  assumes "startup H C yaml read_file file_exists t0 args = Inr d"
    and "api_listen (cfg_server (d_config d)) = Some addr" and "bind_ok addr" and "inj debug"
  shows "\<exists>j. http_get debug bind_ok now (server_runs H C es d) ''/metrics'' = Some (Some j) \<and>
    (let happened = occurs H C es d; count = (\<lambda>R. of_nat (length (filter R happened))) in
     number_at [''uptime_seconds''] j = as_secs (now - t0) \<and>
     number_at [''queries'', ''total''] j = count (query_with (\<lambda>_ _. True)) \<and>
     number_at [''queries'', ''udp''] j = count (query_with (\<lambda>p _. p = Udp)) \<and>
     number_at [''queries'', ''tcp''] j = count (query_with (\<lambda>p _. p = Tcp)) \<and>
     number_at [''queries'', ''edns''] j = count (query_with (\<lambda>_ query. msg_edns query \<noteq> None)) \<and>
     number_at [''query_types'', debug t] j =
       count (query_with (\<lambda>_ query. map_option q_type (first_query query) = Some t)) \<and>
     number_at [''rate_limited''] j = count was_limited)"
proof -
  let ?m = "srv_metrics (d_server (server_runs H C es d))"
  note start = startup_limiter(2) [OF assms(1)]
  note run = run_records [where H = H and C = C and es = es and d = d, unfolded start]
  from run obtain ms where ms: "?m = record_all ms (metrics_new t0)" by (auto simp: records_def)
  have wf: "hm_wf (\<lambda>t. t) (query_types ?m)"
    unfolding ms by (rule record_all_types) (simp add: metrics_new_def)
  have t0: "start_time ?m = t0" unfolding ms record_all_start by (simp add: metrics_new_def)
  have "reachable H C d" using assms(1) by (rule started)
  then have "http_get debug bind_ok now (server_runs H C es d) ''/metrics'' = Some (Some (get_metrics debug now ?m))"
    using run_config [where H = H and C = C and d = d and es = es] assms(2,3)
    by (simp add: http_get_def api_task_def api_get_def)
  then show ?thesis
    using get_metrics_type [OF assms(4) wf] records_counts [OF run]
    by (intro exI [of _ "get_metrics debug now ?m"]) (simp add: Let_def get_metrics_numbers t0 metrics_new_def)
qed

text \<open>The sample server with an API address, after the run of the sample events.\<close>

definition api_raw_config :: raw_config where
  "api_raw_config =
     test_raw_config\<lparr>raw_server_section := (raw_server_section test_raw_config)\<lparr>raw_api_listen := Some ''127.0.0.1:8080''\<rparr>\<rparr>"

definition api_startup :: "startup_error + string list daemon" where
  "api_startup = startup sample sample_codecs (\<lambda>_. Some api_raw_config) (\<lambda>_ _. Some test_zone_text)
     (\<lambda>_. True) 0 []"

lemma sample_debug_inj: "inj (\<lambda>t. show_nat (rtype_number t))"
proof (rule injI)
  fix a b assume "show_nat (rtype_number a) = show_nat (rtype_number b)"
  then have "rtype_number a = rtype_number b" by (metis option.inject parse_nat_show)
  then show "a = b" by (rule rtype_number_inj)
qed

theorem metrics_endpoint_witness:
  "\<exists>d j. api_startup = Inr d \<and>
     http_get (\<lambda>t. show_nat (rtype_number t)) (\<lambda>_. True) 5000000000 (server_runs sample sample_codecs test_events d)
       ''/metrics'' = Some (Some j) \<and>
     number_at [''uptime_seconds''] j = 5 \<and> number_at [''queries'', ''total''] j = 2 \<and>
     number_at [''queries'', ''udp''] j = 1 \<and> number_at [''queries'', ''tcp''] j = 1 \<and>
     number_at [''rate_limited''] j = 0"
proof -
  have "case api_startup of
      Inr d \<Rightarrow> api_listen (cfg_server (d_config d)) = Some ''127.0.0.1:8080'' \<and>
        map (case_occurrence (\<lambda>p _ _ _. Some (Some p)) (\<lambda>_ _ _. None) (Some None))
          (occurs sample sample_codecs test_events d) = [Some (Some Udp), Some None, Some (Some Tcp)]
    | Inl _ \<Rightarrow> False"
    by code_simp
  then obtain d tk1 a1 q1 tk2 a2 q2 where d: "api_startup = Inr d"
    and addr: "api_listen (cfg_server (d_config d)) = Some ''127.0.0.1:8080''"
    and happened: "occurs sample sample_codecs test_events d = [Processed Udp tk1 a1 q1, Connected, Processed Tcp tk2 a2 q2]"
    by (auto split: sum.splits occurrence.splits)
  from metrics_endpoint [OF d [unfolded api_startup_def] addr _ sample_debug_inj, where es = test_events
      and now = 5000000000 and bind_ok = "\<lambda>_. True"] d happened
  show ?thesis
    by (intro exI [of _ d]) (auto simp: Let_def query_with_def was_limited_def as_secs_def)
qed

end
