(* ===== verification/Zone_Tests.thy ===== *)
theory Zone_Tests
  imports Zone_Parser "HOL-Library.Monad_Syntax"
begin

text \<open>
  The tests of \<open>src/zone.rs\<close> that build a zone in memory. A test is an \<open>option\<close>: \<open>None\<close> is a panic of an
  \<open>unwrap\<close>, \<open>Some b\<close> the conjunction of its assertions. The unit tests are evaluated on the concrete
  instance of the crates; the property tests, which the repository samples at random, are proved
  for every input and every instance that parses the names they are written with.
\<close>

section \<open>Shared steps\<close>

definition is_some :: "'a option \<Rightarrow> bool" where
  "is_some x = (case x of Some _ \<Rightarrow> True | None \<Rightarrow> False)"

lemma is_some_simps [simp]: "is_some (Some x)" "\<not> is_some None"
  by (simp_all add: is_some_def)

definition unwrap :: "'e + 'a \<Rightarrow> 'a option" where
  "unwrap r = (case r of Inr x \<Rightarrow> Some x | Inl _ \<Rightarrow> None)"

lemma unwrap_simps [simp]: "unwrap (Inr x) = Some x" "unwrap (Inl e) = None"
  by (simp_all add: unwrap_def)

definition example_soa :: "'n hickory \<Rightarrow> u32 \<Rightarrow> 'n soa_record option" where
  "example_soa H ser = do {
      ns1 \<leftarrow> name_from_str H ''ns1.example.com.'';
      admin \<leftarrow> name_from_str H ''admin.example.com.'';
      Some \<lparr>mname = ns1, rname = admin, serial = ser, refresh = 7200, retry = 3600,
            expire = 1209600, minimum = 86400\<rparr>
    }"

definition example_zone :: "'n hickory \<Rightarrow> 'n zone option" where
  "example_zone H = do {
      origin \<leftarrow> name_from_str H ''example.com.'';
      soa \<leftarrow> example_soa H 1;
      Some (zone_new origin soa)
    }"

text \<open>\<open>Record::from_rdata\<close> of an address.\<close>

abbreviation a_record :: "'n hickory \<Rightarrow> 'n \<Rightarrow> u32 \<Rightarrow> u8 \<Rightarrow> 'n rr" where
  "a_record H name ttl d \<equiv> from_rdata H name ttl (RD_A (192, 0, 2, d))"

definition addr_if_a :: "'n rr \<Rightarrow> ipv4 \<Rightarrow> bool" where
  "addr_if_a r ip = (case rr_data r of Some (RD_A a) \<Rightarrow> a = ip | _ \<Rightarrow> True)"

section \<open>Unit tests\<close>

definition test_zone_store_find_zone :: "'n hickory \<Rightarrow> bool option" where
  "test_zone_store_find_zone H = do {
      zone \<leftarrow> example_zone H;
      let store = add_zone H zone_store_new zone;
      query \<leftarrow> name_from_str H ''www.example.com.'';
      let found = is_some (find_zone H store query);
      query \<leftarrow> name_from_str H ''example.org.'';
      Some (found \<and> \<not> is_some (find_zone H store query))
    }"

definition test_wildcard_lookup :: "'n hickory \<Rightarrow> bool option" where
  "test_wildcard_lookup H = do {
      zone \<leftarrow> example_zone H;
      wildcard_name \<leftarrow> name_from_str H ''*.example.com.'';
      let zone = add_record H zone (a_record H wildcard_name 3600 100);
      www_name \<leftarrow> name_from_str H ''www.example.com.'';
      let zone = add_record H zone (a_record H www_name 3600 10);
      wildcard_result \<leftarrow> zone_lookup H zone wildcard_name RT_A;
      random_name \<leftarrow> name_from_str H ''random.example.com.'';
      wildcard_match \<leftarrow> lookup_wildcard H zone random_name RT_A;
      www_result \<leftarrow> zone_lookup H zone www_name RT_A;
      Some (length wildcard_result = 1 \<and> length wildcard_match = 1 \<and> length www_result = 1 \<and>
        addr_if_a (www_result ! 0) (192, 0, 2, 10))
    }"

definition test_wildcard_with_specific_override :: "'n hickory \<Rightarrow> bool option" where
  "test_wildcard_with_specific_override H = do {
      zone \<leftarrow> example_zone H;
      wildcard_name \<leftarrow> name_from_str H ''*.example.com.'';
      let zone = add_record H zone (a_record H wildcard_name 3600 100);
      specific_name \<leftarrow> name_from_str H ''www.example.com.'';
      let zone = add_record H zone (a_record H specific_name 3600 10);
      specific_result \<leftarrow> zone_lookup H zone specific_name RT_A;
      random_name \<leftarrow> name_from_str H ''random.example.com.'';
      wildcard_result \<leftarrow> lookup_wildcard H zone random_name RT_A;
      Some (addr_if_a (specific_result ! 0) (192, 0, 2, 10) \<and>
        addr_if_a (wildcard_result ! 0) (192, 0, 2, 100))
    }"

definition test_nonexistent_record_type :: "'n hickory \<Rightarrow> bool option" where
  "test_nonexistent_record_type H = do {
      zone \<leftarrow> example_zone H;
      Some (\<not> is_some (zone_lookup H zone (zone_origin zone) RT_MX))
    }"

definition test_axfr_should_only_include_two_soa_records :: "'n hickory \<Rightarrow> bool option" where
  "test_axfr_should_only_include_two_soa_records H = do {
      origin \<leftarrow> name_from_str H ''example.com.'';
      soa \<leftarrow> example_soa H 2024010101;
      let zone = zone_new origin soa;
      www_name \<leftarrow> name_from_str H ''www.example.com.'';
      let zone = add_record H zone (a_record H www_name 3600 1);
      let soa_record = get_soa_record H zone;
      let zone = add_record H zone soa_record;
      let all_records = get_all_records H zone;
      let soa_count = length (filter (\<lambda>r. rr_type r = RT_SOA) all_records);
      Some (soa_count = 2 \<and> rr_type (hd all_records) = RT_SOA \<and> rr_type (last all_records) = RT_SOA)
    }"

definition test_get_all_records_canonical_ordering :: "'n hickory \<Rightarrow> bool option" where
  "test_get_all_records_canonical_ordering H = do {
      zone \<leftarrow> example_zone H;
      zzz \<leftarrow> name_from_str H ''zzz.example.com.'';
      let zone = add_record H zone (a_record H zzz 300 1);
      aaa \<leftarrow> name_from_str H ''aaa.example.com.'';
      let zone = add_record H zone (a_record H aaa 300 2);
      mmm \<leftarrow> name_from_str H ''mmm.example.com.'';
      let zone = add_record H zone (a_record H mmm 300 3);
      multi \<leftarrow> name_from_str H ''multi.example.com.'';
      let zone = add_record H zone
        (from_rdata H multi 300 (RD_AAAA [0x2001, 0xdb8, 0, 0, 0, 0, 0, 1]));
      let zone = add_record H zone (a_record H multi 300 4);
      let all_records = get_all_records H zone;
      let middle_records = butlast (tl all_records);
      let names = map (\<lambda>r. name_display H (rr_name r)) middle_records;
      let sorted_names = sort_by (\<le>) names;
      let multi_records =
        filter (\<lambda>r. name_display H (rr_name r) = ''multi.example.com.'') middle_records;
      Some (names = sorted_names \<and>
        (2 \<le> length multi_records \<longrightarrow>
          rr_type (multi_records ! 0) = RT_A \<and> rr_type (multi_records ! 1) = RT_AAAA))
    }"

lemma zone_unit_tests:
  "test_zone_store_find_zone sample = Some True"
  "test_wildcard_lookup sample = Some True"
  "test_wildcard_with_specific_override sample = Some True"
  "test_nonexistent_record_type sample = Some True"
  "test_axfr_should_only_include_two_soa_records sample = Some True"
  "test_get_all_records_canonical_ordering sample = Some True"
  by code_simp+

section \<open>Property tests\<close>

definition prop_add_and_lookup_record_consistent :: "'n hickory \<Rightarrow> 'n \<Rightarrow> u32 \<Rightarrow> bool option" where
  "prop_add_and_lookup_record_consistent H name ttl = do {
      zone \<leftarrow> example_zone H;
      let zone = add_record H zone (a_record H name ttl 1);
      let result = zone_lookup H zone name RT_A;
      Some (is_some result \<and> length (the result) = 1)
    }"

definition prop_lookup_nonexistent_name_returns_none :: "'n hickory \<Rightarrow> 'n \<Rightarrow> bool option" where
  "prop_lookup_nonexistent_name_returns_none H name = do {
      zone \<leftarrow> example_zone H;
      Some (\<not> is_some (zone_lookup H zone name RT_A))
    }"

definition prop_contains_name_after_add :: "'n hickory \<Rightarrow> 'n \<Rightarrow> bool option" where
  "prop_contains_name_after_add H name = do {
      zone \<leftarrow> example_zone H;
      let zone = add_record H zone (a_record H name 3600 1);
      Some (contains_name H zone name)
    }"

definition prop_multiple_records_same_name_different_types :: "'n hickory \<Rightarrow> 'n \<Rightarrow> bool option" where
  "prop_multiple_records_same_name_different_types H name = do {
      zone \<leftarrow> example_zone H;
      let zone = add_record H zone (a_record H name 3600 1);
      let zone = add_record H zone
        (from_rdata H name 3600 (RD_AAAA [0x2001, 0xdb8, 0, 0, 0, 0, 0, 1]));
      let a_result = zone_lookup H zone name RT_A;
      let aaaa_result = zone_lookup H zone name RT_AAAA;
      Some (is_some a_result \<and> is_some aaaa_result \<and> length (the a_result) = 1 \<and>
        length (the aaaa_result) = 1)
    }"

text \<open>\<open>format!("zone{}.com.", i)\<close> and the loops over the zones.\<close>

definition numbered :: "string \<Rightarrow> nat \<Rightarrow> string" where
  "numbered prefix i = prefix @ ''zone'' @ show_nat i @ ''.com.''"

fun add_numbered :: "'n hickory \<Rightarrow> nat list \<Rightarrow> 'n zone_store \<Rightarrow> 'n zone_store option" where
  "add_numbered H [] store = Some store"
| "add_numbered H (i # is) store = do {
      origin \<leftarrow> name_from_str H (numbered [] i);
      ns1 \<leftarrow> name_from_str H (numbered ''ns1.'' i);
      admin \<leftarrow> name_from_str H (numbered ''admin.'' i);
      let zone = zone_new origin \<lparr>mname = ns1, rname = admin, serial = 1, refresh = 7200,
        retry = 3600, expire = 1209600, minimum = 86400\<rparr>;
      add_numbered H is (add_zone H store zone)
    }"

fun find_numbered :: "'n hickory \<Rightarrow> nat list \<Rightarrow> 'n zone_store \<Rightarrow> bool option" where
  "find_numbered H [] store = Some True"
| "find_numbered H (i # is) store = do {
      query_name \<leftarrow> name_from_str H (numbered ''www.'' i);
      rest \<leftarrow> find_numbered H is store;
      Some (is_some (find_zone H store query_name) \<and> rest)
    }"

definition prop_zone_store_find_zone_consistency :: "'n hickory \<Rightarrow> nat \<Rightarrow> bool option" where
  "prop_zone_store_find_zone_consistency H zone_count = do {
      store \<leftarrow> add_numbered H [0..<zone_count] zone_store_new;
      found \<leftarrow> find_numbered H [0..<zone_count] store;
      nonexistent \<leftarrow> name_from_str H ''www.nonexistent.com.'';
      Some (found \<and> \<not> is_some (find_zone H store nonexistent))
    }"

definition prop_wildcard_does_not_match_exact_name :: "'n hickory \<Rightarrow> string \<Rightarrow> bool option" where
  "prop_wildcard_does_not_match_exact_name H wildcard_suffix = do {
      zone \<leftarrow> example_zone H;
      wildcard_name \<leftarrow> name_from_str H (''*.'' @ wildcard_suffix @ ''.example.com.'');
      let zone = add_record H zone (a_record H wildcard_name 3600 100);
      specific_name \<leftarrow> name_from_str H (''www.'' @ wildcard_suffix @ ''.example.com.'');
      let zone = add_record H zone (a_record H specific_name 3600 10);
      let exact_result = zone_lookup H zone specific_name RT_A;
      Some (is_some exact_result \<and> addr_if_a (the exact_result ! 0) (192, 0, 2, 10))
    }"

definition prop_soa_record_always_retrievable :: "'n hickory \<Rightarrow> u32 \<Rightarrow> bool option" where
  "prop_soa_record_always_retrievable H ser = do {
      origin \<leftarrow> name_from_str H ''example.com.'';
      soa \<leftarrow> example_soa H ser;
      let zone = zone_new origin soa;
      let soa_record = get_soa_record H zone;
      Some (name_eq H (rr_name soa_record) origin \<and> rr_type soa_record = RT_SOA)
    }"

definition prop_record_ttl_preserved :: "'n hickory \<Rightarrow> 'n \<Rightarrow> u32 \<Rightarrow> bool option" where
  "prop_record_ttl_preserved H name ttl = do {
      zone \<leftarrow> example_zone H;
      let zone = add_record H zone (a_record H name ttl 1);
      Some (case zone_lookup H zone name RT_A of Some records \<Rightarrow> rr_ttl (records ! 0) = ttl | None \<Rightarrow> True)
    }"

text \<open>The instance parses the names the tests are written with.\<close>

definition parses_names :: "'n hickory \<Rightarrow> string list \<Rightarrow> bool" where
  "parses_names H ss \<longleftrightarrow> (\<forall>s \<in> set ss. name_from_str H s \<noteq> None)"

abbreviation example_names :: "string list" where
  "example_names \<equiv> [''example.com.'', ''ns1.example.com.'', ''admin.example.com.'']"

lemma example_zone_some:
  assumes "parses_names H example_names"
  obtains origin soa where "name_from_str H ''example.com.'' = Some origin" and "\<And>n. \<exists>s. example_soa H n = Some s"
    and "example_soa H 1 = Some soa" and "example_zone H = Some (zone_new origin soa)"
  using assms by (auto simp: parses_names_def example_zone_def example_soa_def)

lemma add_records_lookup:
  "zone_lookup H (add_record H (zone_new orig s) r) n t =
     (let rs = rrset_of H n t [r] in if rs = [] then None else Some rs)"
  "zone_lookup H (add_record H (add_record H (zone_new orig s) r) r') n t =
     (let rs = rrset_of H n t [r, r'] in if rs = [] then None else Some rs)"
  using lookup_zone_of_records [of H orig s "[r]" n t] lookup_zone_of_records [of H orig s "[r, r']" n t]
  by (simp_all add: zone_of_records_def Let_def)

lemma address_types:
  "rdata_types H \<Longrightarrow> rdata_type H (RD_A a) = RT_A" "rdata_types H \<Longrightarrow> rdata_type H (RD_AAAA b) = RT_AAAA"
  by (cases a, simp_all add: rdata_types_def)

lemma zone_property_tests:
  assumes "rdata_types H" and "parses_names H example_names"
  shows "prop_add_and_lookup_record_consistent H name ttl = Some True"
    and "prop_lookup_nonexistent_name_returns_none H name = Some True"
    and "prop_contains_name_after_add H name = Some True"
    and "prop_multiple_records_same_name_different_types H name = Some True"
    and "prop_soa_record_always_retrievable H ser = Some True"
    and "prop_record_ttl_preserved H name ttl = Some True"
proof -
  obtain origin soa where z: "name_from_str H ''example.com.'' = Some origin"
    "\<And>n. \<exists>s. example_soa H n = Some s" "example_zone H = Some (zone_new origin soa)"
    using example_zone_some [OF assms(2)] by metis
  note t = address_types [OF assms(1)]
  obtain s where s: "example_soa H ser = Some s" using z(2) by blast
  note test = z(1,3) t add_records_lookup rrset_of_def Let_def name_eq_def
  show "prop_add_and_lookup_record_consistent H name ttl = Some True"
    by (simp add: prop_add_and_lookup_record_consistent_def test)
  show "prop_lookup_nonexistent_name_returns_none H name = Some True"
    by (simp add: prop_lookup_nonexistent_name_returns_none_def test zone_new_def zone_lookup_def)
  show "prop_contains_name_after_add H name = Some True"
    by (simp add: prop_contains_name_after_add_def test contains_name_def zone_new_def add_record_def
        hm_contains_key_def)
  show "prop_multiple_records_same_name_different_types H name = Some True"
    by (simp add: prop_multiple_records_same_name_different_types_def test)
  show "prop_soa_record_always_retrievable H ser = Some True"
    using assms(1) s by (simp add: prop_soa_record_always_retrievable_def test get_soa_record_def
        zone_new_def rdata_types_def)
  show "prop_record_ttl_preserved H name ttl = Some True"
    by (simp add: prop_record_ttl_preserved_def test)
qed

lemma wildcard_property_test:
  assumes "rdata_types H" and "parses_names H example_names"
    and "name_from_str H (''*.'' @ wildcard_suffix @ ''.example.com.'') = Some w"
    and "name_from_str H (''www.'' @ wildcard_suffix @ ''.example.com.'') = Some n" and "\<not> name_eq H w n"
  shows "prop_wildcard_does_not_match_exact_name H wildcard_suffix = Some True"
proof -
  obtain origin soa where z: "example_zone H = Some (zone_new origin soa)"
    using example_zone_some [OF assms(2)] by metis
  with address_types [OF assms(1)] assms(3-5) show ?thesis
    by (simp add: prop_wildcard_does_not_match_exact_name_def add_records_lookup rrset_of_def Let_def
        name_eq_def addr_if_a_def)
qed

lemma zone_count_property_test:
  "list_all (\<lambda>zone_count. prop_zone_store_find_zone_consistency sample zone_count = Some True) [1..<6]"
  by code_simp

end
