(* ===== verification/Zone_File_Tests.thy ===== *)
theory Zone_File_Tests
  imports Zone_Tests
begin

text \<open>
  The tests of \<open>src/zone.rs\<close> that write a zone file and load it with \<open>parse_zone_file\<close>, evaluated
  on the concrete instance of the crates: every record type, the multi-line formats of the SOA
  record, comments and the malformed files.
\<close>

section \<open>Shared steps\<close>

text \<open>The content of the temporary file after one \<open>writeln!\<close> per line.\<close>

definition temp_file :: "string list \<Rightarrow> string option" where
  "temp_file lines = Some (concat (map (\<lambda>l. l @ [newline]) lines))"

definition is_err :: "'e + 'a \<Rightarrow> bool" where
  "is_err r = (case r of Inr _ \<Rightarrow> False | Inl _ \<Rightarrow> True)"

definition parse_temp ::
  "'n hickory \<Rightarrow> codecs \<Rightarrow> string \<Rightarrow> string list \<Rightarrow> 'n zone option" where
  "parse_temp H C origin lines = unwrap (parse_zone_file H C (temp_file lines) origin)"

text \<open>A literal in which \<open>|\<close> stands for a tab.\<close>

definition tabbed :: "string \<Rightarrow> string" where
  "tabbed s = map (\<lambda>c. if c = CHR ''|'' then CHR 0x09 else c) s"

definition is_dnssec :: "'n rr \<Rightarrow> bool" where
  "is_dnssec r = (case rr_data r of Some (RD_DNSSEC _) \<Rightarrow> True | Some _ \<Rightarrow> False | None \<Rightarrow> True)"

fun str_contains :: "string \<Rightarrow> string \<Rightarrow> bool" where
  "str_contains [] pat = (pat = [])"
| "str_contains (c # cs) pat = (starts_with (c # cs) pat \<or> str_contains cs pat)"

text \<open>The first three lines of most of the files.\<close>

definition zone_head :: "string list" where
  "zone_head =
     [''$ORIGIN example.com.'', ''$TTL 3600'',
      ''@ IN SOA ns1.example.com. admin.example.com. 1 7200 3600 1209600 86400'']"

section \<open>The tests\<close>

definition test_dnskey_parsing :: "'n hickory \<Rightarrow> codecs \<Rightarrow> bool option" where
  "test_dnskey_parsing H C =
    do {
      zone \<leftarrow> parse_temp H C ''example.com.''
        (zone_head @ [''@ IN NS ns1.example.com.'', ''ns1 IN A 192.0.2.1'',
         ''@ IN DNSKEY 256 3 8 AwEAAaetidLzsKWUt4swWR8yu0wPHPiUi8LU'']);
      name \<leftarrow> name_from_str H ''example.com.'';
      let rs = zone_lookup H zone name RT_DNSKEY;
      Some (is_some rs \<and> length (the rs) = 1 \<and> is_dnssec (the rs ! 0))
    }"

definition test_rrsig_parsing :: "'n hickory \<Rightarrow> codecs \<Rightarrow> bool option" where
  "test_rrsig_parsing H C =
    do {
      zone \<leftarrow> parse_temp H C ''example.com.''
        (zone_head @ [''@ IN NS ns1.example.com.'', ''ns1 IN A 192.0.2.1'',
         ''@ IN RRSIG A 8 2 3600 1767139200 1764547200 12345 example.com. AwEAAaetidLzsKWU'']);
      name \<leftarrow> name_from_str H ''example.com.'';
      let rs = zone_lookup H zone name RT_SIG;
      Some (is_some rs \<and> length (the rs) = 1 \<and> is_dnssec (the rs ! 0))
    }"

definition test_nsec_parsing :: "'n hickory \<Rightarrow> codecs \<Rightarrow> bool option" where
  "test_nsec_parsing H C =
    do {
      zone \<leftarrow> parse_temp H C ''example.com.''
        (zone_head @ [''@ IN NS ns1.example.com.'', ''ns1 IN A 192.0.2.1'',
         ''@ IN NSEC www.example.com. A NS SOA RRSIG NSEC DNSKEY'']);
      name \<leftarrow> name_from_str H ''example.com.'';
      let rs = zone_lookup H zone name RT_NSEC;
      Some (is_some rs \<and> length (the rs) = 1 \<and> is_dnssec (the rs ! 0))
    }"

definition test_ds_parsing :: "'n hickory \<Rightarrow> codecs \<Rightarrow> bool option" where
  "test_ds_parsing H C =
    do {
      zone \<leftarrow> parse_temp H C ''example.com.''
        (zone_head @ [''@ IN NS ns1.example.com.'', ''ns1 IN A 192.0.2.1'',
         ''@ IN DS 12345 8 2 A8B1C2D3E4F506172839405A6B7C8D9E0F1A2B3C4D5E6F70'']);
      name \<leftarrow> name_from_str H ''example.com.'';
      let rs = zone_lookup H zone name RT_DS;
      Some (is_some rs \<and> length (the rs) = 1 \<and> is_dnssec (the rs ! 0))
    }"

definition test_malformed_zone_file :: "'n hickory \<Rightarrow> codecs \<Rightarrow> bool option" where
  "test_malformed_zone_file H C =
    (let result = parse_zone_file H C (temp_file
        [''$ORIGIN example.com.'', ''$TTL 3600'', ''@ IN NS ns1.example.com.'']) ''example.com.''
      in Some (is_err result))"

definition test_invalid_ttl :: "'n hickory \<Rightarrow> codecs \<Rightarrow> bool option" where
  "test_invalid_ttl H C =
    (let result = parse_zone_file H C (temp_file
        [''$ORIGIN example.com.'', ''$TTL invalid'',
         ''@ IN SOA ns1.example.com. admin.example.com. 1 7200 3600 1209600 86400'']) ''example.com.''
      in Some (is_err result))"

definition test_invalid_record_data :: "'n hickory \<Rightarrow> codecs \<Rightarrow> bool option" where
  "test_invalid_record_data H C =
    (let result = parse_zone_file H C (temp_file
        (zone_head @ [''@ IN A invalid.ip.address''])) ''example.com.''
      in Some (is_err result))"

definition test_malformed_soa :: "'n hickory \<Rightarrow> codecs \<Rightarrow> bool option" where
  "test_malformed_soa H C =
    (let result = parse_zone_file H C (temp_file
        [''$ORIGIN example.com.'', ''$TTL 3600'', ''@ IN SOA ns1.example.com.'']) ''example.com.''
      in Some (is_err result))"

definition test_empty_zone_file :: "'n hickory \<Rightarrow> codecs \<Rightarrow> bool option" where
  "test_empty_zone_file H C =
    (let result = parse_zone_file H C (temp_file
        []) ''example.com.''
      in Some (is_err result))"

definition test_invalid_base64_in_dnskey :: "'n hickory \<Rightarrow> codecs \<Rightarrow> bool option" where
  "test_invalid_base64_in_dnskey H C =
    do {
      zone \<leftarrow> parse_temp H C ''example.com.''
        (zone_head @ [''@ IN DNSKEY 256 3 8 !!!INVALID_BASE64!!!'']);
      name \<leftarrow> name_from_str H ''example.com.'';
      let rs = zone_lookup H zone name RT_DNSKEY;
      Some (\<not> is_some rs)
    }"

definition test_invalid_hex_in_ds :: "'n hickory \<Rightarrow> codecs \<Rightarrow> bool option" where
  "test_invalid_hex_in_ds H C =
    do {
      zone \<leftarrow> parse_temp H C ''example.com.''
        (zone_head @ [''@ IN DS 12345 8 2 ZZZZZZ'']);
      name \<leftarrow> name_from_str H ''example.com.'';
      let rs = zone_lookup H zone name RT_DS;
      Some (\<not> is_some rs)
    }"

definition test_caa_record_parsing :: "'n hickory \<Rightarrow> codecs \<Rightarrow> bool option" where
  "test_caa_record_parsing H C =
    do {
      zone \<leftarrow> parse_temp H C ''example.com.''
        (zone_head @ [''@ IN CAA 0 issue \"letsencrypt.org\"'',
         ''@ IN CAA 0 issuewild \"letsencrypt.org\"'',
         ''@ IN CAA 0 iodef \"mailto:admin@example.com\"'']);
      name \<leftarrow> name_from_str H ''example.com.'';
      let rs = zone_lookup H zone name RT_CAA;
      Some (is_some rs \<and> length (the rs) = 3)
    }"

definition test_ptr_record_parsing :: "'n hickory \<Rightarrow> codecs \<Rightarrow> bool option" where
  "test_ptr_record_parsing H C =
    do {
      zone \<leftarrow> parse_temp H C ''2.0.192.in-addr.arpa.''
        [''$ORIGIN 2.0.192.in-addr.arpa.'', ''$TTL 3600'',
         ''@ IN SOA ns1.example.com. admin.example.com. 1 7200 3600 1209600 86400'',
         ''1 IN PTR www.example.com.''];
      name \<leftarrow> name_from_str H ''1.2.0.192.in-addr.arpa.'';
      let rs = zone_lookup H zone name RT_PTR;
      Some (is_some rs)
    }"

definition test_srv_record_parsing :: "'n hickory \<Rightarrow> codecs \<Rightarrow> bool option" where
  "test_srv_record_parsing H C =
    do {
      zone \<leftarrow> parse_temp H C ''example.com.''
        (zone_head @ [''_http._tcp IN SRV 10 60 80 www.example.com.'']);
      name \<leftarrow> name_from_str H ''_http._tcp.example.com.'';
      let rs = zone_lookup H zone name RT_SRV;
      Some (is_some rs)
    }"

definition test_multiline_soa_with_parentheses :: "'n hickory \<Rightarrow> codecs \<Rightarrow> bool option" where
  "test_multiline_soa_with_parentheses H C =
    do {
      zone \<leftarrow> parse_temp H C ''example.com.''
        [''$ORIGIN example.com.'', ''$TTL 3600'',
         ''@ IN SOA ns1.example.com. admin.example.com. ('', ''    2024010101  ; Serial'',
         ''    7200        ; Refresh'', ''    3600        ; Retry'',
         ''    1209600     ; Expire'', ''    86400       ; Minimum TTL'', '')'',
         ''@ IN NS ns1.example.com.'', ''ns1 IN A 192.0.2.1''];
      name \<leftarrow> name_from_str H ''example.com.'';
      Some (serial (zone_soa zone) = 2024010101 \<and> refresh (zone_soa zone) = 7200 \<and>
        retry (zone_soa zone) = 3600 \<and> expire (zone_soa zone) = 1209600 \<and>
        minimum (zone_soa zone) = 86400 \<and> is_some (zone_lookup H zone name RT_NS))
    }"

definition test_multiline_soa_without_inline_comments :: "'n hickory \<Rightarrow> codecs \<Rightarrow> bool option" where
  "test_multiline_soa_without_inline_comments H C =
    do {
      zone \<leftarrow> parse_temp H C ''example.com.''
        [''$ORIGIN example.com.'', ''$TTL 3600'',
         ''@ IN SOA ns1.example.com. admin.example.com. ('', ''    2024010101'', ''    7200'',
         ''    3600'', ''    1209600'', ''    86400'', '')'', ''@ IN NS ns1.example.com.''];
      Some (serial (zone_soa zone) = 2024010101)
    }"

definition test_inline_comments_stripped :: "'n hickory \<Rightarrow> codecs \<Rightarrow> bool option" where
  "test_inline_comments_stripped H C =
    do {
      zone \<leftarrow> parse_temp H C ''example.com.''
        [''$ORIGIN example.com.'', ''$TTL 3600 ; default TTL'',
         ''@ IN SOA ns1.example.com. admin.example.com. 1 7200 3600 1209600 86400 ; SOA record'',
         ''@ IN NS ns1.example.com. ; nameserver'', ''ns1 IN A 192.0.2.1 ; nameserver IP''];
      name \<leftarrow> name_from_str H ''example.com.'';
      let rs = zone_lookup H zone name RT_NS;
      Some (is_some rs)
    }"

definition test_soa_single_line_format :: "'n hickory \<Rightarrow> codecs \<Rightarrow> bool option" where
  "test_soa_single_line_format H C =
    do {
      zone \<leftarrow> parse_temp H C ''example.com.''
        [''$ORIGIN example.com.'', ''$TTL 3600'',
         ''@ IN SOA ns1.example.com. admin.example.com. 2024010101 7200 3600 1209600 86400'',
         ''@ IN NS ns1.example.com.''];
      Some (serial (zone_soa zone) = 2024010101 \<and> refresh (zone_soa zone) = 7200 \<and>
        retry (zone_soa zone) = 3600 \<and> expire (zone_soa zone) = 1209600 \<and>
        minimum (zone_soa zone) = 86400)
    }"

definition test_soa_multiline_compact :: "'n hickory \<Rightarrow> codecs \<Rightarrow> bool option" where
  "test_soa_multiline_compact H C =
    do {
      zone \<leftarrow> parse_temp H C ''example.com.''
        [''$ORIGIN example.com.'', ''$TTL 3600'',
         ''@ IN SOA ns1.example.com. admin.example.com. ('',
         ''    2024010101 7200 3600 1209600 86400'', '')'', ''@ IN NS ns1.example.com.''];
      Some (serial (zone_soa zone) = 2024010101 \<and> refresh (zone_soa zone) = 7200)
    }"

definition test_soa_multiline_each_field_separate_line :: "'n hickory \<Rightarrow> codecs \<Rightarrow> bool option" where
  "test_soa_multiline_each_field_separate_line H C =
    do {
      zone \<leftarrow> parse_temp H C ''example.com.''
        [''$ORIGIN example.com.'', ''$TTL 3600'',
         ''@ IN SOA ns1.example.com. admin.example.com. ('', ''    2024010101'', ''    7200'',
         ''    3600'', ''    1209600'', ''    86400'', '')'', ''@ IN NS ns1.example.com.''];
      Some (serial (zone_soa zone) = 2024010101 \<and> minimum (zone_soa zone) = 86400)
    }"

definition test_soa_multiline_mixed_grouping :: "'n hickory \<Rightarrow> codecs \<Rightarrow> bool option" where
  "test_soa_multiline_mixed_grouping H C =
    do {
      zone \<leftarrow> parse_temp H C ''example.com.''
        [''$ORIGIN example.com.'', ''$TTL 3600'',
         ''@ IN SOA ns1.example.com. admin.example.com. ('', ''    2024010101 7200'',
         ''    3600'', ''    1209600 86400'', '')'', ''@ IN NS ns1.example.com.''];
      Some (serial (zone_soa zone) = 2024010101 \<and> refresh (zone_soa zone) = 7200 \<and>
        retry (zone_soa zone) = 3600 \<and> expire (zone_soa zone) = 1209600 \<and>
        minimum (zone_soa zone) = 86400)
    }"

definition test_soa_with_inline_comments :: "'n hickory \<Rightarrow> codecs \<Rightarrow> bool option" where
  "test_soa_with_inline_comments H C =
    do {
      zone \<leftarrow> parse_temp H C ''example.com.''
        [''$ORIGIN example.com.'', ''$TTL 3600'',
         ''@ IN SOA ns1.example.com. admin.example.com. ( ; Start SOA'',
         ''    2024010101  ; Serial number'', ''    7200        ; Refresh - 2 hours'',
         ''    3600        ; Retry - 1 hour'', ''    1209600     ; Expire - 2 weeks'',
         ''    86400       ; Minimum TTL - 1 day'', '') ; End SOA'',
         ''@ IN NS ns1.example.com. ; Primary NS''];
      Some (serial (zone_soa zone) = 2024010101 \<and> refresh (zone_soa zone) = 7200 \<and>
        retry (zone_soa zone) = 3600 \<and> expire (zone_soa zone) = 1209600 \<and>
        minimum (zone_soa zone) = 86400)
    }"

definition test_soa_single_line_with_comment :: "'n hickory \<Rightarrow> codecs \<Rightarrow> bool option" where
  "test_soa_single_line_with_comment H C =
    do {
      zone \<leftarrow> parse_temp H C ''example.com.''
        [''$ORIGIN example.com.'', ''$TTL 3600'',
         ''@ IN SOA ns1.example.com. admin.example.com. 2024010101 7200 3600 1209600 86400 ; Main SOA'',
         ''@ IN NS ns1.example.com.''];
      Some (serial (zone_soa zone) = 2024010101)
    }"

definition test_soa_with_tabs_and_spaces :: "'n hickory \<Rightarrow> codecs \<Rightarrow> bool option" where
  "test_soa_with_tabs_and_spaces H C =
    do {
      zone \<leftarrow> parse_temp H C ''example.com.''
        [''$ORIGIN example.com.'', ''$TTL 3600'',
         tabbed ''@|IN|SOA|ns1.example.com.|admin.example.com.|('',
         tabbed ''||2024010101||; Serial'', ''        7200          ; Refresh'',
         tabbed ''|3600||; Retry'', ''    1209600    ; Expire'', tabbed ''|86400|; Minimum'',
         '')'', ''@ IN NS ns1.example.com.''];
      Some (serial (zone_soa zone) = 2024010101 \<and> refresh (zone_soa zone) = 7200 \<and>
        retry (zone_soa zone) = 3600)
    }"

definition test_soa_opening_paren_on_same_line_as_name :: "'n hickory \<Rightarrow> codecs \<Rightarrow> bool option" where
  "test_soa_opening_paren_on_same_line_as_name H C =
    do {
      zone \<leftarrow> parse_temp H C ''example.com.''
        [''$ORIGIN example.com.'', ''$TTL 3600'',
         ''@ IN SOA ns1.example.com. admin.example.com. ( 2024010101'', ''    7200 3600'',
         ''    1209600 86400 )'', ''@ IN NS ns1.example.com.''];
      Some (serial (zone_soa zone) = 2024010101 \<and> minimum (zone_soa zone) = 86400)
    }"

definition test_soa_multiple_blank_lines_in_parens :: "'n hickory \<Rightarrow> codecs \<Rightarrow> bool option" where
  "test_soa_multiple_blank_lines_in_parens H C =
    do {
      zone \<leftarrow> parse_temp H C ''example.com.''
        [''$ORIGIN example.com.'', ''$TTL 3600'',
         ''@ IN SOA ns1.example.com. admin.example.com. ('', '''', ''    2024010101'', '''',
         ''    7200 3600'', '''', ''    1209600 86400'', '''', '')'',
         ''@ IN NS ns1.example.com.''];
      Some (serial (zone_soa zone) = 2024010101)
    }"

definition test_soa_comment_only_lines_in_parens :: "'n hickory \<Rightarrow> codecs \<Rightarrow> bool option" where
  "test_soa_comment_only_lines_in_parens H C =
    do {
      zone \<leftarrow> parse_temp H C ''example.com.''
        [''$ORIGIN example.com.'', ''$TTL 3600'',
         ''@ IN SOA ns1.example.com. admin.example.com. ('',
         ''    ; This is the serial number'', ''    2024010101'', ''    ; Time values below'',
         ''    7200'', ''    3600'', ''    1209600'', ''    86400'', '')'',
         ''@ IN NS ns1.example.com.''];
      Some (serial (zone_soa zone) = 2024010101 \<and> refresh (zone_soa zone) = 7200)
    }"

definition test_multiline_mx_record :: "'n hickory \<Rightarrow> codecs \<Rightarrow> bool option" where
  "test_multiline_mx_record H C =
    do {
      zone \<leftarrow> parse_temp H C ''example.com.''
        (zone_head @ [''@ IN MX ('', ''    10'', ''    mail.example.com.'', '')'',
         ''@ IN NS ns1.example.com.'']);
      name \<leftarrow> name_from_str H ''example.com.'';
      let rs = zone_lookup H zone name RT_MX;
      Some (is_some rs \<and> length (the rs) = 1)
    }"

definition test_naptr_record_parsing :: "'n hickory \<Rightarrow> codecs \<Rightarrow> bool option" where
  "test_naptr_record_parsing H C =
    do {
      zone \<leftarrow> parse_temp H C ''example.com.''
        (zone_head @ [''_sip._tcp IN NAPTR 100 10 \"u\" \"E2U+sip\" \"!^.*$!sip:info@example.com!\" .'']);
      name \<leftarrow> name_from_str H ''_sip._tcp.example.com.'';
      let rs = zone_lookup H zone name RT_NAPTR;
      Some (is_some rs \<and> length (the rs) = 1)
    }"

definition test_tlsa_record_parsing :: "'n hickory \<Rightarrow> codecs \<Rightarrow> bool option" where
  "test_tlsa_record_parsing H C =
    do {
      zone \<leftarrow> parse_temp H C ''example.com.''
        (zone_head @ [''_443._tcp IN TLSA 3 1 1 D2ABDE240D7CD3EE6B4B28C54DF034B97983A1D16E8A410E4561CB106618E971'']);
      name \<leftarrow> name_from_str H ''_443._tcp.example.com.'';
      let rs = zone_lookup H zone name RT_TLSA;
      Some (is_some rs \<and> length (the rs) = 1)
    }"

definition test_sshfp_record_parsing :: "'n hickory \<Rightarrow> codecs \<Rightarrow> bool option" where
  "test_sshfp_record_parsing H C =
    do {
      zone \<leftarrow> parse_temp H C ''example.com.''
        (zone_head @ [''host IN SSHFP 1 2 123456789ABCDEF67890123456789ABCDEF67890123456789ABCDEF6789012'']);
      name \<leftarrow> name_from_str H ''host.example.com.'';
      let rs = zone_lookup H zone name RT_SSHFP;
      Some (is_some rs \<and> length (the rs) = 1)
    }"

definition test_very_long_domain_name :: "'n hickory \<Rightarrow> codecs \<Rightarrow> bool option" where
  "test_very_long_domain_name H C =
    (let long_label = replicate 70 (CHR ''a'');
         result = parse_zone_file H C (temp_file
        (zone_head @ [long_label @ '' IN A 192.0.2.1''])) ''example.com.''
      in Some (is_err result))"

definition test_preprocess_zone_content :: bool where
  "test_preprocess_zone_content =
    (let content = concat (map (\<lambda>l. l @ [newline])
           [''$ORIGIN example.com.'', ''$TTL 3600'',
            ''@ IN SOA ns1.example.com. admin.example.com. ('', ''    2024010101  ; Serial'',
            ''    7200        ; Refresh'', ''    3600        ; Retry'',
            ''    1209600     ; Expire'', ''    86400       ; Minimum TTL'', '')'',
            ''@ IN NS ns1.example.com.'']);
         processed = preprocess_zone_content content
     in length processed = 4 \<and> str_contains (processed ! 2) ''SOA'' \<and>
        str_contains (processed ! 2) ''2024010101'' \<and> str_contains (processed ! 2) ''86400'' \<and>
        \<not> str_contains (processed ! 2) '';'')"

section \<open>The tests succeed\<close>

text \<open>
  For the label of 70 characters, the crate's parser refuses labels of more than 63.
\<close>

definition sample_strict :: "string list hickory" where
  "sample_strict = sample\<lparr>name_from_str := \<lambda>s.
     (case sample_from_str s of
        Some ls \<Rightarrow> if list_all (\<lambda>l. length l \<le> 63) ls then Some ls else None
      | None \<Rightarrow> None)\<rparr>"

lemma dnskey_parsing_ok: "test_dnskey_parsing sample sample_codecs = Some True"
  by code_simp

lemma rrsig_parsing_ok: "test_rrsig_parsing sample sample_codecs = Some True"
  by code_simp

lemma nsec_parsing_ok: "test_nsec_parsing sample sample_codecs = Some True"
  by code_simp

lemma ds_parsing_ok: "test_ds_parsing sample sample_codecs = Some True"
  by code_simp

lemma caa_record_parsing_ok: "test_caa_record_parsing sample sample_codecs = Some True"
  by code_simp

lemma ptr_record_parsing_ok: "test_ptr_record_parsing sample sample_codecs = Some True"
  by code_simp

lemma srv_record_parsing_ok: "test_srv_record_parsing sample sample_codecs = Some True"
  by code_simp

lemma multiline_mx_record_ok: "test_multiline_mx_record sample sample_codecs = Some True"
  by code_simp

lemma naptr_record_parsing_ok: "test_naptr_record_parsing sample sample_codecs = Some True"
  by code_simp

lemma tlsa_record_parsing_ok: "test_tlsa_record_parsing sample sample_codecs = Some True"
  by code_simp

lemma sshfp_record_parsing_ok: "test_sshfp_record_parsing sample sample_codecs = Some True"
  by code_simp

lemma malformed_zone_file_ok: "test_malformed_zone_file sample sample_codecs = Some True"
  by code_simp

lemma invalid_ttl_ok: "test_invalid_ttl sample sample_codecs = Some True"
  by code_simp

lemma invalid_record_data_ok: "test_invalid_record_data sample sample_codecs = Some True"
  by code_simp

lemma malformed_soa_ok: "test_malformed_soa sample sample_codecs = Some True"
  by code_simp

lemma empty_zone_file_ok: "test_empty_zone_file sample sample_codecs = Some True"
  by code_simp

lemma invalid_base64_in_dnskey_ok: "test_invalid_base64_in_dnskey sample sample_codecs = Some True"
  by code_simp

lemma invalid_hex_in_ds_ok: "test_invalid_hex_in_ds sample sample_codecs = Some True"
  by code_simp

lemma inline_comments_stripped_ok: "test_inline_comments_stripped sample sample_codecs = Some True"
  by code_simp

lemma soa_single_line_format_ok: "test_soa_single_line_format sample sample_codecs = Some True"
  by code_simp

lemma soa_single_line_with_comment_ok: "test_soa_single_line_with_comment sample sample_codecs = Some True"
  by code_simp

lemma multiline_soa_with_parentheses_ok: "test_multiline_soa_with_parentheses sample sample_codecs = Some True"
  by code_simp

lemma multiline_soa_without_inline_comments_ok: "test_multiline_soa_without_inline_comments sample sample_codecs = Some True"
  by code_simp

lemma soa_multiline_compact_ok: "test_soa_multiline_compact sample sample_codecs = Some True"
  by code_simp

lemma soa_multiline_each_field_separate_line_ok: "test_soa_multiline_each_field_separate_line sample sample_codecs = Some True"
  by code_simp

lemma soa_multiline_mixed_grouping_ok: "test_soa_multiline_mixed_grouping sample sample_codecs = Some True"
  by code_simp

lemma soa_with_inline_comments_ok: "test_soa_with_inline_comments sample sample_codecs = Some True"
  by code_simp

lemma soa_with_tabs_and_spaces_ok: "test_soa_with_tabs_and_spaces sample sample_codecs = Some True"
  by code_simp

lemma soa_opening_paren_on_same_line_as_name_ok: "test_soa_opening_paren_on_same_line_as_name sample sample_codecs = Some True"
  by code_simp

lemma soa_multiple_blank_lines_in_parens_ok: "test_soa_multiple_blank_lines_in_parens sample sample_codecs = Some True"
  by code_simp

lemma soa_comment_only_lines_in_parens_ok: "test_soa_comment_only_lines_in_parens sample sample_codecs = Some True"
  by code_simp

lemma long_label_test: "test_very_long_domain_name sample_strict sample_codecs = Some True"
  by code_simp

lemma preprocess_test: "test_preprocess_zone_content"
  by code_simp

end
