(* ===== verification/Protocol_Tests.thy ===== *)
theory Protocol_Tests
  imports Protocol Zone_Tests
begin

text \<open>
  The tests of \<open>src/protocol.rs\<close>, written like those of \<open>Zone_Tests\<close>. The unit tests are evaluated on
  the concrete instance; the property tests hold for every input, but for one: it decides whether a
  name is in the zone from the end of its text, which accepts names of other zones.
\<close>

section \<open>Shared steps\<close>

definition create_test_zone_of :: "'n hickory \<Rightarrow> 'n zone option" where
  "create_test_zone_of H = do {
      origin \<leftarrow> name_from_str H ''example.com.'';
      soa \<leftarrow> example_soa H 2025120601;
      let zone = zone_new origin soa;
      www \<leftarrow> name_from_str H ''www.example.com.'';
      let zone = add_record H zone (a_record H www 3600 1);
      ns1 \<leftarrow> name_from_str H ''ns1.example.com.'';
      Some (add_record H zone (from_rdata H origin 3600 (RD_NS ns1)))
    }"

lemma create_test_zone_sample: "create_test_zone_of sample = Some create_test_zone"
  by code_simp

definition test_processor :: "'n hickory \<Rightarrow> 'n zone_store option" where
  "test_processor H = do {
      zone \<leftarrow> create_test_zone_of H;
      Some (add_zone H zone_store_new zone)
    }"

text \<open>\<open>Message::new\<close>, \<open>set_id\<close> and \<open>add_query\<close> with a name given as text.\<close>

definition ask :: "'n hickory \<Rightarrow> 'n message \<Rightarrow> u16 \<Rightarrow> string \<Rightarrow> record_type \<Rightarrow> 'n message option" where
  "ask H m i s t = do {
      name \<leftarrow> name_from_str H s;
      Some (add_query \<lparr>q_name = name, q_type = t\<rparr> (m\<lparr>msg_id := i\<rparr>))
    }"

definition standard_message :: "'n hickory \<Rightarrow> 'n message" where
  "standard_message H = (message_new H)\<lparr>msg_type := MT_Query, msg_op_code := OP_Query\<rparr>"

definition do_edns :: "'n hickory \<Rightarrow> bool \<Rightarrow> edns" where
  "do_edns H flag = (edns_new H)\<lparr>max_payload := 4096, dnssec_ok := flag\<rparr>"

section \<open>Unit tests\<close>

definition test_successful_query :: "'n hickory \<Rightarrow> bool option" where
  "test_successful_query H = do {
      processor \<leftarrow> test_processor H;
      query \<leftarrow> ask H (standard_message H) 1234 ''www.example.com.'' RT_A;
      response \<leftarrow> unwrap (process_query H processor query);
      Some (msg_id response = 1234 \<and> msg_response_code response = NoError \<and>
        msg_authoritative response \<and> length (msg_answers response) = 1)
    }"

definition test_nxdomain_query :: "'n hickory \<Rightarrow> bool option" where
  "test_nxdomain_query H = do {
      processor \<leftarrow> test_processor H;
      query \<leftarrow> ask H (message_new H) 5678 ''nonexistent.example.com.'' RT_A;
      response \<leftarrow> unwrap (process_query H processor query);
      Some (msg_response_code response = NXDomain \<and> msg_authoritative response \<and>
        length (msg_answers response) = 0)
    }"

definition test_refused_query :: "'n hickory \<Rightarrow> bool option" where
  "test_refused_query H = do {
      processor \<leftarrow> test_processor H;
      name \<leftarrow> name_from_str H ''example.org.'';
      let query = add_query \<lparr>q_name = name, q_type = RT_A\<rparr> (message_new H);
      response \<leftarrow> unwrap (process_query H processor query);
      Some (msg_response_code response = Refused)
    }"

definition test_wildcard_query :: "'n hickory \<Rightarrow> bool option" where
  "test_wildcard_query H = do {
      origin \<leftarrow> name_from_str H ''example.com.'';
      soa \<leftarrow> example_soa H 2025120601;
      let zone = zone_new origin soa;
      wildcard_name \<leftarrow> name_from_str H ''*.example.com.'';
      let zone = add_record H zone (a_record H wildcard_name 3600 100);
      www \<leftarrow> name_from_str H ''www.example.com.'';
      let zone = add_record H zone (a_record H www 3600 10);
      ns1 \<leftarrow> name_from_str H ''ns1.example.com.'';
      let zone = add_record H zone (from_rdata H origin 3600 (RD_NS ns1));
      let processor = add_zone H zone_store_new zone;
      query \<leftarrow> ask H (message_new H) 1111 ''random.example.com.'' RT_A;
      response \<leftarrow> unwrap (process_query H processor query);
      let wildcard_ok = (msg_id response = 1111 \<and> msg_response_code response = NoError \<and>
        msg_authoritative response \<and> length (msg_answers response) = 1 \<and>
        addr_if_a (msg_answers response ! 0) (192, 0, 2, 100));
      query \<leftarrow> ask H (message_new H) 2222 ''www.example.com.'' RT_A;
      response \<leftarrow> unwrap (process_query H processor query);
      Some (wildcard_ok \<and> msg_id response = 2222 \<and> msg_response_code response = NoError \<and>
        length (msg_answers response) = 1 \<and> addr_if_a (msg_answers response ! 0) (192, 0, 2, 10))
    }"

definition test_dnssec_ok_flag :: "'n hickory \<Rightarrow> bool option" where
  "test_dnssec_ok_flag H = do {
      processor \<leftarrow> test_processor H;
      query \<leftarrow> ask H (standard_message H) 3333 ''www.example.com.'' RT_A;
      let query = query\<lparr>msg_edns := Some (do_edns H True)\<rparr>;
      response \<leftarrow> unwrap (process_query H processor query);
      Some (msg_id response = 3333 \<and> msg_response_code response = NoError \<and>
        is_some (msg_edns response) \<and>
        (case msg_edns response of Some response_edns \<Rightarrow> dnssec_ok response_edns | None \<Rightarrow> True))
    }"

definition test_empty_query :: "'n hickory \<Rightarrow> bool option" where
  "test_empty_query H = do {
      processor \<leftarrow> test_processor H;
      let query = (standard_message H)\<lparr>msg_id := 9999\<rparr>;
      response \<leftarrow> unwrap (process_query H processor query);
      Some (msg_id response = 9999 \<and> msg_response_code response = FormErr)
    }"

text \<open>\<open>OpCode::Update\<close> is opcode 5.\<close>

definition test_invalid_opcode :: "'n hickory \<Rightarrow> bool option" where
  "test_invalid_opcode H = do {
      processor \<leftarrow> test_processor H;
      query \<leftarrow> ask H ((standard_message H)\<lparr>msg_op_code := OP_other 5\<rparr>) 4444 ''www.example.com.'' RT_A;
      response \<leftarrow> unwrap (process_query H processor query);
      Some (msg_id response = 4444 \<and> msg_response_code response = NotImp)
    }"

definition test_query_for_different_zone :: "'n hickory \<Rightarrow> bool option" where
  "test_query_for_different_zone H = do {
      processor \<leftarrow> test_processor H;
      query \<leftarrow> ask H (message_new H) 5555 ''www.different-zone.com.'' RT_A;
      response \<leftarrow> unwrap (process_query H processor query);
      Some (msg_id response = 5555 \<and> msg_response_code response = Refused)
    }"

definition test_multiple_queries_in_message :: "'n hickory \<Rightarrow> bool option" where
  "test_multiple_queries_in_message H = do {
      processor \<leftarrow> test_processor H;
      query \<leftarrow> ask H (message_new H) 6666 ''www.example.com.'' RT_A;
      query \<leftarrow> ask H query 6666 ''mail.example.com.'' RT_A;
      response \<leftarrow> unwrap (process_query H processor query);
      Some (msg_id response = 6666 \<and> length (msg_queries response) = 1)
    }"

definition test_query_without_recursion_desired :: "'n hickory \<Rightarrow> bool option" where
  "test_query_without_recursion_desired H = do {
      processor \<leftarrow> test_processor H;
      query \<leftarrow> ask H ((standard_message H)\<lparr>msg_recursion_desired := False\<rparr>) 7777
        ''www.example.com.'' RT_A;
      response \<leftarrow> unwrap (process_query H processor query);
      Some (msg_id response = 7777 \<and> msg_response_code response = NoError \<and>
        \<not> msg_recursion_desired response \<and> \<not> msg_recursion_available response)
    }"

definition test_cname_without_target :: "'n hickory \<Rightarrow> bool option" where
  "test_cname_without_target H = do {
      origin \<leftarrow> name_from_str H ''example.com.'';
      soa \<leftarrow> example_soa H 2025120601;
      let zone = zone_new origin soa;
      alias \<leftarrow> name_from_str H ''alias.example.com.'';
      target \<leftarrow> name_from_str H ''nonexistent.example.com.'';
      let zone = add_record H zone (from_rdata H alias 3600 (RD_CNAME target));
      let processor = add_zone H zone_store_new zone;
      query \<leftarrow> ask H (message_new H) 8888 ''alias.example.com.'' RT_A;
      response \<leftarrow> unwrap (process_query H processor query);
      Some (msg_id response = 8888 \<and> msg_response_code response = NoError \<and>
        length (msg_answers response) = 1 \<and>
        (case rr_data (msg_answers response ! 0) of Some (RD_CNAME _) \<Rightarrow> True | _ \<Rightarrow> False))
    }"

definition test_axfr_query :: "'n hickory \<Rightarrow> bool option" where
  "test_axfr_query H = do {
      processor \<leftarrow> test_processor H;
      query \<leftarrow> ask H (message_new H) 9000 ''example.com.'' RT_AXFR;
      response \<leftarrow> unwrap (process_query H processor query);
      Some (msg_id response = 9000 \<and> msg_authoritative response \<and> length (msg_queries response) = 1)
    }"

lemma answer_unit_tests:
  "test_successful_query sample = Some True"
  "test_nxdomain_query sample = Some True"
  "test_refused_query sample = Some True"
  "test_dnssec_ok_flag sample = Some True"
  "test_empty_query sample = Some True"
  "test_invalid_opcode sample = Some True"
  by code_simp+

lemma record_unit_tests:
  "test_wildcard_query sample = Some True"
  "test_query_for_different_zone sample = Some True"
  "test_multiple_queries_in_message sample = Some True"
  "test_query_without_recursion_desired sample = Some True"
  "test_cname_without_target sample = Some True"
  "test_axfr_query sample = Some True"
  by code_simp+

section \<open>Property tests\<close>

definition prop_query_id_matches_response :: "'n hickory \<Rightarrow> u16 \<Rightarrow> bool option" where
  "prop_query_id_matches_response H query_id = do {
      processor \<leftarrow> test_processor H;
      query \<leftarrow> ask H (standard_message H) query_id ''www.example.com.'' RT_A;
      response \<leftarrow> unwrap (process_query H processor query);
      Some (msg_id response = query_id)
    }"

definition prop_response_is_always_response_type :: "'n hickory \<Rightarrow> u16 \<Rightarrow> bool option" where
  "prop_response_is_always_response_type H query_id = do {
      processor \<leftarrow> test_processor H;
      query \<leftarrow> ask H (standard_message H) query_id ''www.example.com.'' RT_A;
      response \<leftarrow> unwrap (process_query H processor query);
      Some (msg_type response = MT_Response)
    }"

definition prop_recursion_desired_flag_copied :: "'n hickory \<Rightarrow> bool \<Rightarrow> bool option" where
  "prop_recursion_desired_flag_copied H rd = do {
      processor \<leftarrow> test_processor H;
      query \<leftarrow> ask H ((standard_message H)\<lparr>msg_recursion_desired := rd\<rparr>) 1234 ''www.example.com.'' RT_A;
      response \<leftarrow> unwrap (process_query H processor query);
      Some (msg_recursion_desired response = rd \<and> \<not> msg_recursion_available response)
    }"

definition ends_with :: "string \<Rightarrow> string \<Rightarrow> bool" where
  "ends_with s suffix = starts_with (rev s) (rev suffix)"

definition prop_authoritative_for_configured_zones :: "'n hickory \<Rightarrow> 'n \<Rightarrow> bool option" where
  "prop_authoritative_for_configured_zones H name = do {
      processor \<leftarrow> test_processor H;
      let fqdn = name_display H name;
      let is_in_zone = ends_with fqdn ''example.com.'';
      let query = add_query \<lparr>q_name = name, q_type = RT_A\<rparr> ((message_new H)\<lparr>msg_id := 1\<rparr>);
      response \<leftarrow> unwrap (process_query H processor query);
      Some (if is_in_zone then msg_authoritative response else msg_response_code response = Refused)
    }"

definition prop_empty_query_returns_formerr :: "'n hickory \<Rightarrow> u16 \<Rightarrow> bool option" where
  "prop_empty_query_returns_formerr H query_id = do {
      processor \<leftarrow> test_processor H;
      let query = (standard_message H)\<lparr>msg_id := query_id\<rparr>;
      response \<leftarrow> unwrap (process_query H processor query);
      Some (msg_response_code response = FormErr)
    }"

definition prop_unsupported_opcode_returns_notimp :: "'n hickory \<Rightarrow> u16 \<Rightarrow> bool option" where
  "prop_unsupported_opcode_returns_notimp H query_id = do {
      processor \<leftarrow> test_processor H;
      query \<leftarrow> ask H ((standard_message H)\<lparr>msg_op_code := OP_other 5\<rparr>) query_id ''www.example.com.'' RT_A;
      response \<leftarrow> unwrap (process_query H processor query);
      Some (msg_response_code response = NotImp)
    }"

definition prop_response_has_question_section :: "'n hickory \<Rightarrow> 'n \<Rightarrow> record_type \<Rightarrow> bool option" where
  "prop_response_has_question_section H name rtype = do {
      processor \<leftarrow> test_processor H;
      let query = add_query \<lparr>q_name = name, q_type = rtype\<rparr> ((message_new H)\<lparr>msg_id := 1\<rparr>);
      response \<leftarrow> unwrap (process_query H processor query);
      Some (msg_response_code response \<noteq> FormErr \<longrightarrow>
        length (msg_queries response) = 1 \<and>
        (case first_query response of
           Some q \<Rightarrow> name_eq H (q_name q) name \<and> q_type q = rtype | None \<Rightarrow> True))
    }"

definition prop_dnssec_ok_flag_preserved :: "'n hickory \<Rightarrow> bool \<Rightarrow> bool option" where
  "prop_dnssec_ok_flag_preserved H flag = do {
      processor \<leftarrow> test_processor H;
      query \<leftarrow> ask H (message_new H) 1 ''www.example.com.'' RT_A;
      let query = query\<lparr>msg_edns := Some (do_edns H flag)\<rparr>;
      response \<leftarrow> unwrap (process_query H processor query);
      Some (case msg_edns response of Some response_edns \<Rightarrow> dnssec_ok response_edns = flag | None \<Rightarrow> True)
    }"

abbreviation fixture_names :: "string list" where
  "fixture_names \<equiv> ''www.example.com.'' # example_names"

text \<open>The fixture and a question can be built, and every message is answered.\<close>

lemma fixture_built:
  assumes "parses_names H fixture_names"
  obtains processor www where "test_processor H = Some processor"
    and "\<And>m i. ask H m i ''www.example.com.'' RT_A =
      Some (add_query \<lparr>q_name = www, q_type = RT_A\<rparr> (m\<lparr>msg_id := i\<rparr>))"
  using assms
  by (auto simp: parses_names_def test_processor_def create_test_zone_of_def example_soa_def ask_def)

lemma first_query_add: "msg_queries m = [] \<Longrightarrow> first_query (add_query q m) = Some q"
  by (simp add: first_query_def add_query_def)

lemma processed:
  assumes "\<And>r. process_query H st q = Inr r \<Longrightarrow> P r"
  shows "unwrap (process_query H st q) \<bind> (\<lambda>r. Some (P r)) = Some True"
proof -
  obtain r where "process_query H st q = Inr r" using process_query_total by blast
  with assms show ?thesis by simp
qed

text \<open>Each property test is its setup and an assertion on the response.\<close>

lemma header_property_tests:
  assumes "parses_names H fixture_names"
  shows "prop_query_id_matches_response H query_id = Some True"
    and "prop_response_is_always_response_type H query_id = Some True"
    and "prop_recursion_desired_flag_copied H rd = Some True"
proof -
  obtain processor www where b: "test_processor H = Some processor" and
    a: "\<And>m i. ask H m i ''www.example.com.'' RT_A =
      Some (add_query \<lparr>q_name = www, q_type = RT_A\<rparr> (m\<lparr>msg_id := i\<rparr>))"
    using fixture_built [OF assms] by blast
  show "prop_query_id_matches_response H query_id = Some True"
    unfolding prop_query_id_matches_response_def a b Option.bind.simps
    by (rule processed) (simp add: process_query_header add_query_def)
  show "prop_response_is_always_response_type H query_id = Some True"
    unfolding prop_response_is_always_response_type_def a b Option.bind.simps
    by (rule processed) (simp add: process_query_header)
  show "prop_recursion_desired_flag_copied H rd = Some True"
    unfolding prop_recursion_desired_flag_copied_def a b Option.bind.simps
    by (rule processed) (simp add: process_query_header add_query_def)
qed

lemma error_property_tests:
  assumes "fresh_message (message_new H)" and "parses_names H fixture_names"
  shows "prop_empty_query_returns_formerr H query_id = Some True"
    and "prop_unsupported_opcode_returns_notimp H query_id = Some True"
proof -
  obtain processor www where b: "test_processor H = Some processor" and
    a: "\<And>m i. ask H m i ''www.example.com.'' RT_A =
      Some (add_query \<lparr>q_name = www, q_type = RT_A\<rparr> (m\<lparr>msg_id := i\<rparr>))"
    using fixture_built [OF assms(2)] by blast
  have "msg_queries (message_new H) = []" using assms(1) by (simp add: fresh_message_def)
  then show "prop_empty_query_returns_formerr H query_id = Some True"
    unfolding prop_empty_query_returns_formerr_def b Option.bind.simps Let_def
    by (intro processed) (auto simp: process_query_def first_query_def standard_message_def)
  show "prop_unsupported_opcode_returns_notimp H query_id = Some True"
    unfolding prop_unsupported_opcode_returns_notimp_def a b Option.bind.simps
    by (rule processed) (auto simp: process_query_def add_query_def standard_message_def)
qed

lemma question_property_tests:
  assumes "fresh_message (message_new H)" and "msg_op_code (message_new H) = OP_Query"
    and "\<not> dnssec_ok (edns_new H)" and "parses_names H fixture_names"
  shows "prop_response_has_question_section H name rtype = Some True"
    and "prop_dnssec_ok_flag_preserved H flag = Some True"
proof -
  obtain processor www where b: "test_processor H = Some processor" and
    a: "\<And>m i. ask H m i ''www.example.com.'' RT_A =
      Some (add_query \<lparr>q_name = www, q_type = RT_A\<rparr> (m\<lparr>msg_id := i\<rparr>))"
    using fixture_built [OF assms(4)] by blast
  have new: "msg_queries (message_new H) = []" using assms(1) by (simp add: fresh_message_def)
  show "prop_response_has_question_section H name rtype = Some True"
    unfolding prop_response_has_question_section_def b Option.bind.simps Let_def
    by (rule processed) (use assms(1,2) new in \<open>auto simp: process_query_def add_query_def first_query_def
        Let_def name_eq_def split: if_splits option.splits\<close>)
  show "prop_dnssec_ok_flag_preserved H flag = Some True"
    unfolding prop_dnssec_ok_flag_preserved_def a b Option.bind.simps Let_def
    by (rule processed) (use assms(1-3) new in \<open>auto simp: process_query_def add_query_def first_query_def
        add_edns_def do_edns_def Let_def split: if_splits option.splits\<close>)
qed

text \<open>
  A name is in the zone when its labels end with those of the origin. The property test looks at the
  end of the text instead, and fails for \<open>myexample.com.\<close>, a name its generator can produce: the
  server rightly refuses it.
\<close>

lemma suffix_property_test:
  "prop_authoritative_for_configured_zones sample [''www'', ''example'', ''com''] = Some True"
  "prop_authoritative_for_configured_zones sample [''www'', ''example'', ''org''] = Some True"
  "prop_authoritative_for_configured_zones sample [''myexample'', ''com''] = Some False"
  by code_simp+

end
