(* ===== verification/Metrics_Tests.thy ===== *)
theory Metrics_Tests
  imports Metrics
begin

text \<open>
  The unit tests of \<open>src/metrics.rs\<close> as boolean functions of the instants at which the clock is
  read, and the proof that each of them succeeds on the model. A test that runs several threads is a
  function of the interleaving of their calls.
\<close>

section \<open>The tests\<close>

definition from_micros :: "nat \<Rightarrow> nat" where
  "from_micros us = us * 1000"

definition from_millis :: "nat \<Rightarrow> nat" where
  "from_millis ms = ms * 1000000"

definition test_metrics_recording :: "nat \<Rightarrow> nat \<Rightarrow> bool" where
  "test_metrics_recording t t' =
     (let metrics = metrics_new t;
          metrics = record_query Udp False metrics;
          metrics = record_query Tcp True metrics;
          metrics = record_response NoError metrics;
          metrics = record_response NXDomain metrics;
          metrics = record_query_type RT_A metrics;
          metrics = record_latency (from_micros 1500) metrics;
          snapshot = get_snapshot t' metrics
      in snap_total_queries snapshot = 2 \<and> snap_udp_queries snapshot = 1 \<and>
         snap_tcp_queries snapshot = 1 \<and> snap_edns_queries snapshot = 1 \<and>
         snap_noerror_responses snapshot = 1 \<and> snap_nxdomain_responses snapshot = 1 \<and>
         snap_avg_latency_us snapshot = 750)"

definition test_all_response_codes :: "nat \<Rightarrow> nat \<Rightarrow> bool" where
  "test_all_response_codes t t' =
     (let metrics = metrics_new t;
          metrics = record_response NoError metrics;
          metrics = record_response NXDomain metrics;
          metrics = record_response ServFail metrics;
          metrics = record_response Refused metrics;
          metrics = record_response FormErr metrics;
          snapshot = get_snapshot t' metrics
      in snap_noerror_responses snapshot = 1 \<and> snap_nxdomain_responses snapshot = 1 \<and>
         snap_servfail_responses snapshot = 1 \<and> snap_refused_responses snapshot = 1 \<and>
         snap_formerr_responses snapshot = 1)"

definition test_rate_limited_and_errors :: "nat \<Rightarrow> nat \<Rightarrow> bool" where
  "test_rate_limited_and_errors t t' =
     (let metrics = metrics_new t;
          metrics = record_rate_limited metrics;
          metrics = record_rate_limited metrics;
          metrics = record_error metrics;
          metrics = record_error metrics;
          metrics = record_error metrics;
          snapshot = get_snapshot t' metrics
      in snap_rate_limited snapshot = 2 \<and> snap_errors snapshot = 3)"

definition test_latency_min_max :: "nat \<Rightarrow> nat \<Rightarrow> bool" where
  "test_latency_min_max t t' =
     (let metrics = metrics_new t;
          metrics = record_query Udp False metrics;
          metrics = record_query Udp False metrics;
          metrics = record_query Udp False metrics;
          metrics = record_query Udp False metrics;
          metrics = record_query Udp False metrics;
          metrics = record_latency (from_micros 100) metrics;
          metrics = record_latency (from_micros 500) metrics;
          metrics = record_latency (from_micros 50) metrics;
          metrics = record_latency (from_micros 1000) metrics;
          metrics = record_latency (from_micros 200) metrics;
          snapshot = get_snapshot t' metrics
      in snap_min_latency_us snapshot = 50 \<and> snap_max_latency_us snapshot = 1000 \<and>
         snap_avg_latency_us snapshot = (100 + 500 + 50 + 1000 + 200) div 5)"

definition test_multiple_query_types :: "nat \<Rightarrow> nat \<Rightarrow> bool" where
  "test_multiple_query_types t t' =
     (let metrics = metrics_new t;
          metrics = record_query_type RT_A metrics;
          metrics = record_query_type RT_AAAA metrics;
          metrics = record_query_type RT_A metrics;
          metrics = record_query_type RT_MX metrics;
          metrics = record_query_type RT_A metrics;
          metrics = record_query_type RT_AAAA metrics;
          snapshot = get_snapshot t' metrics
      in hm_get (\<lambda>t. t) (snap_query_types snapshot) RT_A = Some 3 \<and>
         hm_get (\<lambda>t. t) (snap_query_types snapshot) RT_AAAA = Some 2 \<and>
         hm_get (\<lambda>t. t) (snap_query_types snapshot) RT_MX = Some 1)"

definition test_zero_queries_latency :: "nat \<Rightarrow> nat \<Rightarrow> bool" where
  "test_zero_queries_latency t t' =
     (let metrics = metrics_new t; snapshot = get_snapshot t' metrics
      in snap_avg_latency_us snapshot = 0 \<and> snap_total_queries snapshot = 0)"

definition test_uptime :: "nat \<Rightarrow> nat \<Rightarrow> bool" where
  "test_uptime t slept =
     (let metrics = metrics_new t; snapshot = get_snapshot (t + slept) metrics
      in 100 \<le> snap_uptime snapshot div 1000000)"

text \<open>The calls of thread \<open>i\<close>, and the body of the test after the join.\<close>

definition thread_calls :: "nat \<Rightarrow> metrics_event list" where
  "thread_calls i =
     concat (replicate 100
       [Ev_query (if i mod 2 = 0 then Udp else Tcp) (i mod 3 = 0), Ev_response NoError,
        Ev_query_type RT_A, Ev_latency (from_micros 100)])"

definition test_concurrent_updates :: "nat \<Rightarrow> nat \<Rightarrow> metrics_event list \<Rightarrow> bool" where
  "test_concurrent_updates t t' calls =
     (let metrics = record_all calls (metrics_new t); snapshot = get_snapshot t' metrics
      in snap_total_queries snapshot = 1000 \<and> snap_noerror_responses snapshot = 1000)"

definition test_unknown_response_code :: "nat \<Rightarrow> nat \<Rightarrow> bool" where
  "test_unknown_response_code t t' =
     (let metrics = metrics_new t;
          metrics = record_response NotImp metrics;
          metrics = record_response (RC_other 6) metrics;
          snapshot = get_snapshot t' metrics
      in snap_noerror_responses snapshot = 0 \<and> snap_nxdomain_responses snapshot = 0 \<and>
         snap_servfail_responses snapshot = 0 \<and> snap_refused_responses snapshot = 0 \<and>
         snap_formerr_responses snapshot = 0)"

definition test_tcp_connection_metrics :: "nat \<Rightarrow> nat \<Rightarrow> bool" where
  "test_tcp_connection_metrics t t' =
     (let metrics = metrics_new t;
          metrics = record_tcp_connection metrics;
          metrics = record_tcp_connection metrics;
          metrics = record_tcp_connection metrics;
          snapshot = get_snapshot t' metrics
      in snap_tcp_connections snapshot = 3 \<and> snap_avg_queries_per_connection snapshot = Finite 0)"

definition test_tcp_queries_per_connection :: "nat \<Rightarrow> nat \<Rightarrow> bool" where
  "test_tcp_queries_per_connection t t' =
     (let metrics = metrics_new t;
          metrics = record_tcp_connection metrics;
          metrics = record_tcp_connection_closed 5 metrics;
          metrics = record_tcp_connection metrics;
          metrics = record_tcp_connection_closed 3 metrics;
          snapshot = get_snapshot t' metrics
      in snap_tcp_connections snapshot = 2 \<and> snap_avg_queries_per_connection snapshot = Finite 4)"

definition test_tcp_connection_timeouts :: "nat \<Rightarrow> nat \<Rightarrow> bool" where
  "test_tcp_connection_timeouts t t' =
     (let metrics = metrics_new t;
          metrics = record_tcp_connection metrics;
          metrics = record_tcp_connection_timeout metrics;
          metrics = record_tcp_connection metrics;
          metrics = record_tcp_connection_timeout metrics;
          snapshot = get_snapshot t' metrics
      in snap_tcp_connection_timeouts snapshot = 2)"

definition test_tcp_metrics_zero_connections :: "nat \<Rightarrow> nat \<Rightarrow> bool" where
  "test_tcp_metrics_zero_connections t t' =
     (let metrics = metrics_new t; snapshot = get_snapshot t' metrics
      in snap_tcp_connections snapshot = 0 \<and> snap_avg_queries_per_connection snapshot = Finite 0 \<and>
         snap_tcp_connection_timeouts snapshot = 0)"

definition test_tcp_connection_with_zero_queries :: "nat \<Rightarrow> nat \<Rightarrow> bool" where
  "test_tcp_connection_with_zero_queries t t' =
     (let metrics = metrics_new t;
          metrics = record_tcp_connection metrics;
          metrics = record_tcp_connection_closed 0 metrics;
          snapshot = get_snapshot t' metrics
      in snap_tcp_connections snapshot = 1 \<and> snap_avg_queries_per_connection snapshot = Finite 0)"

section \<open>The tests succeed\<close>

lemma recording_tests:
  "test_metrics_recording t t'" "test_all_response_codes t t'" "test_unknown_response_code t t'"
  "test_rate_limited_and_errors t t'" "test_multiple_query_types t t'"
  "test_zero_queries_latency t t'" "test_latency_min_max t t'"
  by code_simp+

lemma uptime_tests: "from_millis 100 \<le> slept \<Longrightarrow> test_uptime t slept"
  by (simp add: test_uptime_def metrics_new_def get_snapshot_def Let_def from_millis_def)

lemma tcp_tests:
  "test_tcp_connection_metrics t t'" "test_tcp_queries_per_connection t t'"
  "test_tcp_connection_timeouts t t'" "test_tcp_metrics_zero_connections t t'"
  "test_tcp_connection_with_zero_queries t t'"
  by code_simp+

text \<open>The interleavings of the calls of several threads.\<close>

fun interleavings :: "'a list list \<Rightarrow> 'a list set" where
  "interleavings [] = {[]}"
| "interleavings (xs # xss) = (\<Union>ys \<in> interleavings xss. shuffles xs ys)"

lemma mset_interleavings: "zs \<in> interleavings xss \<Longrightarrow> mset zs = mset (concat xss)"
  by (induction xss arbitrary: zs) (auto dest: mset_shuffles)

lemma count_events_concat: "count_events P (concat xss) = sum_list (map (count_events P) xss)"
  by (induction xss) (simp_all add: count_events_def)

lemma count_events_replicate: "count_events P (concat (replicate n xs)) = n * count_events P xs"
  by (induction n) (simp_all add: count_events_def)

lemma concurrent_tests:
  assumes "calls \<in> interleavings (map thread_calls [0..<10])"
  shows "test_concurrent_updates t t' calls"
proof -
  have count: "count_events P calls = (\<Sum>i\<leftarrow>[0..<10]. count_events P (thread_calls i))" for P
    using count_events_mset [OF mset_interleavings [OF assms], of P]
    by (simp add: count_events_concat comp_def)
  have noerror: "response_counter NoError = Some noerror_responses" by simp
  show ?thesis
    by (simp add: test_concurrent_updates_def get_snapshot_def Let_def query_counters
        response_counters [OF noerror] count thread_calls_def count_events_replicate metrics_new_def
        sum_list_triv)
qed

end
