(* ===== verification/Ratelimit_Tests.thy ===== *)
theory Ratelimit_Tests
  imports Ratelimit
begin

text \<open>
  The unit tests of \<open>src/ratelimit.rs\<close> as boolean functions of the instant at which the test starts;
  the calls between two sleeps read the clock at one instant. Each of them succeeds on the model.
\<close>

section \<open>The tests\<close>

definition calls_at :: "instant \<Rightarrow> ip_addr list \<Rightarrow> rate_limiter \<Rightarrow> bool list \<times> rate_limiter" where
  "calls_at t addrs limiter = run_checks check_rate_limit (map (\<lambda>a. (tick t, a)) addrs) limiter"

definition test_rate_limiting :: "instant \<Rightarrow> bool" where
  "test_rate_limiting t =
     (let limiter = rate_limiter_new 10 t;
          addr = V4 (127, 0, 0, 1);
          (allowed, limiter) = calls_at t (replicate 10 addr) limiter;
          (ok, _) = check_rate_limit (tick t) addr limiter
      in list_all id allowed \<and> \<not> ok)"

definition test_different_ips :: "instant \<Rightarrow> bool" where
  "test_different_ips t =
     (let limiter = rate_limiter_new 5 t;
          addr1 = V4 (127, 0, 0, 1);
          addr2 = V4 (127, 0, 0, 2);
          (allowed, limiter) = calls_at t (concat (replicate 5 [addr1, addr2])) limiter;
          (ok1, limiter) = check_rate_limit (tick t) addr1 limiter;
          (ok2, _) = check_rate_limit (tick t) addr2 limiter
      in list_all id allowed \<and> \<not> ok1 \<and> \<not> ok2)"

definition test_window_expiration :: "instant \<Rightarrow> bool" where
  "test_window_expiration t =
     (let limiter = rate_limiter_new 5 t;
          addr = V4 (127, 0, 0, 1);
          (allowed, limiter) = calls_at t (replicate 5 addr) limiter;
          (ok1, limiter) = check_rate_limit (tick t) addr limiter;
          t' = t + 1100000000;
          (ok2, _) = check_rate_limit (tick t') addr limiter
      in list_all id allowed \<and> \<not> ok1 \<and> ok2)"

definition test_cleanup_triggered :: "instant \<Rightarrow> bool" where
  "test_cleanup_triggered t =
     (let limiter = rate_limiter_new 10 t;
          (allowed, limiter) = calls_at t (map (\<lambda>i. V4 (127, 0, 0, of_nat i)) [1..<21]) limiter;
          limiter = limiter\<lparr>last_cleanup := t - from_secs 61\<rparr>;
          addr = V4 (127, 0, 0, 100);
          (ok, limiter) = check_rate_limit (tick t) addr limiter
      in list_all id allowed \<and> ok \<and> duration_since t (last_cleanup limiter) < from_secs 5)"

definition test_cleanup_removes_old_clients :: "instant \<Rightarrow> bool" where
  "test_cleanup_removes_old_clients t =
     (let limiter = rate_limiter_new 10 t;
          (allowed, limiter) = calls_at t (map (\<lambda>i. V4 (192, 168, 0, of_nat i)) [1..<11]) limiter;
          tracked = length (clients limiter);
          t' = t + 1100000000;
          limiter = cleanup t' limiter
      in list_all id allowed \<and> tracked = 10 \<and> length (clients limiter) = 0)"

definition test_partial_cleanup :: "instant \<Rightarrow> bool" where
  "test_partial_cleanup t =
     (let limiter = rate_limiter_new 10 t;
          addr1 = V4 (10, 0, 0, 1);
          (ok1, limiter) = check_rate_limit (tick t) addr1 limiter;
          t' = t + 600000000;
          addr2 = V4 (10, 0, 0, 2);
          (ok2, limiter) = check_rate_limit (tick t') addr2 limiter;
          t'' = t' + 600000000;
          limiter = cleanup t'' limiter
      in ok1 \<and> ok2 \<and> hm_contains_key (\<lambda>a. a) (clients limiter) addr2)"

definition test_ipv6_addresses :: "instant \<Rightarrow> bool" where
  "test_ipv6_addresses t =
     (let limiter = rate_limiter_new 3 t;
          addr = V6 [0x2001, 0xdb8, 0, 0, 0, 0, 0, 1];
          (allowed, limiter) = calls_at t (replicate 3 addr) limiter;
          (ok, _) = check_rate_limit (tick t) addr limiter
      in list_all id allowed \<and> \<not> ok)"

definition test_zero_rate_limit :: "instant \<Rightarrow> bool" where
  "test_zero_rate_limit t =
     (let limiter = rate_limiter_new 0 t;
          addr = V4 (127, 0, 0, 1);
          (ok, _) = check_rate_limit (tick t) addr limiter
      in \<not> ok)"

definition test_high_rate_limit :: "instant \<Rightarrow> bool" where
  "test_high_rate_limit t =
     (let limiter = rate_limiter_new 1000 t;
          addr = V4 (127, 0, 0, 1);
          (allowed, limiter) = calls_at t (replicate 1000 addr) limiter;
          (ok, _) = check_rate_limit (tick t) addr limiter
      in list_all id allowed \<and> \<not> ok)"

section \<open>The tests succeed\<close>

lemma tick_simps [simp]:
  "t_elapsed (tick t) = t" "t_cleanup (tick t) = t" "t_stamp (tick t) = t" "t_now (tick t) = t"
  "ticks_ok (tick t)"
  by (simp_all add: tick_def ticks_ok_def)

text \<open>
  Calls at one instant are all allowed when no client makes more of them than \<open>max_qps\<close> leaves it,
  and each leaves its stamp.
\<close>

lemma calls_at:
  assumes "limiter_inv W L s" and "0 < W"
    and "\<And>a. length (live_stamps s a t) + count_list as a \<le> L"
  shows "list_all id (fst (calls_at t as s))" and "limiter_inv W L (snd (calls_at t as s))"
    and "t \<le> u \<Longrightarrow> live_stamps (snd (calls_at t as s)) a u =
      live_stamps s a u @ (if u - t < W then replicate (count_list as a) t else [])"
proof -
  have "list_all id (fst (calls_at t as s)) \<and> limiter_inv W L (snd (calls_at t as s)) \<and>
    (\<forall>a u. t \<le> u \<longrightarrow> live_stamps (snd (calls_at t as s)) a u =
      live_stamps s a u @ (if u - t < W then replicate (count_list as a) t else []))"
    using assms(1,3)
  proof (induction as arbitrary: s)
    case (Cons b as)
    obtain ok s' where c: "check_rate_limit (tick t) b s = (ok, s')" by fastforce
    have ok using sw.decision [OF Cons.prems(1), of "tick t" b] Cons.prems(2) [of b] c by simp
    then have live: "t \<le> u \<Longrightarrow> live_stamps s' a u =
        live_stamps s a u @ (if a = b \<and> u - t < W then [t] else [])" for a u
      using sw.live_check [OF Cons.prems(1), of "tick t" u b a] c by simp
    have "limiter_inv W L s'" using sw.inv_check [OF Cons.prems(1), of "tick t" b] c by simp
    moreover have "length (live_stamps s' a t) + count_list as a \<le> L" for a
      using Cons.prems(2) [of a] live [of t a] by (simp split: if_splits)
    moreover have "calls_at t (b # as) s = (ok # fst (calls_at t as s'), snd (calls_at t as s'))"
      using c by (simp add: calls_at_def split: prod.split)
    ultimately show ?case using Cons.IH [of s'] \<open>ok\<close> live by simp
  qed (simp add: calls_at_def)
  then show "list_all id (fst (calls_at t as s))" and "limiter_inv W L (snd (calls_at t as s))"
    and "t \<le> u \<Longrightarrow> live_stamps (snd (calls_at t as s)) a u =
      live_stamps s a u @ (if u - t < W then replicate (count_list as a) t else [])" by auto
qed

lemma live_new [simp]: "live_stamps (rate_limiter_new qps t0) a u = []"
  by (simp add: live_stamps_def stored_stamps_def rate_limiter_new_def)

lemma calls_new:
  assumes "\<And>a. count_list as a \<le> unat qps"
  shows "list_all id (fst (calls_at t as (rate_limiter_new qps t)))"
    and "limiter_inv (from_secs 1) (unat qps) (snd (calls_at t as (rate_limiter_new qps t)))"
    and "t \<le> u \<Longrightarrow> live_stamps (snd (calls_at t as (rate_limiter_new qps t))) a u =
      (if u - t < from_secs 1 then replicate (count_list as a) t else [])"
  using calls_at [OF new_inv, of qps t t as] assms by (simp_all add: from_secs_def)

text \<open>A call after such a burst, at its instant or later, and the call after it.\<close>

lemma call_after:
  assumes "\<And>a. count_list as a \<le> unat qps" and "t \<le> u"
  shows "fst (check_rate_limit (tick u) a (snd (calls_at t as (rate_limiter_new qps t)))) \<longleftrightarrow>
      (if u - t < 1000000000 then count_list as a else 0) < unat qps"
    and "u \<le> v \<Longrightarrow> fst (check_rate_limit (tick v) b
        (snd (check_rate_limit (tick u) a (snd (calls_at t as (rate_limiter_new qps t)))))) \<longleftrightarrow>
      length (live_stamps (snd (calls_at t as (rate_limiter_new qps t))) b v) +
        (if b = a \<and> fst (check_rate_limit (tick u) a (snd (calls_at t as (rate_limiter_new qps t)))) \<and>
          v - u < 1000000000 then 1 else 0) < unat qps"
proof -
  let ?s = "snd (calls_at t as (rate_limiter_new qps t))"
  have inv: "limiter_inv (from_secs 1) (unat qps) ?s" by (rule calls_new) (rule assms)
  show "fst (check_rate_limit (tick u) a ?s) \<longleftrightarrow>
      (if u - t < 1000000000 then count_list as a else 0) < unat qps"
    using sw.decision [OF inv, of "tick u" a] calls_new(3) [OF assms(1,2)] by (simp add: from_secs_def)
  assume "u \<le> v"
  then show "fst (check_rate_limit (tick v) b (snd (check_rate_limit (tick u) a ?s))) \<longleftrightarrow>
      length (live_stamps ?s b v) +
        (if b = a \<and> fst (check_rate_limit (tick u) a ?s) \<and> v - u < 1000000000 then 1 else 0) < unat qps"
    using sw.decision [OF sw.inv_check [OF inv], of "tick u" "tick v" b a]
      sw.live_check [OF inv, of "tick u" v a b] by (simp add: from_secs_def)
qed

lemma count_replicate [simp]: "count_list (replicate n x) y = (if x = y then n else 0)"
  by (induction n) auto

lemma burst_tests:
  "test_rate_limiting t" "test_ipv6_addresses t" "test_high_rate_limit t" "test_zero_rate_limit t"
proof -
  have burst: "list_all id (fst (calls_at t (replicate (unat q) a) (rate_limiter_new q t))) \<and>
      \<not> fst (check_rate_limit (tick t) a (snd (calls_at t (replicate (unat q) a) (rate_limiter_new q t))))"
    for q a
    using calls_new(1) [of "replicate (unat q) a" q t] call_after(1) [of "replicate (unat q) a" q t t a]
    by simp
  show "test_rate_limiting t" using burst [of 10 "V4 (127, 0, 0, 1)"]
    by (simp add: test_rate_limiting_def Let_def case_prod_beta)
  show "test_ipv6_addresses t" using burst [of 3 "V6 [0x2001, 0xdb8, 0, 0, 0, 0, 0, 1]"]
    by (simp add: test_ipv6_addresses_def Let_def case_prod_beta)
  show "test_high_rate_limit t" using burst [of 1000 "V4 (127, 0, 0, 1)"]
    by (simp add: test_high_rate_limit_def Let_def case_prod_beta)
  show "test_zero_rate_limit t" using burst [of 0 "V4 (127, 0, 0, 1)"]
    by (simp add: test_zero_rate_limit_def Let_def case_prod_beta calls_at_def)
qed

lemma window_tests: "test_window_expiration t"
proof -
  let ?a = "V4 (127, 0, 0, 1)"
  have five: "count_list (replicate 5 ?a) b \<le> unat (5 :: u32)" for b
    by simp
  show ?thesis
    using calls_new(1) [OF five] call_after(1) [OF five, of t t ?a]
      call_after(2) [OF five, of t t "t + 1100000000" ?a ?a] calls_new(3) [OF five, of t "t + 1100000000" ?a]
    by (simp add: test_window_expiration_def Let_def case_prod_beta from_secs_def)
qed

lemma client_tests: "test_different_ips t"
proof -
  let ?a = "V4 (127, 0, 0, 1)" and ?b = "V4 (127, 0, 0, 2)"
  let ?as = "concat (replicate 5 [?a, ?b])"
  have count: "count_list ?as c = (if c = ?a \<or> c = ?b then 5 else 0)" for c
    by (simp add: numeral_eq_Suc)
  then have five: "count_list ?as c \<le> unat (5 :: u32)" for c by simp
  show ?thesis
    using calls_new(1) [OF five] call_after(1) [OF five, of t t ?a]
      call_after(2) [OF five, of t t t ?b ?a] calls_new(3) [OF five, of t t ?b] count [of ?a] count [of ?b]
    by (simp add: test_different_ips_def Let_def case_prod_beta from_secs_def)
qed

text \<open>Calls of new clients at the instant of the last cleanup each add a client with one stamp.\<close>

lemma hm_upsert_new:
  "hm_get key m k = None \<Longrightarrow> hm_upsert key m k d f = m @ [(k, f d)]"
  by (induction key m k d f rule: hm_upsert.induct) (auto split: if_splits)

lemma calls_distinct:
  assumes "last_cleanup s = t" and "0 < window s" and "max_qps s \<noteq> 0"
    and "distinct as" and "set as \<inter> fst ` set (clients s) = {}"
  shows "snd (calls_at t as s) = s\<lparr>clients := clients s @ map (\<lambda>a. (a, \<lparr>queries = [t]\<rparr>)) as\<rparr>"
  using assms
proof (induction as arbitrary: s)
  case (Cons b as)
  let ?s = "s\<lparr>clients := clients s @ [(b, \<lparr>queries = [t]\<rparr>)]\<rparr>"
  have "hm_get (\<lambda>a. a) (clients s) b = None"
    using Cons.prems(5) by (force simp: hm_get_None_iff)
  then have push: "check_rate_limit (tick t) b s = (True, ?s)"
    using Cons.prems(1-3)
    by (simp add: check_rate_limit_eq cleaned_def duration_since_def Let_def live_stamps_def
        stored_stamps_def hm_insert_def hm_upsert_new unat_gt_0)
  then have "snd (calls_at t (b # as) s) = snd (calls_at t as ?s)"
    by (simp add: calls_at_def case_prod_beta)
  also have "\<dots> = ?s\<lparr>clients := clients ?s @ map (\<lambda>a. (a, \<lparr>queries = [t]\<rparr>)) as\<rparr>"
    by (rule Cons.IH) (use Cons.prems in auto)
  finally show ?case by simp
qed (simp add: calls_at_def)

lemma count_distinct: "distinct as \<Longrightarrow> count_list as a \<le> 1"
  by (induction as) auto

lemma calls_clients:
  assumes "distinct as"
  shows "snd (calls_at t as (rate_limiter_new 10 t)) =
      (rate_limiter_new 10 t)\<lparr>clients := map (\<lambda>a. (a, \<lparr>queries = [t]\<rparr>)) as\<rparr>"
    and "list_all id (fst (calls_at t as (rate_limiter_new 10 t)))"
  using calls_distinct [of "rate_limiter_new 10 t" t as] assms
    calls_new(1) [OF order_trans [OF count_distinct [OF assms]], of 10 t]
  by (simp_all add: rate_limiter_new_def from_secs_def)

lemma partial_cleanup_tests: "test_partial_cleanup t"
proof -
  let ?a = "V4 (10, 0, 0, 1)" and ?b = "V4 (10, 0, 0, 2)" and ?rl = "rate_limiter_new 10 t"
  let ?rl1 = "snd (check_rate_limit (tick t) ?a ?rl)" and ?t = "t + 600000000"
  let ?rl2 = "snd (check_rate_limit (tick ?t) ?b ?rl1)"
  have inv: "limiter_inv (from_secs 1) 10 ?rl" using new_inv [of 10 t] by simp
  note inv1 = sw.inv_check [OF inv tick_simps(5), of t ?a]
  note inv2 = sw.inv_check [OF inv1 tick_simps(5), of ?t ?b]
  have ok: "fst (check_rate_limit (tick t) ?a ?rl)"
    using sw.decision [OF inv tick_simps(5), of t ?a] by simp
  have live: "live_stamps ?rl1 ?b u = []" if "t \<le> u" for u
    using sw.live_check [OF inv tick_simps(5), of t u ?a ?b] that by simp
  have ok2: "fst (check_rate_limit (tick ?t) ?b ?rl1)"
    using sw.decision [OF inv1 tick_simps(5), of ?t ?b] live [of ?t] by simp
  then have "live_stamps ?rl2 ?b (?t + 600000000) = [?t]"
    using sw.live_check [OF inv1 tick_simps(5), of ?t "?t + 600000000" ?b ?b] live [of "?t + 600000000"]
    by (simp add: from_secs_def)
  then have "stored_stamps (cleanup (?t + 600000000) ?rl2) ?b \<noteq> []"
    using inv2 by (simp add: cleanup_stamps limiter_inv_def)
  then have "hm_contains_key (\<lambda>a. a) (clients (cleanup (?t + 600000000) ?rl2)) ?b"
    by (auto simp: stored_stamps_def hm_contains_key_def split: option.splits)
  with ok ok2 show ?thesis
    by (simp add: test_partial_cleanup_def Let_def case_prod_beta)
qed

lemma cleanup_tests:
  "test_cleanup_removes_old_clients t"
  "from_secs 61 \<le> t \<Longrightarrow> test_cleanup_triggered t"
proof -
  let ?as = "map (\<lambda>i. V4 (192, 168, 0, of_nat i)) [1..<11] :: ip_addr list"
  have as: "distinct ?as" by code_simp
  have "hm_retain (\<lambda>_ client. let client = retain_recent (t + 1100000000) (from_secs 1) client
      in (client, queries client \<noteq> [])) (map (\<lambda>a. (a, \<lparr>queries = [t]\<rparr>)) as) = []" for as :: "ip_addr list"
    by (induction as) (simp_all add: retain_recent_def duration_since_def from_secs_def)
  with calls_clients [OF as, of t] show "test_cleanup_removes_old_clients t"
    by (simp add: test_cleanup_removes_old_clients_def Let_def case_prod_beta cleanup_def
        rate_limiter_new_def del: map_map)
  let ?bs = "map (\<lambda>i. V4 (127, 0, 0, of_nat i)) [1..<21] :: ip_addr list"
  have bs: "distinct ?bs" by code_simp
  let ?rl = "(rate_limiter_new 10 t)\<lparr>clients := map (\<lambda>a. (a, \<lparr>queries = [t]\<rparr>)) ?bs,
    last_cleanup := t - from_secs 61\<rparr>"
  assume "from_secs 61 \<le> t"
  then have "last_cleanup (snd (check_rate_limit (tick t) a ?rl)) = t" for a
    by (simp add: check_rate_limit_eq Let_def cleaned_def duration_since_def from_secs_def)
  moreover have "fst (check_rate_limit (tick t) (V4 (127, 0, 0, 100)) ?rl)"
  proof -
    have "limiter_inv (from_secs 1) 10 ?rl"
      using bs by (simp add: limiter_inv_def rate_limiter_new_def hm_wf_def comp_def)
    moreover have "length (live_stamps ?rl a t) \<le> 1" for a
      by (auto simp: live_stamps_def stored_stamps_def split: option.split dest!: hm_get_Some_in)
    then have "length (live_stamps ?rl a t) < 10" for a by (rule le_less_trans) simp
    ultimately show ?thesis using sw.decision [of "from_secs 1" 10 ?rl "tick t"] by simp
  qed
  ultimately show "test_cleanup_triggered t" using calls_clients [OF bs, of t]
    by (simp add: test_cleanup_triggered_def Let_def case_prod_beta duration_since_def from_secs_def)
qed

end
