(* ===== verification/Dnssec_Tests.thy ===== *)
theory Dnssec_Tests
  imports Dnssec Zone_Tests
begin

text \<open>
  The tests of \<open>src/dnssec.rs\<close>, written like those of \<open>Zone_Tests\<close>; the names are ASCII, which
  \<open>Name::from_utf8\<close> and \<open>Name::from_str\<close> read alike. The tests of digests hold for every hash function,
  those of signature lifetimes for every reading of the clock that does not overflow.
\<close>

section \<open>Shared steps\<close>

definition is_ok :: "'e + 'a \<Rightarrow> bool" where
  "is_ok r = (case r of Inr _ \<Rightarrow> True | Inl _ \<Rightarrow> False)"

lemma is_ok_simps [simp]: "is_ok (Inr x)" "\<not> is_ok (Inl e)"
  by (simp_all add: is_ok_def)

text \<open>\<open>DNSKEY::new(true, false, false, algorithm, public_key)\<close> as a record.\<close>

definition key_record :: "'n hickory \<Rightarrow> 'n \<Rightarrow> algorithm \<Rightarrow> bytes \<Rightarrow> 'n rr" where
  "key_record H name alg public_key =
     from_rdata H name 300 (RD_DNSSEC (DNSKEY True False False alg public_key))"

definition sig_record ::
  "'n hickory \<Rightarrow> 'n \<Rightarrow> record_type \<Rightarrow> u32 \<Rightarrow> u32 \<Rightarrow> u16 \<Rightarrow> 'n \<Rightarrow> bytes \<Rightarrow> 'n rr" where
  "sig_record H name covered expiration inception key_tag signer signature =
     from_rdata H name 300
       (RD_DNSSEC (SIG covered RSASHA256 2 300 expiration inception key_tag signer signature))"

definition nsec_record :: "'n hickory \<Rightarrow> 'n \<Rightarrow> 'n \<Rightarrow> record_type list \<Rightarrow> 'n rr" where
  "nsec_record H owner next_name types = from_rdata H owner 300 (RD_DNSSEC (NSEC next_name types))"

text \<open>
  The digest input the tests write out by hand: the labels of the owner, each with its length, the
  root label, the flags 256, protocol 3, algorithm 8 and the key.
\<close>

definition digest_input :: "string list \<Rightarrow> bytes \<Rightarrow> bytes" where
  "digest_input labels public_key =
     concat (map (\<lambda>l. of_nat (length l) # map of_char l) labels) @ [0] @
     to_be_bytes 256 @ [3] @ [8] @ public_key"

text \<open>
  The common part of the DS tests: a key, a DS record with a digest and the computed key tag, and
  the verification.
\<close>

definition verify_with_digest ::
  "'n hickory \<Rightarrow> codecs \<Rightarrow> string \<Rightarrow> bytes \<Rightarrow> digest_type \<Rightarrow> bytes \<Rightarrow> (dnssec_error + unit) option" where
  "verify_with_digest H C owner public_key dt digest = do {
      owner_name \<leftarrow> name_from_str H owner;
      let dnskey_record = key_record H owner_name RSASHA256 public_key;
      key_tag \<leftarrow> unwrap (compute_key_tag H dnskey_record);
      let ds_record = from_rdata H owner_name 300 (RD_DNSSEC (DS key_tag RSASHA256 dt digest));
      Some (verify_ds H C ds_record dnskey_record)
    }"

section \<open>Configuration and key tags\<close>

definition test_dnssec_config_default :: bool where
  "test_dnssec_config_default =
     (let config = dnssec_config_default
      in \<not> validate_signatures config \<and> \<not> require_dnssec config \<and> auto_include_dnssec config)"

definition test_dnssec_config_custom :: bool where
  "test_dnssec_config_custom =
     (let config = \<lparr>validate_signatures = True, require_dnssec = True, auto_include_dnssec = False\<rparr>
      in validate_signatures config \<and> require_dnssec config \<and> \<not> auto_include_dnssec config)"

definition test_key_tag_computation :: "'n hickory \<Rightarrow> bool option" where
  "test_key_tag_computation H = do {
      name \<leftarrow> name_from_str H ''example.com.'';
      let key_tag = compute_key_tag H (key_record H name RSASHA256 [1, 2, 3, 4, 5]);
      tag \<leftarrow> unwrap key_tag;
      Some (is_ok key_tag \<and> 0 < tag)
    }"

definition test_key_tag_with_different_keys :: "'n hickory \<Rightarrow> bool option" where
  "test_key_tag_with_different_keys H = do {
      name \<leftarrow> name_from_str H ''example.com.'';
      tag1 \<leftarrow> unwrap (compute_key_tag H (key_record H name RSASHA256
        [1, 2, 3, 4, 5, 6, 7, 8, 9, 10, 11, 12, 13, 14, 15, 16]));
      tag2 \<leftarrow> unwrap (compute_key_tag H (key_record H name RSASHA256
        [16, 15, 14, 13, 12, 11, 10, 9, 8, 7, 6, 5, 4, 3, 2, 1]));
      Some (tag1 \<noteq> tag2)
    }"

definition test_compute_key_tag_odd_length_key :: "'n hickory \<Rightarrow> bool option" where
  "test_compute_key_tag_odd_length_key H = do {
      name \<leftarrow> name_from_str H ''example.com.'';
      Some (is_ok (compute_key_tag H (key_record H name RSASHA256 [1, 2, 3, 4, 5])))
    }"

definition test_compute_key_tag_very_short_key :: "'n hickory \<Rightarrow> bool option" where
  "test_compute_key_tag_very_short_key H = do {
      name \<leftarrow> name_from_str H ''example.com.'';
      Some (is_ok (compute_key_tag H (key_record H name RSASHA256 [1])))
    }"

definition test_compute_key_tag_very_long_key :: "'n hickory \<Rightarrow> bool option" where
  "test_compute_key_tag_very_long_key H = do {
      name \<leftarrow> name_from_str H ''example.com.'';
      Some (is_ok (compute_key_tag H (key_record H name RSASHA256 (replicate 512 0x42))))
    }"

section \<open>Related records\<close>

definition test_find_related_dnssec_records :: "'n hickory \<Rightarrow> bool option" where
  "test_find_related_dnssec_records H = do {
      name \<leftarrow> name_from_str H ''example.com.'';
      Some (length (find_related_dnssec_records H [] name RT_A) = 0)
    }"

definition test_find_related_dnssec_with_dnskey :: "'n hickory \<Rightarrow> bool option" where
  "test_find_related_dnssec_with_dnskey H = do {
      name \<leftarrow> name_from_str H ''example.com.'';
      let records = [key_record H name RSASHA256 [1, 2, 3, 4, 5]];
      Some (length (find_related_dnssec_records H records name RT_A) = 1)
    }"

definition test_find_related_dnssec_with_multiple_rrsigs :: "'n hickory \<Rightarrow> bool option" where
  "test_find_related_dnssec_with_multiple_rrsigs H = do {
      name \<leftarrow> name_from_str H ''example.com.'';
      let rrsig_a = sig_record H name RT_A 12345 12340 54321 name [1, 2, 3];
      let rrsig_aaaa = sig_record H name RT_AAAA 12345 12340 54321 name [4, 5, 6];
      Some (length (find_related_dnssec_records H [rrsig_a, rrsig_aaaa] name RT_A) = 1)
    }"

definition test_find_related_dnssec_with_wrong_name :: "'n hickory \<Rightarrow> bool option" where
  "test_find_related_dnssec_with_wrong_name H = do {
      name \<leftarrow> name_from_str H ''example.com.'';
      other_name \<leftarrow> name_from_str H ''other.com.'';
      let rrsig = sig_record H other_name RT_A 12345 12340 54321 other_name [1, 2, 3];
      Some (length (find_related_dnssec_records H [rrsig] name RT_A) = 0)
    }"

section \<open>Signature lifetimes\<close>

text \<open>Each test reads the clock once to build the record and once in the check.\<close>

definition test_check_signature_validity_future :: "'n hickory \<Rightarrow> nat \<Rightarrow> nat \<Rightarrow> bool option" where
  "test_check_signature_validity_future H t t' = do {
      let future_time = (of_nat (t + 86400) :: u32);
      signer \<leftarrow> name_from_str H ''example.com.'';
      owner \<leftarrow> name_from_str H ''www.example.com.'';
      let rec = sig_record H owner RT_A (future_time + 3600) future_time 12345 signer [1, 2, 3, 4, 5];
      Some (case check_signature_validity (Some t') rec of Inl (Not_yet_valid _ _) \<Rightarrow> True | _ \<Rightarrow> False)
    }"

definition test_check_signature_validity_expired :: "'n hickory \<Rightarrow> nat \<Rightarrow> nat \<Rightarrow> bool option" where
  "test_check_signature_validity_expired H t t' = do {
      let past_time = (of_nat (t - 86400) :: u32);
      signer \<leftarrow> name_from_str H ''example.com.'';
      owner \<leftarrow> name_from_str H ''www.example.com.'';
      let rec = sig_record H owner RT_A (past_time + 3600) past_time 12345 signer [1, 2, 3, 4, 5];
      Some (case check_signature_validity (Some t') rec of Inl (Expired _ _) \<Rightarrow> True | _ \<Rightarrow> False)
    }"

definition test_check_signature_validity_valid :: "'n hickory \<Rightarrow> nat \<Rightarrow> nat \<Rightarrow> bool option" where
  "test_check_signature_validity_valid H t t' = do {
      let now = (of_nat t :: u32);
      signer \<leftarrow> name_from_str H ''example.com.'';
      owner \<leftarrow> name_from_str H ''www.example.com.'';
      let rec = sig_record H owner RT_A (now + 3600) (now - 3600) 12345 signer [1, 2, 3, 4, 5];
      Some (is_ok (check_signature_validity (Some t') rec))
    }"

definition test_check_signature_validity_at_boundary :: "'n hickory \<Rightarrow> nat \<Rightarrow> nat \<Rightarrow> bool option" where
  "test_check_signature_validity_at_boundary H t t' = do {
      let now = (of_nat t :: u32);
      signer \<leftarrow> name_from_str H ''example.com.'';
      owner \<leftarrow> name_from_str H ''www.example.com.'';
      let rec = sig_record H owner RT_A (now + 3600) now 12345 signer [1, 2, 3];
      Some (is_ok (check_signature_validity (Some t') rec))
    }"

section \<open>Denial of existence\<close>

definition test_validate_nsec_denial_empty :: "'n hickory \<Rightarrow> bool option" where
  "test_validate_nsec_denial_empty H = do {
      query_name \<leftarrow> name_from_str H ''www.example.com.'';
      Some (\<not> is_ok (validate_nsec_denial H query_name RT_A []))
    }"

definition test_validate_nsec_normal_case :: "'n hickory \<Rightarrow> bool option" where
  "test_validate_nsec_normal_case H = do {
      owner \<leftarrow> name_from_str H ''a.example.com.'';
      next_name \<leftarrow> name_from_str H ''z.example.com.'';
      query \<leftarrow> name_from_str H ''m.example.com.'';
      Some (is_ok (validate_nsec_denial H query RT_A [nsec_record H owner next_name [RT_NS, RT_SOA]]))
    }"

definition test_validate_nsec_wraparound_case :: "'n hickory \<Rightarrow> bool option" where
  "test_validate_nsec_wraparound_case H = do {
      owner \<leftarrow> name_from_str H ''z.example.com.'';
      next_name \<leftarrow> name_from_str H ''a.example.com.'';
      query \<leftarrow> name_from_str H ''zz.example.com.'';
      Some (is_ok (validate_nsec_denial H query RT_A [nsec_record H owner next_name [RT_NS]]))
    }"

definition test_validate_nsec_type_bitmap :: "'n hickory \<Rightarrow> bool option" where
  "test_validate_nsec_type_bitmap H = do {
      owner \<leftarrow> name_from_str H ''www.example.com.'';
      next_name \<leftarrow> name_from_str H ''z.example.com.'';
      Some (is_ok (validate_nsec_denial H owner RT_A [nsec_record H owner next_name [RT_NS, RT_SOA]]))
    }"

definition test_validate_nsec_type_exists :: "'n hickory \<Rightarrow> bool option" where
  "test_validate_nsec_type_exists H = do {
      owner \<leftarrow> name_from_str H ''www.example.com.'';
      next_name \<leftarrow> name_from_str H ''z.example.com.'';
      Some (\<not> is_ok (validate_nsec_denial H owner RT_A [nsec_record H owner next_name [RT_A, RT_NS]]))
    }"

definition test_validate_nsec_multiple_records :: "'n hickory \<Rightarrow> bool option" where
  "test_validate_nsec_multiple_records H = do {
      owner1 \<leftarrow> name_from_str H ''a.example.com.'';
      next1 \<leftarrow> name_from_str H ''m.example.com.'';
      owner2 \<leftarrow> name_from_str H ''m.example.com.'';
      next2 \<leftarrow> name_from_str H ''z.example.com.'';
      query \<leftarrow> name_from_str H ''p.example.com.'';
      Some (is_ok (validate_nsec_denial H query RT_A
        [nsec_record H owner1 next1 [RT_A], nsec_record H owner2 next2 [RT_A]]))
    }"

section \<open>DS verification\<close>

definition test_verify_ds_algorithm_mismatch :: "'n hickory \<Rightarrow> codecs \<Rightarrow> bool option" where
  "test_verify_ds_algorithm_mismatch H C = do {
      name \<leftarrow> name_from_str H ''example.com.'';
      let ds_record = from_rdata H name 300 (RD_DNSSEC (DS 12345 RSASHA256 SHA256 [1, 2, 3, 4, 5]));
      let dnskey_record = key_record H name ECDSAP256SHA256 [1, 2, 3, 4, 5];
      Some (case verify_ds H C ds_record dnskey_record of
              Inl (Algorithm_mismatch _ _) \<Rightarrow> True | _ \<Rightarrow> False)
    }"

definition test_ds_verification_with_correct_wire_format :: "'n hickory \<Rightarrow> codecs \<Rightarrow> bool option" where
  "test_ds_verification_with_correct_wire_format H C = do {
      let public_key = [0x01, 0x02, 0x03, 0x04];
      let correct_digest = sha256 C (digest_input [''example'', ''com''] public_key);
      result \<leftarrow> verify_with_digest H C ''example.com.'' public_key SHA256 correct_digest;
      Some (is_ok result)
    }"

definition test_verify_ds_with_sha384_digest :: "'n hickory \<Rightarrow> codecs \<Rightarrow> bool option" where
  "test_verify_ds_with_sha384_digest H C = do {
      let public_key = [0x01, 0x02, 0x03, 0x04, 0x05, 0x06];
      let correct_digest = sha384 C (digest_input [''example'', ''com''] public_key);
      result \<leftarrow> verify_with_digest H C ''example.com.'' public_key SHA384 correct_digest;
      Some (is_ok result)
    }"

definition test_verify_ds_with_sha512_digest :: "'n hickory \<Rightarrow> codecs \<Rightarrow> bool option" where
  "test_verify_ds_with_sha512_digest H C = do {
      let public_key = [0x0a, 0x0b, 0x0c, 0x0d, 0x0e, 0x0f];
      let correct_digest = sha512 C (digest_input [''test'', ''example''] public_key);
      result \<leftarrow> verify_with_digest H C ''test.example.'' public_key SHA512 correct_digest;
      Some (is_ok result)
    }"

definition test_verify_ds_with_wrong_digest :: "'n hickory \<Rightarrow> codecs \<Rightarrow> bool option" where
  "test_verify_ds_with_wrong_digest H C = do {
      let public_key = [0x01, 0x02, 0x03, 0x04];
      let wrong_digest = replicate 32 0xff;
      result \<leftarrow> verify_with_digest H C ''example.com.'' public_key SHA256 wrong_digest;
      Some (case result of Inl (Digest_mismatch _ _) \<Rightarrow> True | _ \<Rightarrow> False)
    }"

definition test_verify_ds_with_wrong_key_tag :: "'n hickory \<Rightarrow> codecs \<Rightarrow> bool option" where
  "test_verify_ds_with_wrong_key_tag H C = do {
      let public_key = [0x01, 0x02, 0x03, 0x04];
      owner_name \<leftarrow> name_from_str H ''example.com.'';
      let correct_digest = sha256 C (digest_input [''example'', ''com''] public_key);
      let ds_record = from_rdata H owner_name 300 (RD_DNSSEC (DS 65000 RSASHA256 SHA256 correct_digest));
      let dnskey_record = key_record H owner_name RSASHA256 public_key;
      Some (case verify_ds H C ds_record dnskey_record of
              Inl (Key_tag_mismatch _ _) \<Rightarrow> True | _ \<Rightarrow> False)
    }"

section \<open>The tests succeed\<close>

lemma dnssec_config_tests: "test_dnssec_config_default" "test_dnssec_config_custom"
  by code_simp+

lemma key_tag_value:
  assumes "dnskey_wire H True False False alg public_key = rdata" and "byte_sum 0 rdata < 2 ^ 24"
  shows "\<exists>tag. compute_key_tag H (key_record H name alg public_key) = Inr tag \<and>
    unat tag = (byte_sum 0 rdata + byte_sum 0 rdata div 2 ^ 16 mod 2 ^ 16) mod 2 ^ 16"
  using key_tag_fold [of "key_tag_loop 0 rdata 0"] key_tag_loop_exact [of 0 0 rdata] assms
  by (simp add: compute_key_tag_def key_record_def Let_def)

lemma sample_key_wire: "dnskey_wire sample True False False RSASHA256 key = [1, 0, 3, 8] @ key"
  by (simp add: dnskey_wire_def sample_def sample_flags_def to_be_bytes_def)

lemma key_tag_tests:
  "test_key_tag_computation sample = Some True" "test_key_tag_with_different_keys sample = Some True"
proof -
  have name: "sample_from_str ''example.com.'' = Some [''example'', ''com'']" by code_simp
  show "test_key_tag_computation sample = Some True"
    using key_tag_value [OF sample_key_wire, of "[1, 2, 3, 4, 5]" "[''example'', ''com'']"]
    by (auto simp: test_key_tag_computation_def name word_less_nat_alt)
  show "test_key_tag_with_different_keys sample = Some True"
    using key_tag_value [OF sample_key_wire, of "[1, 2, 3, 4, 5, 6, 7, 8, 9, 10, 11, 12, 13, 14, 15, 16]"
        "[''example'', ''com'']"]
      key_tag_value [OF sample_key_wire, of "[16, 15, 14, 13, 12, 11, 10, 9, 8, 7, 6, 5, 4, 3, 2, 1]"
        "[''example'', ''com'']"]
    by (auto simp: test_key_tag_with_different_keys_def name)
qed

lemma key_tag_total: "\<exists>tag. compute_key_tag H (key_record H name alg public_key) = Inr tag"
  by (simp add: compute_key_tag_def key_record_def Let_def)

lemma key_length_tests:
  assumes "parses_names H [''example.com.'']"
  shows "test_compute_key_tag_odd_length_key H = Some True"
    and "test_compute_key_tag_very_short_key H = Some True"
    and "test_compute_key_tag_very_long_key H = Some True"
proof -
  obtain n where n: "name_from_str H ''example.com.'' = Some n" using assms by (auto simp: parses_names_def)
  have ok: "is_ok (compute_key_tag H (key_record H n RSASHA256 key))" for key
    using key_tag_total [of H n RSASHA256 key] by auto
  show "test_compute_key_tag_odd_length_key H = Some True"
    by (simp add: test_compute_key_tag_odd_length_key_def n ok)
  show "test_compute_key_tag_very_short_key H = Some True"
    by (simp add: test_compute_key_tag_very_short_key_def n ok)
  show "test_compute_key_tag_very_long_key H = Some True"
    by (simp add: test_compute_key_tag_very_long_key_def n ok)
qed

lemma related_tests:
  "test_find_related_dnssec_records sample = Some True"
  "test_find_related_dnssec_with_dnskey sample = Some True"
  "test_find_related_dnssec_with_multiple_rrsigs sample = Some True"
  "test_find_related_dnssec_with_wrong_name sample = Some True"
  by code_simp+

lemma nsec_tests:
  "test_validate_nsec_denial_empty sample = Some True"
  "test_validate_nsec_normal_case sample = Some True"
  "test_validate_nsec_wraparound_case sample = Some True"
  "test_validate_nsec_type_bitmap sample = Some True"
  "test_validate_nsec_type_exists sample = Some True"
  "test_validate_nsec_multiple_records sample = Some True"
  by code_simp+

text \<open>
  The lifetime tests, for clock readings \<open>t \<le> t'\<close> that are less than an hour apart.
\<close>

lemma u32_less: "a < 2 ^ 32 \<Longrightarrow> b < 2 ^ 32 \<Longrightarrow> (of_nat a :: u32) < of_nat b \<longleftrightarrow> a < b"
  by (simp add: word_less_nat_alt unsigned_of_nat take_bit_nat_eq_self)

lemma lifetime_tests:
  assumes "parses_names H [''example.com.'', ''www.example.com.'']"
    and "t \<le> t'" and "t' < t + 3600" and "86400 \<le> t" and "t + 90000 < 2 ^ 32"
  shows "test_check_signature_validity_future H t t' = Some True"
    and "test_check_signature_validity_expired H t t' = Some True"
    and "test_check_signature_validity_valid H t t' = Some True"
    and "test_check_signature_validity_at_boundary H t t' = Some True"
proof -
  obtain n w where n: "name_from_str H ''example.com.'' = Some n" "name_from_str H ''www.example.com.'' = Some w"
    using assms(1) by (auto simp: parses_names_def)
  note test = n Let_def sig_record_def check_signature_validity_def
  have "(of_nat t' :: u32) < of_nat (t + 86400)"
    using u32_less [of t' "t + 86400"] assms by linarith
  then show "test_check_signature_validity_future H t t' = Some True"
    by (simp add: test_check_signature_validity_future_def test del: of_nat_add)
  have "\<not> (of_nat t' :: u32) < of_nat (t - 86400)" and "(of_nat (t - 86400 + 3600) :: u32) < of_nat t'"
    using u32_less [of t' "t - 86400"] u32_less [of "t - 86400 + 3600" t'] assms by linarith+
  then show "test_check_signature_validity_expired H t t' = Some True"
    by (simp add: test_check_signature_validity_expired_def test)
  have "(of_nat t - 3600 :: u32) = of_nat (t - 3600)" using assms(4) by (simp add: of_nat_diff)
  moreover have "\<not> (of_nat t' :: u32) < of_nat (t - 3600)" "\<not> (of_nat t' :: u32) < of_nat t"
    "\<not> (of_nat (t + 3600) :: u32) < of_nat t'"
    using u32_less [of t' "t - 3600"] u32_less [of t' t] u32_less [of "t + 3600" t'] assms by linarith+
  ultimately show "test_check_signature_validity_valid H t t' = Some True"
    "test_check_signature_validity_at_boundary H t t' = Some True"
    by (simp_all add: test_check_signature_validity_valid_def test_check_signature_validity_at_boundary_def test)
qed

text \<open>
  Verification of a DS record with the computed key tag compares digests of the wire format.
\<close>

lemma verify_with_digest_eq:
  assumes "name_from_str H owner = Some n" and "name_to_bytes H (name_to_lowercase H n) = Some wire"
    and "dnskey_flags H True False False = 256" and "algorithm_to_u8 H RSASHA256 = 8"
    and "ds_digest C dt (wire @ to_be_bytes 256 @ [3] @ [8] @ public_key) = Inr d"
  shows "verify_with_digest H C owner public_key dt digest =
    Some (if d \<noteq> digest then Inl (Digest_mismatch d digest) else Inr ())"
proof -
  obtain tag where tag: "compute_key_tag H (key_record H n RSASHA256 public_key) = Inr tag"
    using key_tag_total [of H n RSASHA256 public_key] by auto
  have "dnskey_wire H True False False RSASHA256 public_key = to_be_bytes 256 @ [3] @ [8] @ public_key"
    using assms(3,4) by (simp add: dnskey_wire_def)
  with tag assms(1,2,5) show ?thesis
    by (simp add: verify_with_digest_def verify_ds_def key_record_def ok_or_def)
qed

lemma sample_wire:
  "sample_from_str ''example.com.'' = Some [''example'', ''com'']"
  "sample_from_str ''test.example.'' = Some [''test'', ''example'']"
  "name_to_bytes sample (name_to_lowercase sample [''example'', ''com'']) =
    Some (concat (map (\<lambda>l. of_nat (length l) # map of_char l) [''example'', ''com'']) @ [0])"
  "name_to_bytes sample (name_to_lowercase sample [''test'', ''example'']) =
    Some (concat (map (\<lambda>l. of_nat (length l) # map of_char l) [''test'', ''example'']) @ [0])"
  "dnskey_flags sample True False False = 256" "algorithm_to_u8 sample RSASHA256 = 8"
  by code_simp+

lemma digest_tests:
  "test_ds_verification_with_correct_wire_format sample C = Some True"
  "test_verify_ds_with_sha384_digest sample C = Some True"
  "test_verify_ds_with_sha512_digest sample C = Some True"
proof -
  note eq = verify_with_digest_eq [where H = sample, unfolded sample_simps]
  note com = eq [OF sample_wire(1,3,5,6)] and test = eq [OF sample_wire(2,4,5,6)]
  show "test_ds_verification_with_correct_wire_format sample C = Some True"
    unfolding test_ds_verification_with_correct_wire_format_def Let_def
    by (subst com) (auto simp: ds_digest_def digest_input_def)
  show "test_verify_ds_with_sha384_digest sample C = Some True"
    unfolding test_verify_ds_with_sha384_digest_def Let_def
    by (subst com) (auto simp: ds_digest_def digest_input_def)
  show "test_verify_ds_with_sha512_digest sample C = Some True"
    unfolding test_verify_ds_with_sha512_digest_def Let_def
    by (subst test) (auto simp: ds_digest_def digest_input_def)
qed

lemma mismatch_tests:
  "parses_names H [''example.com.''] \<Longrightarrow> test_verify_ds_algorithm_mismatch H C = Some True"
  "sha256 C (digest_input [''example'', ''com''] [1, 2, 3, 4]) \<noteq> replicate 32 0xff \<Longrightarrow>
    test_verify_ds_with_wrong_digest sample C = Some True"
  "test_verify_ds_with_wrong_key_tag sample C = Some True"
proof -
  show "parses_names H [''example.com.''] \<Longrightarrow> test_verify_ds_algorithm_mismatch H C = Some True"
    by (auto simp: test_verify_ds_algorithm_mismatch_def parses_names_def verify_ds_def key_record_def)
  note com = verify_with_digest_eq [where H = sample, unfolded sample_simps, OF sample_wire(1,3,5,6)]
  show "sha256 C (digest_input [''example'', ''com''] [1, 2, 3, 4]) \<noteq> replicate 32 0xff \<Longrightarrow>
      test_verify_ds_with_wrong_digest sample C = Some True"
    unfolding test_verify_ds_with_wrong_digest_def Let_def
    by (subst com) (auto simp: ds_digest_def digest_input_def)
  obtain tag where "compute_key_tag sample (key_record sample [''example'', ''com''] RSASHA256 [1, 2, 3, 4]) = Inr tag"
    "unat tag = 2062"
    using key_tag_value [OF sample_key_wire, of "[1, 2, 3, 4]" "[''example'', ''com'']"] by auto
  moreover from this have "tag \<noteq> 65000" by auto
  ultimately show "test_verify_ds_with_wrong_key_tag sample C = Some True"
    by (simp add: Let_def test_verify_ds_with_wrong_key_tag_def sample_wire(1) verify_ds_def key_record_def)
qed

end
