(* ===== verification/Server_Tests.thy ===== *)
theory Server_Tests
  imports Tcp_Session Protocol_Tests
begin

text \<open>
  The tests of \<open>src/server.rs\<close> that run code of the server: a query through the processor, truncation
  with a large authority section, the receive buffer, and a rate-limited connection with its client.
  They build messages with \<open>Name::from_utf8\<close>, which is an argument \<open>from_utf8\<close> here, and measure
  encoded messages; they are proved for every decoder and encoder with the sizes the tests rely on.
\<close>

section \<open>Tests\<close>

definition create_test_processor :: "'n hickory \<Rightarrow> 'n zone_store option" where
  "create_test_processor H = do {
      origin \<leftarrow> name_from_str H ''test.local.'';
      mname \<leftarrow> name_from_str H ''ns1.test.local.'';
      rname \<leftarrow> name_from_str H ''admin.test.local.'';
      let soa = \<lparr>mname = mname, rname = rname, serial = 1, refresh = 7200, retry = 3600, expire = 1209600,
        minimum = 86400\<rparr>;
      www \<leftarrow> name_from_str H ''www.test.local.'';
      let zone = add_record H (zone_new origin soa) (from_rdata H www 3600 (RD_A (127, 0, 0, 1)));
      Some (add_zone H zone_store_new zone)
    }"

definition test_query_processing :: "'n hickory \<Rightarrow> bool option" where
  "test_query_processing H = do {
      processor \<leftarrow> create_test_processor H;
      query \<leftarrow> ask H (standard_message H) 1234 ''www.test.local.'' RT_A;
      response \<leftarrow> unwrap (process_query H processor query);
      Some (msg_id response = 1234 \<and> msg_authoritative response \<and> length (msg_answers response) = 1)
    }"

text \<open>A record for each number, with a name made from it.\<close>

fun numbered_records ::
  "'n hickory \<Rightarrow> (string \<Rightarrow> 'n option) \<Rightarrow> (nat \<Rightarrow> string) \<Rightarrow> ('n \<Rightarrow> nat \<Rightarrow> 'n rr) \<Rightarrow> nat list \<Rightarrow> 'n rr list option" where
  "numbered_records H from_utf8 label mk [] = Some []"
| "numbered_records H from_utf8 label mk (i # ns) = do {
      name \<leftarrow> from_utf8 (label i);
      rest \<leftarrow> numbered_records H from_utf8 label mk ns;
      Some (mk name i # rest)
    }"

definition response_message :: "'n hickory \<Rightarrow> u16 \<Rightarrow> 'n message" where
  "response_message H i = (message_new H)\<lparr>msg_id := i, msg_type := MT_Response, msg_authoritative := True\<rparr>"

text \<open>One answer, fifty name servers.\<close>

definition large_authority :: "'n hickory \<Rightarrow> (string \<Rightarrow> 'n option) \<Rightarrow> 'n message option" where
  "large_authority H from_utf8 = do {
      name \<leftarrow> from_utf8 ''example.com.'';
      servers \<leftarrow> numbered_records H from_utf8 (\<lambda>i. ''ns'' @ show_nat i @ ''.example.com.'')
        (\<lambda>ns i. from_rdata H name 300 (RD_NS ns)) [0..<50];
      Some (add_name_servers servers
        (add_answers [from_rdata H name 300 (RD_A (192, 0, 2, 1))] (response_message H 1234)))
    }"

text \<open>The test repeats the three loops of the handler, with an assertion at each way out.\<close>

definition test_udp_truncation_with_large_authority_section ::
  "'n hickory \<Rightarrow> (string \<Rightarrow> 'n option) \<Rightarrow> bool option" where
  "test_udp_truncation_with_large_authority_section H from_utf8 = do {
      response \<leftarrow> large_authority H from_utf8;
      response_buf \<leftarrow> message_to_bytes H response;
      let limit = MAX_DNS_PACKET_SIZE;
      if \<not> limit < length response_buf then Some False
      else
        (case truncate_loop H limit Answers (response\<lparr>msg_truncated := True\<rparr>) of
           Encoding_failed \<Rightarrow> None
         | Fits buf truncated \<Rightarrow> Some (length buf \<le> limit \<and> msg_truncated truncated)
         | Too_large truncated \<Rightarrow>
             (case truncate_loop H limit Name_servers truncated of
                Encoding_failed \<Rightarrow> None
              | Fits buf truncated \<Rightarrow> Some (length buf \<le> limit \<and> msg_truncated truncated \<and>
                  msg_answers truncated = [] \<and> msg_name_servers truncated = [])
              | Too_large truncated \<Rightarrow>
                  (case truncate_loop H limit Additionals truncated of
                     Encoding_failed \<Rightarrow> None
                   | Fits buf truncated \<Rightarrow> Some (length buf \<le> limit \<and> msg_truncated truncated)
                   | Too_large truncated \<Rightarrow> do {
                       final_buf \<leftarrow> message_to_bytes H truncated;
                       Some (length final_buf \<le> limit)
                     })))
    }"

text \<open>Hosts with an address each, as answers.\<close>

definition host_records :: "'n hickory \<Rightarrow> (string \<Rightarrow> 'n option) \<Rightarrow> nat \<Rightarrow> 'n rr list option" where
  "host_records H from_utf8 n = numbered_records H from_utf8 (\<lambda>i. ''host'' @ show_nat i @ ''.example.com.'')
     (\<lambda>name i. from_rdata H name 300 (RD_A (192, 0, 2, of_nat (i mod 255)))) [0..<n]"

definition test_udp_edns0_payload_affects_truncation_threshold ::
  "'n hickory \<Rightarrow> (string \<Rightarrow> 'n option) \<Rightarrow> bool option" where
  "test_udp_edns0_payload_affects_truncation_threshold H from_utf8 = do {
      records \<leftarrow> host_records H from_utf8 25;
      let response = add_answers records (response_message H 7000);
      response_buf \<leftarrow> message_to_bytes H response;
      let response_with_edns = response\<lparr>msg_edns := Some ((edns_new H)\<lparr>max_payload := 1024\<rparr>)\<rparr>;
      Some (max_udp_size response < length response_buf \<and> length response_buf < 1024 \<and>
        max_udp_size response_with_edns = 1024 \<and> length response_buf \<le> max_udp_size response_with_edns)
    }"

definition test_truncation_preserves_question_section :: "'n hickory \<Rightarrow> (string \<Rightarrow> 'n option) \<Rightarrow> bool option" where
  "test_truncation_preserves_question_section H from_utf8 = do {
      name \<leftarrow> from_utf8 ''example.com.'';
      records \<leftarrow> host_records H from_utf8 100;
      let response = add_answers records (add_query \<lparr>q_name = name, q_type = RT_A\<rparr> (response_message H 8000));
      let truncated = take_section Additionals (take_section Name_servers (take_section Answers
        (response\<lparr>msg_truncated := True\<rparr>)));
      (case msg_queries truncated of
         [q] \<Rightarrow> Some (name_eq H (q_name q) name \<and> q_type q = RT_A \<and> msg_truncated truncated)
       | _ \<Rightarrow> Some False)
    }"

text \<open>One answer, sixty hosts in the additional section.\<close>

definition large_additional :: "'n hickory \<Rightarrow> (string \<Rightarrow> 'n option) \<Rightarrow> 'n message option" where
  "large_additional H from_utf8 = do {
      name \<leftarrow> from_utf8 ''example.com.'';
      hosts \<leftarrow> host_records H from_utf8 60;
      let response = add_answers [from_rdata H name 300 (RD_A (192, 0, 2, 1))] (response_message H 5000);
      Some (response\<lparr>msg_additionals := msg_additionals response @ hosts\<rparr>)
    }"

definition test_udp_truncation_removes_additional_records ::
  "'n hickory \<Rightarrow> (string \<Rightarrow> 'n option) \<Rightarrow> bool option" where
  "test_udp_truncation_removes_additional_records H from_utf8 = do {
      response \<leftarrow> large_additional H from_utf8;
      response_buf \<leftarrow> message_to_bytes H response;
      let truncated = take_section Additionals (response\<lparr>msg_truncated := True\<rparr>);
      final_buf \<leftarrow> message_to_bytes H truncated;
      Some (MAX_DNS_PACKET_SIZE < length response_buf \<and> length final_buf \<le> MAX_DNS_PACKET_SIZE \<and>
        msg_truncated truncated \<and> msg_answers truncated \<noteq> [] \<and> msg_additionals truncated = [])
    }"

definition test_udp_truncation_minimal_response :: "'n hickory \<Rightarrow> (string \<Rightarrow> 'n option) \<Rightarrow> bool option" where
  "test_udp_truncation_minimal_response H from_utf8 = do {
      name \<leftarrow> from_utf8 ''example.com.'';
      let response = add_query \<lparr>q_name = name, q_type = RT_A\<rparr> ((response_message H 6000)\<lparr>msg_truncated := True\<rparr>);
      minimal_buf \<leftarrow> message_to_bytes H response;
      Some (length minimal_buf \<le> MAX_DNS_PACKET_SIZE \<and> msg_truncated response \<and> msg_answers response = [] \<and>
        msg_name_servers response = [] \<and> msg_additionals response = [])
    }"

text \<open>Forty questions with an OPT record, received into the buffer of \<open>run_udp\<close>.\<close>

fun long_questions :: "(string \<Rightarrow> 'n option) \<Rightarrow> nat list \<Rightarrow> 'n message \<Rightarrow> 'n message option" where
  "long_questions from_utf8 [] query = Some query"
| "long_questions from_utf8 (i # ns) query = do {
      name \<leftarrow> from_utf8 (''very-long-label-'' @ show_nat i @ ''.example.com.'');
      long_questions from_utf8 ns (add_query \<lparr>q_name = name, q_type = RT_TXT\<rparr> query)
    }"

definition large_query :: "'n hickory \<Rightarrow> (string \<Rightarrow> 'n option) \<Rightarrow> 'n message option" where
  "large_query H from_utf8 = long_questions from_utf8 [0..<40]
     ((message_new H)\<lparr>msg_id := 0xBEEF, msg_edns := Some ((edns_new H)\<lparr>max_payload := 4096\<rparr>)\<rparr>)"

definition test_udp_buffer_size_handles_large_edns_queries ::
  "'n hickory \<Rightarrow> (string \<Rightarrow> 'n option) \<Rightarrow> bool option" where
  "test_udp_buffer_size_handles_large_edns_queries H from_utf8 = do {
      query \<leftarrow> large_query H from_utf8;
      full \<leftarrow> message_to_bytes H query;
      let received = take (min (length full) MAX_UDP_RECV_SIZE) full;
      Some (MAX_DNS_PACKET_SIZE < length full \<and> length full < MAX_UDP_RECV_SIZE \<and>
        message_from_bytes H full \<noteq> None \<and> message_from_bytes H received \<noteq> None)
    }"

text \<open>
  A connection to a server that allows one query per second. The stream holds what the client
  writes, the second query after it has read the first response; the clock and the address are
  those of the run.
\<close>

fun stream_of :: "'n tcp_next \<Rightarrow> tcp_stream" where
  "stream_of (Next s st) = st"
| "stream_of (Return r s st) = st"
| "stream_of (Blocks s st) = st"

definition limited_server :: "'n hickory \<Rightarrow> instant \<Rightarrow> 'n dns_server option" where
  "limited_server H now = do {
      origin \<leftarrow> name_from_str H ''example.com.'';
      soa \<leftarrow> example_soa H 1;
      www \<leftarrow> name_from_str H ''www.example.com.'';
      let zone = add_record H (zone_new origin soa) (from_rdata H www 3600 (RD_A (192, 0, 2, 1)));
      Some (dns_server_new (add_zone H zone_store_new zone) ''127.0.0.1:0'' (metrics_new now)
        (Some (rate_limiter_new 1 now)) None)
    }"

definition query_named :: "'n hickory \<Rightarrow> (string \<Rightarrow> 'n option) \<Rightarrow> u16 \<Rightarrow> string \<Rightarrow> 'n message option" where
  "query_named H from_utf8 i name = do {
      n \<leftarrow> from_utf8 name;
      Some (add_query \<lparr>q_name = n, q_type = RT_A\<rparr> ((message_new H)\<lparr>msg_id := i\<rparr>))
    }"

definition test_tcp_rate_limit_response_echoes_query_id ::
  "'n hickory \<Rightarrow> (string \<Rightarrow> 'n option) \<Rightarrow> 'n tcp_env \<Rightarrow> ip_addr \<Rightarrow> instant \<Rightarrow> bool option" where
  "test_tcp_rate_limit_response_echoes_query_id H from_utf8 env addr now = do {
      server \<leftarrow> limited_server H now;
      query1 \<leftarrow> query_named H from_utf8 1000 ''www.example.com.'';
      query1_buf \<leftarrow> message_to_bytes H query1;
      query2 \<leftarrow> query_named H from_utf8 2000 ''mail.example.com.'';
      query2_buf \<leftarrow> message_to_bytes H query2;
      let stream = \<lparr>st_in = frames [query1_buf, query2_buf], st_end = Silent, st_out = [], st_writes = 4\<rparr>;
      (case deframe (st_out (stream_of (handle_tcp_connection H env addr server stream))) of
         response_buf # response_buf2 # _ \<Rightarrow> do {
           response \<leftarrow> message_from_bytes H response_buf2;
           Some (msg_response_code response = Refused \<and> msg_id response = 2000)
         }
       | _ \<Rightarrow> None)
    }"

section \<open>They succeed\<close>

lemma query_processing_test: "test_query_processing sample = Some True"
  by code_simp

text \<open>A message without records, which the test expects to fit, is what the loops can end with.\<close>

definition bare :: "'n message \<Rightarrow> bool" where
  "bare m \<longleftrightarrow> msg_answers m = [] \<and> msg_name_servers m = [] \<and> msg_additionals m = []"

lemma truncate_loop_result:
  assumes "message_to_bytes H (take_section s m) = Some buf"
  shows "truncate_loop H mx s m =
    (if section_of s m \<noteq> [] \<and> length buf \<le> mx then Fits buf (take_section s m) else Too_large (take_section s m))"
  using assms by (simp add: truncate_loop_once take_section_id)

lemma truncation_test:
  assumes "large_authority H from_utf8 = Some response" and "message_to_bytes H response = Some buf"
    and "MAX_DNS_PACKET_SIZE < length buf" and "\<And>m. message_to_bytes H m \<noteq> None"
    and "\<And>m b. bare m \<Longrightarrow> msg_queries m = msg_queries response \<Longrightarrow> msg_edns m = msg_edns response \<Longrightarrow>
      message_to_bytes H m = Some b \<Longrightarrow> length b \<le> MAX_DNS_PACKET_SIZE"
  shows "test_udp_truncation_with_large_authority_section H from_utf8 = Some True"
proof -
  define m1 where "m1 = take_section Answers (response\<lparr>msg_truncated := True\<rparr>)"
  define m2 where "m2 = take_section Name_servers m1"
  define m3 where "m3 = take_section Additionals m2"
  obtain b1 b2 b3 where b: "message_to_bytes H m1 = Some b1" "message_to_bytes H m2 = Some b2" "message_to_bytes H m3 = Some b3"
    using assms(4) by blast
  have "bare m3" "msg_queries m3 = msg_queries response" "msg_edns m3 = msg_edns response"
    by (simp_all add: bare_def m1_def m2_def m3_def)
  then have "length b3 \<le> MAX_DNS_PACKET_SIZE" using assms(5) b(3) by blast
  moreover note truncate_loop_result [OF b(1) [unfolded m1_def], folded m1_def]
    truncate_loop_result [OF b(2) [unfolded m2_def], folded m2_def]
    truncate_loop_result [OF b(3) [unfolded m3_def], folded m3_def]
  moreover have "msg_truncated m1" "msg_truncated m2" "msg_truncated m3" "msg_answers m2 = []" "msg_name_servers m2 = []"
    by (simp_all add: m1_def m2_def m3_def)
  ultimately show ?thesis
    using assms(1-3) b by (simp add: test_udp_truncation_with_large_authority_section_def Let_def)
qed

lemma threshold_test:
  assumes "fresh_message (message_new H)" and "host_records H from_utf8 25 = Some records"
    and "message_to_bytes H (add_answers records (response_message H 7000)) = Some buf"
    and "512 < length buf" and "length buf < 1024"
  shows "test_udp_edns0_payload_affects_truncation_threshold H from_utf8 = Some True"
  using assms
  by (simp add: test_udp_edns0_payload_affects_truncation_threshold_def Let_def max_udp_size_def add_answers_def
      response_message_def fresh_message_def MAX_DNS_PACKET_SIZE_def)

lemma question_test:
  assumes "fresh_message (message_new H)" and "from_utf8 ''example.com.'' = Some name"
    and "host_records H from_utf8 100 = Some records"
  shows "test_truncation_preserves_question_section H from_utf8 = Some True"
  using assms
  by (simp add: test_truncation_preserves_question_section_def Let_def add_answers_def add_query_def
      response_message_def fresh_message_def name_eq_def)

lemma additional_test:
  assumes "large_additional H from_utf8 = Some response" and "message_to_bytes H response = Some buf"
    and "MAX_DNS_PACKET_SIZE < length buf"
    and "message_to_bytes H (take_section Additionals (response\<lparr>msg_truncated := True\<rparr>)) = Some buf'"
    and "length buf' \<le> MAX_DNS_PACKET_SIZE"
  shows "test_udp_truncation_removes_additional_records H from_utf8 = Some True"
proof -
  have "msg_answers response \<noteq> []"
    using assms(1) by (auto simp: large_additional_def add_answers_def Let_def bind_eq_Some_conv)
  with assms show ?thesis by (simp add: test_udp_truncation_removes_additional_records_def)
qed

lemma minimal_test:
  assumes "fresh_message (message_new H)" and "from_utf8 ''example.com.'' = Some name"
    and "\<And>m. bare m \<Longrightarrow> length (msg_queries m) = 1 \<Longrightarrow>
      \<exists>b. message_to_bytes H m = Some b \<and> length b \<le> MAX_DNS_PACKET_SIZE"
  shows "test_udp_truncation_minimal_response H from_utf8 = Some True"
proof -
  let ?m = "add_query \<lparr>q_name = name, q_type = RT_A\<rparr> ((response_message H 6000)\<lparr>msg_truncated := True\<rparr>)"
  have "bare ?m" "length (msg_queries ?m) = 1"
    using assms(1) by (simp_all add: bare_def add_query_def response_message_def fresh_message_def)
  with assms(3) obtain b where "message_to_bytes H ?m = Some b" "length b \<le> MAX_DNS_PACKET_SIZE" by blast
  with \<open>bare ?m\<close> assms(2) show ?thesis
    by (simp add: test_udp_truncation_minimal_response_def Let_def bare_def add_query_def)
qed

text \<open>A packet the server can receive reaches the handler whole.\<close>

lemma run_udp_whole: "length packet \<le> MAX_UDP_RECV_SIZE \<Longrightarrow> run_udp [Received packet addr] = ([(packet, addr)], False)"
  by simp

lemma buffer_size_test:
  assumes "large_query H from_utf8 = Some query" and "message_to_bytes H query = Some full"
    and "MAX_DNS_PACKET_SIZE < length full" and "length full < MAX_UDP_RECV_SIZE"
    and "message_from_bytes H full = Some query"
  shows "test_udp_buffer_size_handles_large_edns_queries H from_utf8 = Some True"
  using assms by (simp add: test_udp_buffer_size_handles_large_edns_queries_def)

text \<open>A message that is decoded as it was encoded, with an encoding that fits its length prefix.\<close>

definition codes :: "'n hickory \<Rightarrow> 'n message \<Rightarrow> bool" where
  "codes H m \<longleftrightarrow> (\<exists>b. message_to_bytes H m = Some b \<and> message_from_bytes H b = Some m \<and>
     0 < length b \<and> length b < 2 ^ 16)"

lemma query_named_plain:
  assumes "fresh_message (message_new H)" and "query_named H from_utf8 i name = Some query"
    and "message_from_bytes H b = Some query" and "0 < length b" and "length b < 2 ^ 16"
  shows "plain_query H b" and "msg_id query = i"
  using assms
  by (auto simp: query_named_def plain_query_def is_axfr_def first_query_def add_query_def fresh_message_def
      split: option.splits bind_splits)

lemma one_per_second:
  fixes s :: "'n dns_server"
  assumes "clock_run [(tk0, addr), (tk1, addr)]" and "t_now tk1 < t_now tk0 + 1000000000"
    and "srv_rate_limiter s = Some (rate_limiter_new 1 now)"
  obtains s1 where "limiter_allows tk0 addr s = (True, s1)"
    and "\<And>s' :: 'n dns_server. srv_rate_limiter s' = srv_rate_limiter s1 \<Longrightarrow> \<exists>s2. limiter_allows tk1 addr s' = (False, s2)"
proof -
  obtain ok0 rl0 where c0: "check_rate_limit tk0 addr (rate_limiter_new 1 now) = (ok0, rl0)" by fastforce
  obtain ok1 rl1 where c1: "check_rate_limit tk1 addr rl0 = (ok1, rl1)" by fastforce
  have "[ok0, ok1] = [True, False]"
    using limiter_run(1) [OF assms(1), of 1 now] assms(2) c0 c1
    by (simp add: stamps_def Let_def from_secs_def)
  then show ?thesis
    using that [of "s\<lparr>srv_rate_limiter := Some rl0\<rparr>"] c0 c1 assms(3)
    by (auto simp: limiter_allows_def)
qed

lemma rate_limit_test:
  fixes H :: "'n hickory"
  assumes "fresh_message (message_new H)"
    and codes: "codes H query1" "codes H query2" "codes H (rate_limit_message H query2)"
      "\<And>r. process_query H (srv_zones server) query1 = Inr r \<Longrightarrow> \<exists>b. message_to_bytes H r = Some b \<and> length b < 2 ^ 16"
    and "limited_server H now = Some server"
    and "query_named H from_utf8 1000 ''www.example.com.'' = Some query1"
    and "query_named H from_utf8 2000 ''mail.example.com.'' = Some query2"
    and "\<And>i s. te_others env i s = s"
    and "clock_run [(te_ticks env 0, addr), (te_ticks env 1, addr)]"
    and "t_now (te_ticks env 1) < t_now (te_ticks env 0) + 1000000000"
  shows "test_tcp_rate_limit_response_echoes_query_id H from_utf8 env addr now = Some True"
proof -
  obtain b1 where b1: "message_to_bytes H query1 = Some b1" "message_from_bytes H b1 = Some query1"
    "0 < length b1" "length b1 < 2 ^ 16" using codes(1) unfolding codes_def by blast
  obtain b2 where b2: "message_to_bytes H query2 = Some b2" "message_from_bytes H b2 = Some query2"
    "0 < length b2" "length b2 < 2 ^ 16" using codes(2) unfolding codes_def by blast
  obtain out2 where out2: "message_to_bytes H (rate_limit_message H query2) = Some out2"
    "message_from_bytes H out2 = Some (rate_limit_message H query2)" "length out2 < 2 ^ 16"
    using codes(3) unfolding codes_def by blast
  note q1 = query_named_plain [OF assms(1,7) b1(2-4)] and q2 = query_named_plain [OF assms(1,8) b2(2-4)]
  let ?s = "with_metrics record_tcp_connection server"
  let ?st = "\<lparr>st_in = frames [b1, b2], st_end = Silent, st_out = [], st_writes = 4\<rparr>"
  obtain r where r: "process_query H (srv_zones ?s) query1 = Inr r" using process_query_total by blast
  obtain out1 where out1: "message_to_bytes H r = Some out1" "length out1 < 2 ^ 16"
    using codes(4) [of r] r by auto
  have server: "srv_rate_limiter ?s = Some (rate_limiter_new 1 now)" "srv_tcp_config server = None"
    using assms(6) by (auto simp: limited_server_def dns_server_new_def split: bind_splits)
  obtain s1 where lim: "limiter_allows (te_ticks env 0) addr ?s = (True, s1)"
    "\<And>s' :: 'n dns_server. srv_rate_limiter s' = srv_rate_limiter s1 \<Longrightarrow> \<exists>s2. limiter_allows (te_ticks env 1) addr s' = (False, s2)"
    using one_per_second [OF assms(10,11) server(1)] by blast
  have "reply_bytes H (srv_zones ?s) b1 = Some out1" using b1(2) r out1(1) by (simp add: reply_bytes_def)
  from tcp_round_plain [OF _ q1(1) lim(1) this, of ?st "frames [b2]" "te_elapsed env 0" 0]
  obtain s' where round1: "tcp_round H (te_ticks env 0) (te_elapsed env 0) addr 0 ?s ?st =
      Next s' (exchanged (frames [b2]) out1 ?st)" and rl: "srv_rate_limiter s' = srv_rate_limiter s1" by auto
  obtain s2 where "limiter_allows (te_ticks env 1) addr s' = (False, s2)" using lim(2) [OF rl] by blast
  from tcp_round_limited [OF _ b2(3,4,2) this out2(1), of "exchanged (frames [b2]) out1 ?st" "[]" "te_elapsed env 1" 1]
  obtain s3 where round2: "tcp_round H (te_ticks env 1) (te_elapsed env 1) addr 1 s' (exchanged (frames [b2]) out1 ?st) =
      Return (Inr ()) s3 (exchanged [] out2 (exchanged (frames [b2]) out1 ?st))" by auto
  have "handle_tcp_connection H env addr server ?st = Return (Inr ()) s3 (exchanged [] out2 (exchanged (frames [b2]) out1 ?st))"
    unfolding handle_tcp_connection_def server(2)
    using tcp_loop_round(1) [of 0 100 H env addr ?s ?st] tcp_loop_round(2) [of 1 100 H env addr s']
      round1 round2 assms(9) by (simp add: tcp_max_queries_def)
  moreover have "deframe (frames [out1, out2]) = [out1, out2]" using out1(2) out2(3) by (intro deframe_frames) simp
  ultimately show ?thesis
    using assms(6-8) b1(1) b2(1) out2(2) q2(2)
    by (simp add: test_tcp_rate_limit_response_echoes_query_id_def rate_limit_message_def)
qed

text \<open>The same on a decoder that knows the messages of the test.\<close>

definition known_hickory :: "string list hickory" where
  "known_hickory = sample\<lparr>message_from_bytes := (\<lambda>b.
     List.find (\<lambda>m. sample_to_bytes m = Some b)
       (let q1 = add_query \<lparr>q_name = ''www'' # example_com, q_type = RT_A\<rparr> (sample_message\<lparr>msg_id := 1000\<rparr>);
            q2 = add_query \<lparr>q_name = ''mail'' # example_com, q_type = RT_A\<rparr> (sample_message\<lparr>msg_id := 2000\<rparr>)
        in [q1, q2, rate_limit_message sample q2]))\<rparr>"

lemma rate_limit_test_sample:
  "test_tcp_rate_limit_response_echoes_query_id known_hickory (name_from_str sample)
     \<lparr>te_ticks = (\<lambda>i. tick (i * 1000)), te_elapsed = (\<lambda>_. 0), te_others = (\<lambda>_ s. s)\<rparr> (V4 (127, 0, 0, 1)) 0 = Some True"
proof -
  define q1 where "q1 = add_query \<lparr>q_name = ''www'' # example_com, q_type = RT_A\<rparr> (sample_message\<lparr>msg_id := 1000\<rparr>)"
  define q2 where "q2 = add_query \<lparr>q_name = ''mail'' # example_com, q_type = RT_A\<rparr> (sample_message\<lparr>msg_id := 2000\<rparr>)"
  have q: "query_named known_hickory (name_from_str sample) 1000 ''www.example.com.'' = Some q1"
    "query_named known_hickory (name_from_str sample) 2000 ''mail.example.com.'' = Some q2"
    unfolding q1_def q2_def by code_simp+
  have enc: "message_to_bytes known_hickory q1 = Some (3 # 232 # replicate 26 0)"
    "message_to_bytes known_hickory q2 = Some (7 # 208 # replicate 26 0)"
    "message_to_bytes known_hickory (rate_limit_message known_hickory q2) = Some (7 # 208 # replicate 10 0)"
    "message_from_bytes known_hickory (3 # 232 # replicate 26 0) = Some q1"
    "message_from_bytes known_hickory (7 # 208 # replicate 26 0) = Some q2"
    "message_from_bytes known_hickory (7 # 208 # replicate 10 0) = Some (rate_limit_message known_hickory q2)"
    unfolding q1_def q2_def by code_simp+
  then have codes: "codes known_hickory q1" "codes known_hickory q2" "codes known_hickory (rate_limit_message known_hickory q2)"
    unfolding codes_def by auto
  have "case limited_server known_hickory 0 of None \<Rightarrow> False
    | Some server \<Rightarrow> (case process_query known_hickory (srv_zones server) q1 of Inl _ \<Rightarrow> False
        | Inr r \<Rightarrow> (case message_to_bytes known_hickory r of None \<Rightarrow> False | Some b \<Rightarrow> length b < 2 ^ 16))"
    unfolding q1_def by code_simp
  then obtain server where server: "limited_server known_hickory 0 = Some server"
    "\<And>r. process_query known_hickory (srv_zones server) q1 = Inr r \<Longrightarrow>
       \<exists>b. message_to_bytes known_hickory r = Some b \<and> length b < 2 ^ 16"
    by (auto split: option.splits sum.splits)
  have "fresh_message (message_new known_hickory)" using sample_fresh by (simp add: known_hickory_def)
  from rate_limit_test [OF this codes server(2,1) q] show ?thesis
    by (simp add: clock_run_def ticks_ok_def tick_def)
qed

lemma truncation_test_sample:
  "test_udp_truncation_with_large_authority_section sample (name_from_str sample) = Some True"
proof -
  have "case large_authority sample (name_from_str sample) of None \<Rightarrow> False
    | Some m \<Rightarrow> msg_queries m = [] \<and> length (msg_answers m) = 1 \<and> length (msg_name_servers m) = 50 \<and> msg_additionals m = []"
    by code_simp
  then obtain m where "large_authority sample (name_from_str sample) = Some m" "msg_queries m = []"
    "length (msg_answers m) = 1" "length (msg_name_servers m) = 50" "msg_additionals m = []"
    by (auto split: option.splits)
  then show ?thesis
    by (intro truncation_test [where response = m and buf = "the (sample_to_bytes m)"])
       (auto simp: sample_to_bytes_def MAX_DNS_PACKET_SIZE_def bare_def to_be_bytes_def)
qed

end
