(* ===== verification/Config_Tests.thy ===== *)
theory Config_Tests
  imports Config
begin

text \<open>
  The unit tests of \<open>src/config.rs\<close> as boolean functions of the YAML parser and of the path of the
  temporary file a test creates, and the proof that each of them succeeds for a parser that reads
  the fields written in the test's text and no others. The defaults, \<open>from_file\<close> and \<open>validate\<close> are
  those of the model. The two tests that check only that the parser rejects a text are left out.
\<close>

section \<open>Reading a text\<close>

type_synonym yaml_parser = "string \<Rightarrow> raw_config option"

text \<open>A raw string literal of the tests: it starts on the line after the opening quote.\<close>

definition raw_text :: "string list \<Rightarrow> string" where
  "raw_text ls = newline # concat (map (\<lambda>l. l @ [newline]) ls)"

definition in_quotes :: "string \<Rightarrow> string" where
  "in_quotes s = dquote # s @ [dquote]"

text \<open>\<open>serde_yaml::from_str\<close> into a \<open>Config\<close>, defaults included.\<close>

definition from_str :: "yaml_parser \<Rightarrow> string \<Rightarrow> config option" where
  "from_str yaml s = map_option fill_config (yaml s)"

text \<open>The error text of a failed call.\<close>

fun config_message :: "config_error \<Rightarrow> string" where
  "config_message (Cfg_msg m) = m"
| "config_message (Cfg_missing_file f) = ''Zone file does not exist: '' @ f"

definition contains :: "string \<Rightarrow> string \<Rightarrow> bool" where
  "contains s t \<longleftrightarrow> list_ex (\<lambda>i. take (length t) (drop i s) = t) [0..<Suc (length s)]"

definition fails_with :: "string \<Rightarrow> config_error + 'a \<Rightarrow> bool" where
  "fails_with t r \<longleftrightarrow> (case r of Inl e \<Rightarrow> contains (config_message e) t | Inr _ \<Rightarrow> False)"

definition is_ok :: "config_error + 'a \<Rightarrow> bool" where
  "is_ok r \<longleftrightarrow> (case r of Inr _ \<Rightarrow> True | Inl _ \<Rightarrow> False)"

text \<open>The fields the texts set, to be changed field by field.\<close>

definition no_fields :: raw_server where
  "no_fields =
     \<lparr>raw_listen = None, raw_workers = None, raw_log_level = None, raw_rate_limit = None,
      raw_api_listen = None, raw_dnssec_section = None, raw_tcp_section = None\<rparr>"

definition parsed :: "raw_server \<Rightarrow> (string \<times> string) list \<Rightarrow> raw_config option" where
  "parsed srv zs =
     Some \<lparr>raw_server_section = srv, raw_zones = map (\<lambda>(n, f). \<lparr>zc_name = n, zc_file = f\<rparr>) zs\<rparr>"

definition local_listen :: raw_server where
  "local_listen = no_fields\<lparr>raw_listen := Some ''127.0.0.1:5353''\<rparr>"

section \<open>The texts\<close>

definition listen_lines :: "string list" where
  "listen_lines = [''server:'', ''  listen: '' @ in_quotes ''127.0.0.1:5353'']"

definition zone_lines :: "string \<Rightarrow> string \<Rightarrow> string list" where
  "zone_lines name path = [''  - name: '' @ name, ''    file: '' @ path]"

definition plain_text :: "string \<Rightarrow> string" where
  "plain_text path = raw_text (listen_lines @ [''zones:''] @ zone_lines ''example.com'' path)"

definition zero_text :: "string" where
  "zero_text = raw_text (listen_lines @ [''zones: []''])"

definition empty_name_text :: "string \<Rightarrow> string" where
  "empty_name_text path = raw_text (listen_lines @ [''zones:''] @ zone_lines (in_quotes []) path)"

definition optional_text :: "string \<Rightarrow> string" where
  "optional_text path = raw_text (listen_lines @ [''  workers: 8'', ''  log_level: debug'', ''  rate_limit: 500'',
     ''  api_listen: '' @ in_quotes ''127.0.0.1:8080''] @ [''zones:''] @ zone_lines ''example.com'' path)"

definition port_text :: "string" where
  "port_text = raw_text ([''server:'', ''  listen: '' @ in_quotes ''127.0.0.1:99999''] @ [''zones:''] @ zone_lines ''example.com'' ''/tmp/example.com.zone'')"

definition zones_text :: "string \<Rightarrow> string \<Rightarrow> string" where
  "zones_text path1 path2 = raw_text (listen_lines @ [''zones:''] @ zone_lines ''example.com'' path1 @
     zone_lines ''example.org'' path2 @ zone_lines ''example.net'' path1)"

definition workers_text :: "string \<Rightarrow> string \<Rightarrow> string" where
  "workers_text n path = raw_text (listen_lines @ [''  workers: '' @ n] @ [''zones:''] @ zone_lines ''example.com'' path)"

definition no_listen_text :: "string \<Rightarrow> string" where
  "no_listen_text path = raw_text ([''server:'', ''  workers: 4''] @ [''zones:''] @ zone_lines ''example.com'' path)"

definition empty_server_text :: "string \<Rightarrow> string" where
  "empty_server_text path = raw_text ([''server: {}''] @ [''zones:''] @ zone_lines ''example.com'' path)"

definition dot_text :: "string \<Rightarrow> string" where
  "dot_text path = raw_text (listen_lines @ [''zones:''] @ zone_lines (in_quotes ''.'') path)"

definition tcp_text :: "string \<Rightarrow> string" where
  "tcp_text path = raw_text (listen_lines @ [''  tcp:'', ''    idle_timeout: 60'', ''    max_queries_per_connection: 200''] @
     [''zones:''] @ zone_lines ''example.com'' path)"

definition tcp_partial_text :: "string \<Rightarrow> string" where
  "tcp_partial_text path = raw_text (listen_lines @ [''  tcp:'', ''    idle_timeout: 45''] @ [''zones:''] @ zone_lines ''example.com'' path)"

definition config_file_text :: "string \<Rightarrow> string" where
  "config_file_text path =
     concat (map (\<lambda>l. l @ [newline]) (listen_lines @ [''zones:''] @ zone_lines ''example.com'' path))"

definition broken_file_text :: string where
  "broken_file_text = ''invalid: yaml: {{'' @ [newline]"

section \<open>The tests\<close>

definition test_default_values :: "yaml_parser \<Rightarrow> bool" where
  "test_default_values yaml \<longleftrightarrow>
     (case from_str yaml (plain_text ''/tmp/example.com.zone'') of
        None \<Rightarrow> False
      | Some config \<Rightarrow> listen (cfg_server config) = ''127.0.0.1:5353'' \<and> workers (cfg_server config) = 4 \<and>
          log_level (cfg_server config) = ''info'')"

definition test_empty_zone_name :: "yaml_parser \<Rightarrow> string \<Rightarrow> bool" where
  "test_empty_zone_name yaml path \<longleftrightarrow>
     (case from_str yaml (empty_name_text path) of
        None \<Rightarrow> False
      | Some config \<Rightarrow> fails_with ''cannot be empty'' (validate (\<lambda>p. p = path) config))"

definition test_nonexistent_zone_file :: "yaml_parser \<Rightarrow> bool" where
  "test_nonexistent_zone_file yaml \<longleftrightarrow>
     (case from_str yaml (plain_text ''/nonexistent/path/to/zone.file'') of
        None \<Rightarrow> False
      | Some config \<Rightarrow> fails_with ''does not exist'' (validate (\<lambda>_. False) config))"

definition test_zero_zones :: "yaml_parser \<Rightarrow> bool" where
  "test_zero_zones yaml \<longleftrightarrow>
     (case from_str yaml zero_text of
        None \<Rightarrow> False
      | Some config \<Rightarrow> fails_with ''At least one zone'' (validate (\<lambda>_. False) config))"

definition test_all_optional_fields :: "yaml_parser \<Rightarrow> string \<Rightarrow> bool" where
  "test_all_optional_fields yaml path \<longleftrightarrow>
     (case from_str yaml (optional_text path) of
        None \<Rightarrow> False
      | Some config \<Rightarrow> workers (cfg_server config) = 8 \<and> log_level (cfg_server config) = ''debug'' \<and>
          rate_limit (cfg_server config) = Some 500 \<and> api_listen (cfg_server config) = Some ''127.0.0.1:8080'' \<and>
          is_ok (validate (\<lambda>p. p = path) config))"

definition test_invalid_port_number :: "yaml_parser \<Rightarrow> bool" where
  "test_invalid_port_number yaml \<longleftrightarrow>
     (case from_str yaml port_text of
        None \<Rightarrow> False
      | Some config \<Rightarrow> listen (cfg_server config) = ''127.0.0.1:99999'')"

definition test_multiple_zones :: "yaml_parser \<Rightarrow> string \<Rightarrow> string \<Rightarrow> bool" where
  "test_multiple_zones yaml path1 path2 \<longleftrightarrow>
     (case from_str yaml (zones_text path1 path2) of
        None \<Rightarrow> False
      | Some config \<Rightarrow> length (cfg_zones config) = 3 \<and> is_ok (validate (\<lambda>p. p = path1 \<or> p = path2) config))"

definition test_extreme_worker_count :: "yaml_parser \<Rightarrow> string \<Rightarrow> bool" where
  "test_extreme_worker_count yaml path \<longleftrightarrow>
     (case from_str yaml (workers_text ''0'' path) of
        None \<Rightarrow> False
      | Some config \<Rightarrow> workers (cfg_server config) = 0) \<and>
     (case from_str yaml (workers_text ''1000'' path) of
        None \<Rightarrow> False
      | Some config \<Rightarrow> workers (cfg_server config) = 1000)"

definition test_default_listen_address :: "yaml_parser \<Rightarrow> string \<Rightarrow> bool" where
  "test_default_listen_address yaml path \<longleftrightarrow>
     (case from_str yaml (no_listen_text path) of
        None \<Rightarrow> False
      | Some config \<Rightarrow> listen (cfg_server config) = ''0.0.0.0:53'')"

text \<open>The configuration file of the three tests of \<open>from_file\<close> is the only file with a text.\<close>

definition test_from_file_success :: "yaml_parser \<Rightarrow> string \<Rightarrow> string \<Rightarrow> bool" where
  "test_from_file_success yaml path config_path \<longleftrightarrow>
     (case from_file yaml [config_path \<mapsto> config_file_text path] config_path of
        Inl _ \<Rightarrow> False
      | Inr config \<Rightarrow> listen (cfg_server config) = ''127.0.0.1:5353'' \<and> map zc_name (cfg_zones config) = [''example.com''])"

definition test_from_file_not_found :: "yaml_parser \<Rightarrow> bool" where
  "test_from_file_not_found yaml \<longleftrightarrow>
     fails_with ''Failed to read configuration file''
       (from_file yaml Map.empty ''/nonexistent/path/to/config.yaml'')"

definition test_from_file_invalid_yaml :: "yaml_parser \<Rightarrow> string \<Rightarrow> bool" where
  "test_from_file_invalid_yaml yaml config_path \<longleftrightarrow>
     fails_with ''Failed to parse YAML configuration''
       (from_file yaml [config_path \<mapsto> broken_file_text] config_path)"

definition test_all_defaults :: "yaml_parser \<Rightarrow> string \<Rightarrow> bool" where
  "test_all_defaults yaml path \<longleftrightarrow>
     (case from_str yaml (empty_server_text path) of
        None \<Rightarrow> False
      | Some config \<Rightarrow> listen (cfg_server config) = ''0.0.0.0:53'' \<and> workers (cfg_server config) = 4 \<and>
          log_level (cfg_server config) = ''info'' \<and> rate_limit (cfg_server config) = None \<and>
          api_listen (cfg_server config) = None)"

definition test_validate_success :: "yaml_parser \<Rightarrow> string \<Rightarrow> bool" where
  "test_validate_success yaml path \<longleftrightarrow>
     (case from_str yaml (plain_text path) of
        None \<Rightarrow> False
      | Some config \<Rightarrow> is_ok (validate (\<lambda>p. p = path) config))"

definition test_partial_zone_name :: "yaml_parser \<Rightarrow> string \<Rightarrow> bool" where
  "test_partial_zone_name yaml path \<longleftrightarrow>
     (case from_str yaml (dot_text path) of
        None \<Rightarrow> False
      | Some config \<Rightarrow> map zc_name (take 1 (cfg_zones config)) = [''.''] \<and> is_ok (validate (\<lambda>p. p = path) config))"

definition test_tcp_config_defaults :: "yaml_parser \<Rightarrow> string \<Rightarrow> bool" where
  "test_tcp_config_defaults yaml path \<longleftrightarrow>
     (case from_str yaml (plain_text path) of
        None \<Rightarrow> False
      | Some config \<Rightarrow> tcp (cfg_server config) = None)"

definition test_tcp_config_custom_values :: "yaml_parser \<Rightarrow> string \<Rightarrow> bool" where
  "test_tcp_config_custom_values yaml path \<longleftrightarrow>
     (case from_str yaml (tcp_text path) of
        None \<Rightarrow> False
      | Some config \<Rightarrow> (case tcp (cfg_server config) of
          None \<Rightarrow> False
        | Some tcp_config \<Rightarrow> idle_timeout tcp_config = 60 \<and> max_queries_per_connection tcp_config = 200))"

definition test_tcp_config_partial_values :: "yaml_parser \<Rightarrow> string \<Rightarrow> bool" where
  "test_tcp_config_partial_values yaml path \<longleftrightarrow>
     (case from_str yaml (tcp_partial_text path) of
        None \<Rightarrow> False
      | Some config \<Rightarrow> (case tcp (cfg_server config) of
          None \<Rightarrow> False
        | Some tcp_config \<Rightarrow> idle_timeout tcp_config = 45 \<and> max_queries_per_connection tcp_config = 100))"

section \<open>The tests succeed\<close>

lemmas config_model =
  from_str_def parsed_def no_fields_def local_listen_def fill_config_def fill_server_def fill_tcp_def
  unwrap_or_def default_listen_def default_workers_def default_log_level_def default_tcp_max_queries_def
  default_tcp_idle_timeout_def

lemma messages:
  "contains ''Zone name cannot be empty'' ''cannot be empty''"
  "contains ''At least one zone must be configured'' ''At least one zone''"
  "contains ''Zone file does not exist: /nonexistent/path/to/zone.file'' ''does not exist''"
  "contains ''Failed to read configuration file'' ''Failed to read configuration file''"
  "contains ''Failed to parse YAML configuration'' ''Failed to parse YAML configuration''"
  by code_simp+

lemmas config_outcome = validate_def fails_with_def is_ok_def from_file_def messages ok_or_def

lemma default_values_test:
  assumes "yaml (plain_text ''/tmp/example.com.zone'') = parsed local_listen [(''example.com'', ''/tmp/example.com.zone'')]"
  shows "test_default_values yaml"
  using assms by (simp add: test_default_values_def config_model config_outcome)

lemma empty_zone_name_test:
  assumes "yaml (empty_name_text path) = parsed local_listen [([], path)]"
  shows "test_empty_zone_name yaml path"
  using assms by (simp add: test_empty_zone_name_def config_model config_outcome)

lemma nonexistent_zone_file_test:
  assumes "yaml (plain_text ''/nonexistent/path/to/zone.file'') = parsed local_listen [(''example.com'', ''/nonexistent/path/to/zone.file'')]"
  shows "test_nonexistent_zone_file yaml"
  using assms by (simp add: test_nonexistent_zone_file_def config_model config_outcome)

lemma zero_zones_test:
  assumes "yaml zero_text = parsed local_listen []"
  shows "test_zero_zones yaml"
  using assms by (simp add: test_zero_zones_def config_model config_outcome)

lemma all_optional_fields_test:
  assumes "yaml (optional_text path) =
      parsed (local_listen\<lparr>raw_workers := Some 8, raw_log_level := Some ''debug'', raw_rate_limit := Some 500,
        raw_api_listen := Some ''127.0.0.1:8080''\<rparr>) [(''example.com'', path)]"
  shows "test_all_optional_fields yaml path"
  using assms by (simp add: test_all_optional_fields_def config_model config_outcome)

lemma invalid_port_number_test:
  assumes "yaml port_text =
      parsed (no_fields\<lparr>raw_listen := Some ''127.0.0.1:99999''\<rparr>) [(''example.com'', ''/tmp/example.com.zone'')]"
  shows "test_invalid_port_number yaml"
  using assms by (simp add: test_invalid_port_number_def config_model config_outcome)

lemma multiple_zones_test:
  assumes "yaml (zones_text path1 path2) =
      parsed local_listen [(''example.com'', path1), (''example.org'', path2), (''example.net'', path1)]"
  shows "test_multiple_zones yaml path1 path2"
  using assms by (simp add: test_multiple_zones_def config_model config_outcome)

lemma extreme_worker_count_test:
  assumes "yaml (workers_text ''0'' path) = parsed (local_listen\<lparr>raw_workers := Some 0\<rparr>) [(''example.com'', path)]"
    and "yaml (workers_text ''1000'' path) = parsed (local_listen\<lparr>raw_workers := Some 1000\<rparr>) [(''example.com'', path)]"
  shows "test_extreme_worker_count yaml path"
  using assms by (simp add: test_extreme_worker_count_def config_model config_outcome)

lemma default_listen_address_test:
  assumes "yaml (no_listen_text path) = parsed (no_fields\<lparr>raw_workers := Some 4\<rparr>) [(''example.com'', path)]"
  shows "test_default_listen_address yaml path"
  using assms by (simp add: test_default_listen_address_def config_model config_outcome)

lemma from_file_success_test:
  assumes "yaml (config_file_text path) = parsed local_listen [(''example.com'', path)]"
  shows "test_from_file_success yaml path config_path"
  using assms by (simp add: test_from_file_success_def config_model config_outcome)

lemma from_file_not_found_test:
  "test_from_file_not_found yaml"
  by (simp add: test_from_file_not_found_def config_model config_outcome)

lemma from_file_invalid_yaml_test:
  assumes "yaml broken_file_text = None"
  shows "test_from_file_invalid_yaml yaml config_path"
  using assms by (simp add: test_from_file_invalid_yaml_def config_model config_outcome)

lemma all_defaults_test:
  assumes "yaml (empty_server_text path) = parsed no_fields [(''example.com'', path)]"
  shows "test_all_defaults yaml path"
  using assms by (simp add: test_all_defaults_def config_model config_outcome)

lemma validate_success_test:
  assumes "yaml (plain_text path) = parsed local_listen [(''example.com'', path)]"
  shows "test_validate_success yaml path"
  using assms by (simp add: test_validate_success_def config_model config_outcome)

lemma partial_zone_name_test:
  assumes "yaml (dot_text path) = parsed local_listen [(''.'', path)]"
  shows "test_partial_zone_name yaml path"
  using assms by (simp add: test_partial_zone_name_def config_model config_outcome)

lemma tcp_config_defaults_test:
  assumes "yaml (plain_text path) = parsed local_listen [(''example.com'', path)]"
  shows "test_tcp_config_defaults yaml path"
  using assms by (simp add: test_tcp_config_defaults_def config_model config_outcome)

lemma tcp_config_custom_values_test:
  assumes "yaml (tcp_text path) = parsed (local_listen\<lparr>raw_tcp_section :=
        Some \<lparr>raw_idle_timeout = Some 60, raw_max_queries = Some 200\<rparr>\<rparr>) [(''example.com'', path)]"
  shows "test_tcp_config_custom_values yaml path"
  using assms by (simp add: test_tcp_config_custom_values_def config_model config_outcome)

lemma tcp_config_partial_values_test:
  assumes "yaml (tcp_partial_text path) = parsed (local_listen\<lparr>raw_tcp_section :=
        Some \<lparr>raw_idle_timeout = Some 45, raw_max_queries = None\<rparr>\<rparr>) [(''example.com'', path)]"
  shows "test_tcp_config_partial_values yaml path"
  using assms by (simp add: test_tcp_config_partial_values_def config_model config_outcome)

end
