(* ===== verification/Generators.thy ===== *)
theory Generators
  imports Zone_Tests Protocol_Tests
begin

text \<open>
  \<open>src/proptest_helpers.rs\<close>: the generators of the property tests. A strategy is the set of the values
  it can produce; how likely each is does not matter. The tests of \<open>Zone_Tests\<close> and \<open>Protocol_Tests\<close>
  are then judged on exactly the inputs their authors meant them to run on.
\<close>

section \<open>Strategies\<close>

definition letters :: "nat \<Rightarrow> string set" where
  "letters n = {s. 1 \<le> length s \<and> length s \<le> n \<and> (\<forall>c \<in> set s. CHR ''a'' \<le> c \<and> c \<le> CHR ''z'')}"

definition arb_dns_label :: "string set" where
  "arb_dns_label = {s \<in> letters 63. s \<noteq> []}"

definition label_fqdn :: "string list \<Rightarrow> string" where
  "label_fqdn labels = join ''.'' labels @ ''.''"

text \<open>The lists of labels that pass the filter; the name is what \<open>Name::from_str(..).unwrap()\<close> makes of them.\<close>

definition arb_labels :: "string list set" where
  "arb_labels = {labels. 1 \<le> length labels \<and> length labels \<le> 4 \<and> set labels \<subseteq> arb_dns_label \<and>
     length (label_fqdn labels) \<le> 253}"

definition arb_dns_name :: "'n hickory \<Rightarrow> 'n set" where
  "arb_dns_name H = {n. \<exists>labels \<in> arb_labels. name_from_str H (label_fqdn labels) = Some n}"

definition arb_record_type :: "record_type set" where
  "arb_record_type = {RT_A, RT_AAAA, RT_NS, RT_CNAME, RT_MX, RT_TXT, RT_SOA, RT_PTR, RT_SRV, RT_CAA}"

definition arb_ipv4 :: "ipv4 set" where
  "arb_ipv4 = UNIV"

definition arb_ipv6 :: "ipv6 set" where
  "arb_ipv6 = {segments. length segments = 8}"

definition arb_a_record :: "'n hickory \<Rightarrow> 'n \<Rightarrow> 'n rr set" where
  "arb_a_record H name = (\<lambda>ip. from_rdata H name 3600 (RD_A ip)) ` arb_ipv4"

definition arb_aaaa_record :: "'n hickory \<Rightarrow> 'n \<Rightarrow> 'n rr set" where
  "arb_aaaa_record H name = (\<lambda>ip. from_rdata H name 3600 (RD_AAAA ip)) ` arb_ipv6"

definition arb_ns_record :: "'n hickory \<Rightarrow> 'n \<Rightarrow> 'n rr set" where
  "arb_ns_record H name = (\<lambda>ns_name. from_rdata H name 3600 (RD_NS ns_name)) ` arb_dns_name H"

definition arb_cname_record :: "'n hickory \<Rightarrow> 'n \<Rightarrow> 'n rr set" where
  "arb_cname_record H name = (\<lambda>target. from_rdata H name 3600 (RD_CNAME target)) ` arb_dns_name H"

definition arb_txt_record :: "'n hickory \<Rightarrow> 'n \<Rightarrow> 'n rr set" where
  "arb_txt_record H name = (\<lambda>text. from_rdata H name 3600 (RD_TXT [text])) ` letters 255"

definition arb_record :: "'n hickory \<Rightarrow> 'n \<Rightarrow> 'n rr set" where
  "arb_record H name =
     arb_a_record H name \<union> arb_aaaa_record H name \<union> arb_ns_record H name \<union> arb_cname_record H name \<union>
     arb_txt_record H name"

definition arb_query_message :: "'n hickory \<Rightarrow> 'n message set" where
  "arb_query_message H =
     {add_query \<lparr>q_name = name, q_type = rtype\<rparr> ((standard_message H)\<lparr>msg_id := i\<rparr>) | i name rtype.
        name \<in> arb_dns_name H \<and> rtype \<in> arb_record_type}"

definition arb_recursion_desired :: "bool set" where
  "arb_recursion_desired = UNIV"

definition arb_ttl :: "u32 set" where
  "arb_ttl = {60, 300, 3600, 86400} \<union> {0..2147483647}"

section \<open>What they produce\<close>

text \<open>A generated label is a name label of RFC 1035: letters, at most 63, without dots.\<close>

lemma arb_dns_label_no_dot: "l \<in> arb_dns_label \<Longrightarrow> l \<noteq> [] \<and> CHR ''.'' \<notin> set l"
  by (auto simp: arb_dns_label_def letters_def less_eq_char_def)

text \<open>A generated TTL is one of RFC 2181: the four common values are in the range anyway.\<close>

lemma arb_ttl_range: "arb_ttl = {t. unat t < 2 ^ 31}"
proof -
  have "t \<in> arb_ttl \<longleftrightarrow> unat t < 2 ^ 31" for t
    by (auto simp: arb_ttl_def word_le_nat_alt)
  then show ?thesis by blast
qed

text \<open>A generated record belongs to the name it was asked for and can be added to a zone under it.\<close>

lemma arb_record_owner:
  assumes "r \<in> arb_record H name"
  shows "rr_name r = name" and "rr_ttl r = 3600" and "\<exists>d. rr_data r = Some d \<and> rr_type r = rdata_type H d"
  using assms
  by (auto simp: arb_record_def arb_a_record_def arb_aaaa_record_def arb_ns_record_def arb_cname_record_def
      arb_txt_record_def)

lemma arb_record_lookup:
  assumes "r \<in> arb_record H name" and "wf_zone H z"
  shows "\<exists>rs. zone_lookup H (add_record H z r) name (rr_type r) = Some (rs @ [r])"
  using add_record_effect [OF assms(2), of r name "rr_type r"] arb_record_owner(1) [OF assms(1)]
  by (auto simp: name_eq_def split: option.splits)

lemma join_fqdn: "labels \<noteq> [] \<Longrightarrow> label_fqdn labels = concat (map (\<lambda>l. l @ ''.'') labels)"
  unfolding label_fqdn_def by (induction "''.''" labels rule: join.induct) auto

lemma split_dots_label: "CHR ''.'' \<notin> set l \<Longrightarrow> split_dots (l @ s) w = split_dots s (w @ l)"
  by (induction l arbitrary: w) auto

lemma split_dots_fqdn:
  "\<forall>l \<in> set labels. CHR ''.'' \<notin> set l \<Longrightarrow> split_dots (concat (map (\<lambda>l. l @ ''.'') labels)) [] = labels @ [[]]"
  by (induction labels) (auto simp: split_dots_label)

text \<open>
  On the concrete instance no generated text makes \<open>unwrap\<close> panic, and the names generated are the
  lists of labels.
\<close>

lemma arb_dns_name_sample: "arb_dns_name sample = arb_labels"
proof -
  have "sample_from_str (label_fqdn labels) = Some labels" if "labels \<in> arb_labels" for labels
  proof -
    have ls: "labels \<noteq> []" "\<forall>l \<in> set labels. l \<noteq> [] \<and> CHR ''.'' \<notin> set l"
      using that arb_dns_label_no_dot by (auto simp: arb_labels_def)
    then have split: "split_dots (label_fqdn labels) [] = labels @ [[]]"
      by (simp add: join_fqdn split_dots_fqdn)
    have "label_fqdn labels \<noteq> ''.''"
      using ls by (cases labels) (auto simp: join_fqdn append_eq_Cons_conv)
    then show ?thesis using ls split by (auto simp: sample_from_str_def Let_def)
  qed
  then show ?thesis by (auto simp: arb_dns_name_def)
qed

text \<open>Every generated query is answered, and the answer repeats it.\<close>

lemma arb_query_message_answered:
  assumes "fresh_message (message_new H)" and "query \<in> arb_query_message H"
  shows "\<exists>r. process_query H st query = Inr r \<and> msg_id r = msg_id query \<and>
    msg_response_code r \<in> {NoError, NXDomain, Refused} \<and> msg_queries r = msg_queries query"
proof -
  from assms(2) obtain i name rtype where t: "rtype \<in> arb_record_type"
    and query: "query = add_query \<lparr>q_name = name, q_type = rtype\<rparr> ((standard_message H)\<lparr>msg_id := i\<rparr>)"
    by (auto simp: arb_query_message_def)
  have q: "msg_op_code query = OP_Query" "msg_queries query = [\<lparr>q_name = name, q_type = rtype\<rparr>]" "rtype \<noteq> RT_AXFR"
    using assms(1) t by (auto simp: query add_query_def standard_message_def fresh_message_def arb_record_type_def)
  obtain r where r: "process_query H st query = Inr r" using process_query_total by blast
  have "msg_response_code r \<in> {NoError, NXDomain, Refused} \<and> msg_queries r = msg_queries query"
    using r assms(1) q
    by (cases rule: process_query_cases [where query = query and H = H and st = st])
       (auto simp: first_query_def process_query_def process_query_resolves resolves_def Let_def add_query_def
          answer_query_sections split: if_splits option.splits)
  with r process_query_header(1) [OF r] show ?thesis by blast
qed

text \<open>
  The test \<open>prop_authoritative_for_configured_zones\<close> does not hold for all names its generator can
  produce.
\<close>

lemma suffix_test_refuted:
  "\<exists>name \<in> arb_dns_name sample. prop_authoritative_for_configured_zones sample name = Some False"
proof (rule bexI)
  show "[''myexample'', ''com''] \<in> arb_dns_name sample"
    unfolding arb_dns_name_sample by (simp add: arb_labels_def arb_dns_label_def letters_def label_fqdn_def less_eq_char_def)
  show "prop_authoritative_for_configured_zones sample [''myexample'', ''com''] = Some False"
    by (rule suffix_property_test)
qed

end
