(* ===== verification/Spec2Isabelle.thy ===== *)
theory Spec2Isabelle
  imports Zone_Parser Zone_Print Protocol Answer_Spec Ratelimit Metrics Dnssec Config Server_Udp Server_Tcp
    Tcp_Session Lifecycle Event_System System Connection_Run Api Http_Server
    Zone_Tests Zone_File_Tests Protocol_Tests Metrics_Tests Ratelimit_Tests Dnssec_Tests Server_Tests
    Config_Tests Generators
begin

text \<open>
  \<^bold>\<open>lrmdns\<close>, an authoritative DNS server in Rust (\<open>src/\<close>), as executable definitions with the
  theorems that make them correct.

  \<^bold>\<open>The program.\<close> \<open>main.rs\<close> reads a configuration (\<open>config.rs\<close>), loads the zone files (the parser
  in \<open>zone.rs\<close>) into a zone store (\<open>zone.rs\<close>) and starts the server (\<open>server.rs\<close>). A UDP task per
  datagram and a TCP task per connection check the rate limiter (\<open>ratelimit.rs\<close>), decode the
  message, let the query processor (\<open>protocol.rs\<close>) answer it from the store, encode the answer and
  count what happened (\<open>metrics.rs\<close>). Signals reload the zones, log the counters or stop the server;
  an HTTP endpoint (\<open>api.rs\<close>) shows the counters. \<open>dnssec.rs\<close> has helpers for DNSSEC records.

  \<^bold>\<open>The theories\<close>, each with the group of definitions that models its part, in the order of the code,
  then the lemmas, then the properties (marked with their number):

  \<^item> \<open>Prelude\<close>: machine integers, results (\<open>'e + 'a\<close>, \<open>Inl\<close> an error), \<open>HashMap\<close> as a keyed
    association list with its interface (locale \<open>keyed_map\<close>, interpreted as \<open>hm\<close>), stable sorting.
  \<^item> \<open>Rust_Std\<close>: what the sources use of the standard library: strings as UTF-8 bytes, splitting,
    trimming, parsing of numbers and IP addresses.
  \<^item> \<open>Dns_Data\<close>: records and messages, and the functions of the crates \<open>hickory_proto\<close>, \<open>base64\<close>,
    \<open>hex\<close> and \<open>sha2\<close> as fields of the records \<open>hickory\<close> and \<open>codecs\<close>, which every definition that
    calls them takes as an argument; documented behaviour of theirs is a named hypothesis
    (\<open>name_order\<close>, \<open>rtype_order\<close>, \<open>fresh_message\<close>, \<open>rdata_types\<close>). \<open>Sample\<close> is an instance for the
    witnesses.
  \<^item> \<open>Zone\<close>: \<open>Zone\<close> and \<open>ZoneStore\<close>. A zone refines the list of records it was built from; the lookup
    interface is the locale \<open>zone_interface\<close> (interpreted as \<open>zi\<close>); transfers are complete and sorted;
    \<open>find_zone\<close> takes the closest enclosing zone, and when its result depends on the iteration order.
  \<^item> \<open>Zone_Parser\<close>: \<open>parse_zone_file\<close> and all it calls, line by line and type by type. Parsing never
    panics and refines reading the records and loading them; records over several lines are joined.
  \<^item> \<open>Zone_Print\<close>: a printer for zone files, as the specification of the format. The parser inverts it on
    whole files with every record type it reads, and a zone that was transferred, written and loaded
    again has the same records.
  \<^item> \<open>Protocol\<close>: \<open>process_query\<close>. Positive answers are exact, negative ones say NXDomain exactly when
    they should, every record comes from the zone found, EDNS and wildcard behaviour.
  \<^item> \<open>Answer_Spec\<close>: what an answer is, over the list of the records of a zone (\<open>spec_response\<close>), and
    that \<open>process_query\<close> on the hash maps of a zone refines it; aliases are followed once.
  \<^item> \<open>Ratelimit\<close>: the limiter. It refines a limiter that remembers every accepted query (locale
    \<open>sliding_window\<close>, interpreted as \<open>sw\<close>), so that no second has more than \<open>max_qps\<close> accepted queries
    of a client, clients are independent and memory is bounded.
  \<^item> \<open>Metrics\<close>: the counters as functions of the events recorded, in any order; the snapshot.
  \<^item> \<open>Dnssec\<close>: key tags are those of RFC 4034, DS verification binds one key, NSEC denial is exact on
    the chain of a zone, signature lifetimes.
  \<^item> \<open>Config\<close>: the configuration with its defaults and its validation.
  \<^item> \<open>Server_Udp\<close>, \<open>Server_Tcp\<close>: the two handlers and their loops. Every datagram is counted
    once, and answered unless the answer cannot be encoded; the form in which a response that is too
    large goes out is determined exactly; connections write whole length-prefixed messages, end after
    a bounded number of queries, and send every record of a transfer.
  \<^item> \<open>Tcp_Session\<close>: a connection from the client's side: pipelined queries are answered in order.
  \<^item> \<open>Lifecycle\<close>: startup, reload and signals, and the server as a transition system (\<open>server_step\<close>,
    \<open>reachable\<close>): when the server starts and with which error it stops; the zones served always come
    from one complete load.
  \<^item> \<open>Event_System\<close>: systems driven by events (locale \<open>event_system\<close>): the induction principle for
    invariants and what a component sees of a run.
  \<^item> \<open>System\<close>: the server as an executable event system (\<open>server_next\<close>; \<open>event_system\<close> interpreted as
    \<open>sys\<close>), which stands for the tasks \<open>tokio\<close> runs and is no function of the source. Over every run
    the rate limit holds for UDP and TCP together, said of what queries cause and not of what the
    limiter decided, the counters tell what happened, and the limiter keeps its invariant.
  \<^item> \<open>Connection_Run\<close>: a whole connection, interleaved with all other tasks, is part of a run of \<open>System\<close>.
  \<^item> \<open>Api\<close>, \<open>Http_Server\<close>: the HTTP handlers, and the API of the running server: what \<open>/metrics\<close> reports
    is what happened in the run.
  \<^item> \<open>Zone_Tests\<close>, \<open>Zone_File_Tests\<close>, \<open>Protocol_Tests\<close>, \<open>Metrics_Tests\<close>, \<open>Ratelimit_Tests\<close>,
    \<open>Dnssec_Tests\<close>, \<open>Server_Tests\<close>, \<open>Config_Tests\<close> and the tests in \<open>Http_Server\<close>: the unit tests of those modules as executable definitions that
    succeed on the model, which ties it to what the authors expect of the code. Tests of a single
    input are evaluated on the instance \<open>Sample\<close>; the property tests, the tests that read the clock,
    that hash, that measure encoded messages or that run threads are proved for every input, clock,
    hash function, encoder or interleaving; those of \<open>config.rs\<close> for every YAML parser that reads the
    fields of their texts.
  \<^item> \<open>Generators\<close>: the strategies of \<open>proptest_helpers.rs\<close> as sets of values. One property test fails
    on a name its generator can produce.
  \<^item> This theory: the property that spans them, from the text of the zone files to the datagram, in
    every reachable state.

  \<^bold>\<open>State and effects.\<close> A struct is a record with the fields of the source; the objects behind shared
  pointers and locks are fields of \<open>dns_server\<close>, passed through the handlers. Every read of the clock,
  every result of a read or write on a socket and the content of files are inputs; each read of a
  file has its own, so that files may change between two reads of one load. A handler under
  a lock is one step; \<open>te_others\<close> is what other tasks do between two queries of a connection, and
  \<open>server_step\<close> and the runs of \<open>server_next\<close> interleave datagrams, rounds of connections and signals
  freely; what is in flight may complete after the shutdown was requested. Errors of \<open>anyhow\<close>
  are values that name their context; an index out of range in the parser is the value \<open>Panic\<close>.

  \<^bold>\<open>Loops.\<close> All loops are total functions. \<open>truncate_loop\<close> ends because a section is empty after one
  round, \<open>tcp_loop\<close> because the number of queries handled stays below the limit; no fuel is used.
  A read that never completes is the value \<open>Blocks\<close>. Counters are 64-bit words and wrap, as in a release
  build; the key
  tag accumulator is a 32-bit word, shown not to overflow for records that fit a message.

  \<^bold>\<open>Encoding.\<close> The encoder of messages is partial: a message with a character string of more than 255
  bytes, which the parser builds from a long TXT line, has no encoding. No property assumes that
  messages can be encoded in general; what happens when one cannot is part of the statements, or the
  messages concerned are named in a hypothesis.

  \<^bold>\<open>Not modelled.\<close> Log output other than the metrics summary; the scheduler of \<open>tokio\<close>, of which only
  the interleavings it can produce are modelled; the length of the idle timeout (a stream is silent
  for longer than it or not); rounding of \<open>f64\<close> values; the wire format, the YAML and JSON formats and
  the cryptographic functions, which belong to other crates; the integration tests; two unit tests of
  \<open>config.rs\<close> and two of \<open>server.rs\<close>, which run nothing but the YAML parser and the message codec; the
  probabilities of the test generators.
\<close>

section \<open>From a zone file to an answer\<close>

text \<open>
  A response made from the file of a configured zone: the records are those of the file from its
  first SOA record on, and the zone is the one whose origin is the name or encloses it.
\<close>

definition answered_from ::
  "'n hickory \<Rightarrow> codecs \<Rightarrow> (string \<Rightarrow> string option) \<Rightarrow> zone_config \<Rightarrow> 'n question \<Rightarrow> bool \<Rightarrow> 'n message \<Rightarrow> bool" where
  "answered_from H C read_file zc q sigs r \<longleftrightarrow>
     (\<exists>content origin rs soa. read_file (zc_file zc) = Some content \<and>
        name_from_str H (zc_name zc) = Some origin \<and>
        (name_eq H origin (q_name q) \<or> name_zone_of H origin (q_name q)) \<and>
        file_records H C (start_state origin) 0 (preprocess_zone_content content) = Inr rs \<and>
        (let served = dropWhile (\<lambda>r. \<not> is_soa r) rs in
         served \<noteq> [] \<and> extract_soa_data (hd served) = Some soa \<and> msg_authoritative r \<and>
         (msg_response_code r, msg_answers r, msg_name_servers r) = spec_response H origin soa served q sigs))"

text \<open>A server with one configured zone finds that zone for every name in it.\<close>

lemma single_zone_found:
  assumes "name_zone_of H (zone_origin z) n" and "0 < name_num_labels H (zone_origin z)"
  shows "find_zone H (add_zone H zone_store_new z) n = Some z"
  using assms by (simp add: find_zone_def add_zone_def zone_store_new_def hm_insert_def Let_def)

lemma startup_single_zone:
  assumes "startup H C yaml read_file file_exists now args = Inr d" and "cfg_zones (d_config d) = [zc]"
    and "read_file 1 (zc_file zc) = Some content" and "name_from_str H (zc_name zc) = Some origin"
    and "file_records H C (start_state origin) 0 (preprocess_zone_content content) = Inr rs"
  obtains soa where "srv_zones (d_server d) =
      add_zone H zone_store_new (zone_of_records H origin soa (dropWhile (\<lambda>r. \<not> is_soa r) rs))"
proof -
  have "load_zones H C (\<lambda>i. read_file (Suc i)) (d_config d) = Inr (srv_zones (d_server d))"
    using assms(1) by (auto simp: startup_def Let_def dns_server_new_def split: sum.splits)
  then obtain z where z: "parse_zone_file H C (Some content) (zc_name zc) = Inr z"
    and st: "srv_zones (d_server d) = add_zone H zone_store_new z"
    using assms(2,3) by (auto simp: load_zones_def split: sum.splits)
  from z assms(4,5) have "load_records H origin rs = Some z"
    unfolding parse_zone_file_eq by (simp add: start_state_def res_simps)
  from load_records_SomeD [OF this] st that show ?thesis by metis
qed

lemma store_answers:
  assumes "fresh_message (message_new H)" and "load_zones H C read_file cfg = Inr st" and "wf_store H st"
    and "resolves H st query q z" and "process_query H st query = Inr r"
  shows "\<exists>i < length (cfg_zones cfg). answered_from H C (read_file i) (cfg_zones cfg ! i) q (wants_dnssec query) r"
proof -
  have find: "find_zone H st (q_name q) = Some z" using assms(4) by (simp add: resolves_def)
  from load_zones_stored [OF assms(2) find_zone_stored [OF assms(3) find]] obtain i where
    i: "i < length (cfg_zones cfg)" and zc: "parse_zone_file H C (read_file i (zc_file (cfg_zones cfg ! i)))
      (zc_name (cfg_zones cfg ! i)) = Inr z" unfolding zone_parsed_def by blast
  obtain content rs where f: "read_file i (zc_file (cfg_zones cfg ! i)) = Some content"
    "name_from_str H (zc_name (cfg_zones cfg ! i)) = Some (zone_origin z)"
    "file_records H C (start_state (zone_origin z)) 0 (preprocess_zone_content content) = Inr rs"
    "dropWhile (\<lambda>r. \<not> is_soa r) rs \<noteq> []"
    "extract_soa_data (hd (dropWhile (\<lambda>r. \<not> is_soa r) rs)) = Some (zone_soa z)"
    and z: "z = zone_of_records H (zone_origin z) (zone_soa z) (dropWhile (\<lambda>r. \<not> is_soa r) rs)"
    by (rule parse_zone_file_records [OF zc])
  have "resolves H st query q (zone_of_records H (zone_origin z) (zone_soa z) (dropWhile (\<lambda>r. \<not> is_soa r) rs))"
    using assms(4) z by simp
  note spec = resolved_spec [OF assms(1) this assms(5)]
  have "answered_from H C (read_file i) (cfg_zones cfg ! i) q (wants_dnssec query) r"
    unfolding answered_from_def Let_def using f spec find_zone_encloses [OF assms(3) find] by blast
  with i show ?thesis by blast
qed

text \<open>
  C1. From the zone files to the datagram. In every state the server can reach, through any
  interleaving of queries, connections and signals, with files that change at will, a datagram the
  limiter lets through and that decodes to a standard query gets the response that the specification
  of an answer gives for the records of the file of a configured zone that encloses the name, as the
  files were when one complete load of all zones read them; for a name for which no zone is found it
  is a refusal. The response goes out whole or truncated on a socket that accepts datagrams; the
  one exception is a response of which some form cannot be encoded, for which nothing is sent. The
  signatures are in the answer exactly when the client asks for them, whatever
  \<open>auto_include_dnssec\<close> is in the configuration.
\<close>

theorem served_answers:
  assumes "fresh_message (message_new H)"
    and "reachable H C d" and "ue_send_ok env" and "fst (limiter_allows (ue_ticks env) addr (d_server d))"
    and "message_from_bytes H data = Some query"
    and "msg_op_code query = OP_Query" and "first_query query = Some q" and "q_type q \<noteq> RT_AXFR"
  shows "\<exists>read_file r. load_zones H C read_file (d_config d) = Inr (srv_zones (d_server d)) \<and>
    (if find_zone H (srv_zones (d_server d)) (q_name q) = None
     then msg_response_code r = Refused \<and> msg_answers r = [] \<and> msg_name_servers r = []
     else \<exists>i < length (cfg_zones (d_config d)).
       answered_from H C (read_file i) (cfg_zones (d_config d) ! i) q (wants_dnssec query) r) \<and>
    ((\<exists>buf m s. handle_udp_query H env data addr (d_server d) = (Inr (), Some buf, s) \<and> sent_as H r buf m) \<or>
     (\<exists>e s. handle_udp_query H env data addr (d_server d) = (Inl e, None, s)) \<and>
       (\<exists>m \<in> set (udp_forms r). message_to_bytes H m = None))"
proof -
  let ?st = "srv_zones (d_server d)" and ?zones = "cfg_zones (d_config d)"
  note loaded = reachable_loaded [OF assms(2)]
  then obtain read_file where load: "load_zones H C read_file (d_config d) = Inr ?st"
    by (auto simp: loaded_def)
  have wf: "wf_store H ?st" using loaded_good(1) [OF loaded] by (simp add: good_store_def)
  obtain r where r: "process_query H ?st query = Inr r" using process_query_total by blast
  obtain s1 where "limiter_allows (ue_ticks env) addr (d_server d) = (True, s1)"
    using assms(4) by (cases "limiter_allows (ue_ticks env) addr (d_server d)") auto
  note sent = handle_udp_query_sends [OF assms(3) this assms(5) r]
  have "if find_zone H ?st (q_name q) = None
     then msg_response_code r = Refused \<and> msg_answers r = [] \<and> msg_name_servers r = []
     else \<exists>i < length ?zones. answered_from H C (read_file i) (?zones ! i) q (wants_dnssec query) r"
  proof (cases "find_zone H ?st (q_name q)")
    case None
    then show ?thesis using r assms(1,6-8) by (auto simp: process_query_def Let_def add_query_def)
  next
    case (Some z)
    then have "resolves H ?st query q z" using assms(6-8) by (simp add: resolves_def)
    from store_answers [OF assms(1) load wf this r] Some show ?thesis by simp
  qed
  with load sent show ?thesis by (intro exI [of _ read_file] exI [of _ r] conjI)
qed

text \<open>A decoder that reads every packet as a query for the address of the name server.\<close>

definition ns1_hickory :: "string list hickory" where
  "ns1_hickory = sample\<lparr>message_from_bytes := (\<lambda>_. Some (query_for (''ns1'' # example_com) RT_A None))\<rparr>"

theorem served_answers_witness:
  "\<exists>d read_file zc r buf m s.
     startup ns1_hickory sample_codecs (\<lambda>_. Some test_raw_config) (\<lambda>_ _. Some test_zone_text) (\<lambda>_. True) 0 [] = Inr d \<and>
     handle_udp_query ns1_hickory test_env [18, 52] (V4 (10, 0, 0, 1)) (d_server d) = (Inr (), Some buf, s) \<and>
     sent_as ns1_hickory r buf m \<and>
     answered_from ns1_hickory sample_codecs read_file zc \<lparr>q_name = ''ns1'' # example_com, q_type = RT_A\<rparr> False r"
proof -
  let ?start = "startup ns1_hickory sample_codecs (\<lambda>_. Some test_raw_config) (\<lambda>_ _. Some test_zone_text)
      (\<lambda>_. True) 0 []"
  let ?q = "\<lparr>q_name = ''ns1'' # example_com, q_type = RT_A\<rparr>"
  have "case ?start of Inl _ \<Rightarrow> False
    | Inr d \<Rightarrow> (case find_zone ns1_hickory (srv_zones (d_server d)) (''ns1'' # example_com) of None \<Rightarrow> False
        | Some _ \<Rightarrow> fst (limiter_allows (ue_ticks test_env) (V4 (10, 0, 0, 1)) (d_server d)))"
    by code_simp
  then obtain d where d: "?start = Inr d"
    and found: "find_zone ns1_hickory (srv_zones (d_server d)) (q_name ?q) \<noteq> None"
    and allowed: "fst (limiter_allows (ue_ticks test_env) (V4 (10, 0, 0, 1)) (d_server d))"
    by (auto split: sum.splits option.splits)
  have r: "reachable ns1_hickory sample_codecs d" using d by (rule started)
  have H: "fresh_message (message_new ns1_hickory)" "\<forall>m. message_to_bytes ns1_hickory m \<noteq> None" "ue_send_ok test_env"
    "message_from_bytes ns1_hickory [18, 52] = Some (query_for (''ns1'' # example_com) RT_A None)"
    using sample_fresh by (simp_all add: ns1_hickory_def sample_to_bytes_def test_env_def)
  have q: "msg_op_code (query_for (''ns1'' # example_com) RT_A None) = OP_Query"
    "first_query (query_for (''ns1'' # example_com) RT_A None) = Some ?q" "q_type ?q \<noteq> RT_AXFR"
    "wants_dnssec (query_for (''ns1'' # example_com) RT_A None) = False"
    by (simp_all add: query_for_def sample_message_def first_query_def wants_dnssec_def)
  from served_answers [OF H(1) r H(3) allowed H(4) q(1-3)] found H(2) obtain read_file r buf m s zc where
    "handle_udp_query ns1_hickory test_env [18, 52] (V4 (10, 0, 0, 1)) (d_server d) = (Inr (), Some buf, s)"
    "sent_as ns1_hickory r buf m" "answered_from ns1_hickory sample_codecs read_file zc ?q
       (wants_dnssec (query_for (''ns1'' # example_com) RT_A None)) r"
    by (auto split: if_splits)
  with q(4) d show ?thesis by (simp only: simp_thms) blast
qed

text \<open>
  The same from a single file, said of \<open>process_query\<close> alone: a server started with one configured zone
  answers a standard query for a name in that zone with exactly the records of the file, from its
  first SOA record on, that have the name and the type, in file order, followed by the signatures
  over them when the client asks for DNSSEC; the answer is authoritative and has no error.
\<close>

theorem zone_file_to_answer:
  assumes "fresh_message (message_new H)"
    and "startup H C yaml read_file file_exists now args = Inr d" and "cfg_zones (d_config d) = [zc]"
    and "read_file 1 (zc_file zc) = Some content" and "name_from_str H (zc_name zc) = Some origin"
    and "file_records H C (start_state origin) 0 (preprocess_zone_content content) = Inr rs"
    and "msg_op_code query = OP_Query" and "first_query query = Some q" and "q_type q \<noteq> RT_AXFR"
    and "name_zone_of H origin (q_name q)" and "0 < name_num_labels H origin"
    and "rrset_of H (q_name q) (q_type q) (dropWhile (\<lambda>r. \<not> is_soa r) rs) \<noteq> []"
  shows "\<exists>r. process_query H (srv_zones (d_server d)) query = Inr r \<and> msg_authoritative r \<and>
    msg_response_code r = NoError \<and>
    msg_answers r = rrset_of H (q_name q) (q_type q) (dropWhile (\<lambda>r. \<not> is_soa r) rs) @
      (if wants_dnssec query
       then filter (sig_covers (q_type q)) (rrset_of H (q_name q) RT_SIG (dropWhile (\<lambda>r. \<not> is_soa r) rs))
       else [])"
proof -
  from startup_single_zone [OF assms(2-6)] obtain soa where
    st: "srv_zones (d_server d) =
      add_zone H zone_store_new (zone_of_records H origin soa (dropWhile (\<lambda>r. \<not> is_soa r) rs))" .
  have "resolves H (srv_zones (d_server d)) query q
      (zone_of_records H origin soa (dropWhile (\<lambda>r. \<not> is_soa r) rs))"
    using assms(7-11) by (simp add: st resolves_def single_zone_found)
  from positive_answer [OF assms(1) this assms(12)] show ?thesis by blast
qed

theorem zone_file_to_answer_witness:
  "\<exists>d r. test_startup = Inr d \<and>
     process_query sample (srv_zones (d_server d)) (query_for (''ns1'' # example_com) RT_A None) = Inr r \<and>
     map rr_data (msg_answers r) = [Some (RD_A (192, 0, 2, 1))]"
proof -
  obtain d where d: "test_startup = Inr d" using test_startup_ok by blast
  let ?zc = "\<lparr>zc_name = ''example.com.'', zc_file = ''example.com.zone''\<rparr>"
  let ?q = "query_for (''ns1'' # example_com) RT_A None"
  let ?question = "\<lparr>q_name = ''ns1'' # example_com, q_type = RT_A\<rparr>"
  define rs where "rs = projr (file_records sample sample_codecs (start_state example_com) 0
      (preprocess_zone_content test_zone_text))"
  let ?after = "dropWhile (\<lambda>r. \<not> is_soa r) rs"
  have "case test_startup of Inr d \<Rightarrow> cfg_zones (d_config d) = [?zc] | Inl _ \<Rightarrow> False" by code_simp
  then have cfg: "cfg_zones (d_config d) = [?zc]" by (simp add: d)
  have "case file_records sample sample_codecs (start_state example_com) 0
      (preprocess_zone_content test_zone_text) of Inr _ \<Rightarrow> True | Inl _ \<Rightarrow> False" by code_simp
  then have rs: "file_records sample sample_codecs (start_state example_com) 0
      (preprocess_zone_content test_zone_text) = Inr rs"
    by (auto simp: rs_def split: sum.splits)
  have data: "map rr_data (rrset_of sample (''ns1'' # example_com) RT_A ?after) = [Some (RD_A (192, 0, 2, 1))]"
    unfolding rs_def by code_simp
  have name: "name_from_str sample (zc_name ?zc) = Some example_com"
    "name_zone_of sample example_com (q_name ?question)" "0 < name_num_labels sample example_com"
    by code_simp+
  have q: "msg_op_code ?q = OP_Query" "first_query ?q = Some ?question" "\<not> wants_dnssec ?q"
    by (simp_all add: query_for_def sample_message_def first_query_def wants_dnssec_def)
  from data have "rrset_of sample (''ns1'' # example_com) RT_A ?after \<noteq> []" by auto
  with zone_file_to_answer [OF sample_fresh d [unfolded test_startup_def] cfg refl name(1) rs q(1,2) _ name(2,3)]
    data q(3) d show ?thesis by auto
qed

end
